(* ===== verification/Prelude.thy ===== *)
theory Prelude
  imports Main "HOL-Library.Word"
begin

text \<open>
  Shared vocabulary of the development.

  \<^item> Rust's fixed-width integers are words: \<open>u8\<close>, \<open>u16\<close>, \<open>u32\<close>, \<open>u64\<close>. A \<open>usize\<close> that
    counts bytes or elements is a \<open>nat\<close>; where the source uses checked or saturating
    arithmetic on it the 64-bit limit \<open>usize_max\<close> is written out.
  \<^item> \<open>Result<T, E>\<close> is the sum \<open>'e + 'a\<close>; \<open>Ok\<close> and \<open>Err\<close> name its injections and
    \<open>try_bind\<close> is the \<open>?\<close> operator.
  \<^item> A method on \<open>&mut self\<close> that returns a \<open>Result\<close> yields the state it leaves behind
    together with the result, also when the result is an error, so that a partial update
    before an early return is visible; \<open>seq_bind\<close> is \<open>?\<close> for such methods.
\<close>

section \<open>Machine integers\<close>

type_synonym u8 = "8 word"
type_synonym u16 = "16 word"
type_synonym u32 = "32 word"
type_synonym u64 = "64 word"
type_synonym usize = nat
type_synonym bytes = "u8 list"
type_synonym path = bytes

definition usize_max :: nat where
  "usize_max = 2 ^ 64 - 1"

definition usize_checked_add :: "usize \<Rightarrow> usize \<Rightarrow> usize option" where
  "usize_checked_add a b = (if a + b \<le> usize_max then Some (a + b) else None)"

definition usize_saturating_add :: "usize \<Rightarrow> usize \<Rightarrow> usize" where
  "usize_saturating_add a b = min (a + b) usize_max"

definition u64_checked_add :: "u64 \<Rightarrow> u64 \<Rightarrow> u64 option" where
  "u64_checked_add a b = (if unat a + unat b < 2 ^ 64 then Some (a + b) else None)"

definition u64_checked_mul :: "u64 \<Rightarrow> u64 \<Rightarrow> u64 option" where
  "u64_checked_mul a b = (if unat a * unat b < 2 ^ 64 then Some (a * b) else None)"

definition u64_saturating_add :: "u64 \<Rightarrow> u64 \<Rightarrow> u64" where
  "u64_saturating_add a b = (if unat a + unat b < 2 ^ 64 then a + b else -1)"

named_theorems int_defs \<open>definitions of the checked and saturating operations\<close>

lemmas [int_defs] = usize_checked_add_def usize_saturating_add_def u64_checked_add_def
  u64_checked_mul_def u64_saturating_add_def

lemma unat_u64_bound: "unat (a :: u64) < 2 ^ 64"
proof -
  have "unat a < 2 ^ LENGTH(64)" by (rule unsigned_less)
  then show ?thesis by simp
qed

lemma unat_u64_add: "unat a + unat b < 2 ^ 64 \<Longrightarrow> unat (a + b :: u64) = unat a + unat b"
  by (simp add: unat_word_ariths)

lemma u64_checked_add_Some_iff:
  "u64_checked_add a b = Some c \<longleftrightarrow> unat a + unat b < 2 ^ 64 \<and> unat c = unat a + unat b"
proof -
  have "unat a + unat b < 2 ^ 64 \<Longrightarrow> (a + b = c) = (unat c = unat a + unat b)"
    using unat_u64_add [of a b] by (auto simp: word_unat_eq_iff)
  then show ?thesis by (auto simp: u64_checked_add_def)
qed

lemma unat_u64_max: "unat (-1 :: u64) = 2 ^ 64 - 1"
  by (simp add: unsigned_minus_1_eq_mask mask_eq_exp_minus_1)

lemma u64_checked_add_1_None_iff: "u64_checked_add a 1 = None \<longleftrightarrow> a = -1"
proof -
  have "u64_checked_add a 1 = None \<longleftrightarrow> unat a = 2 ^ 64 - 1"
    using unat_u64_bound [of a] by (auto simp: u64_checked_add_def)
  then show ?thesis
    unfolding word_unat_eq_iff [of a] unat_u64_max by simp
qed

lemma u64_checked_add_1_Some:
  assumes "u64_checked_add a 1 = Some c"
  shows "a < c \<and> c = a + 1 \<and> c \<noteq> 0"
proof -
  from assms have "unat c = unat a + 1"
    by (simp add: u64_checked_add_Some_iff)
  then have "a < c" "c \<noteq> 0"
    by (auto simp: word_less_nat_alt)
  with assms show ?thesis
    by (simp add: u64_checked_add_def split: if_splits)
qed

lemma u64_max_ge [simp]: "a \<le> (-1 :: u64)"
  by (rule word_order.extremum)

section \<open>Results\<close>

type_synonym ('e, 'a) result = "'e + 'a"

abbreviation Ok :: "'a \<Rightarrow> ('e, 'a) result" where "Ok \<equiv> Inr"
abbreviation Err :: "'e \<Rightarrow> ('e, 'a) result" where "Err \<equiv> Inl"

definition try_bind :: "('e, 'a) result \<Rightarrow> ('a \<Rightarrow> ('e, 'b) result) \<Rightarrow> ('e, 'b) result" where
  "try_bind r k = (case r of Err e \<Rightarrow> Err e | Ok a \<Rightarrow> k a)"

definition map_err :: "('e \<Rightarrow> 'f) \<Rightarrow> ('e, 'a) result \<Rightarrow> ('f, 'a) result" where
  "map_err f r = (case r of Err e \<Rightarrow> Err (f e) | Ok a \<Rightarrow> Ok a)"

definition ok_or :: "'e \<Rightarrow> 'a option \<Rightarrow> ('e, 'a) result" where
  "ok_or e x = (case x of None \<Rightarrow> Err e | Some a \<Rightarrow> Ok a)"

fun is_ok :: "('e, 'a) result \<Rightarrow> bool" where
  "is_ok (Ok _) = True"
| "is_ok (Err _) = False"

abbreviation is_err :: "('e, 'a) result \<Rightarrow> bool" where
  "is_err r \<equiv> \<not> is_ok r"

lemma try_bind_simps [simp]:
  "try_bind (Err e) k = Err e" "try_bind (Ok a) k = k a"
  by (simp_all add: try_bind_def)

lemma try_bind_eq_Ok [simp]:
  "try_bind r k = Ok b \<longleftrightarrow> (\<exists>a. r = Ok a \<and> k a = Ok b)"
  by (cases r) auto

lemma map_err_simps [simp]:
  "map_err f (Err e) = Err (f e)" "map_err f (Ok a) = Ok a"
  by (simp_all add: map_err_def)

lemma map_err_eq_Ok [simp]: "map_err f r = Ok a \<longleftrightarrow> r = Ok a"
  by (cases r) auto

lemma ok_or_simps [simp]:
  "ok_or e None = Err e" "ok_or e (Some a) = Ok a"
  by (simp_all add: ok_or_def)

lemma ok_or_eq_Ok [simp]: "ok_or e x = Ok a \<longleftrightarrow> x = Some a"
  by (cases x) auto

lemma is_ok_iff: "is_ok r \<longleftrightarrow> (\<exists>a. r = Ok a)"
  by (cases r) auto

definition seq_bind ::
  "'s \<times> ('e, 'a) result \<Rightarrow> ('s \<Rightarrow> 'a \<Rightarrow> 's \<times> ('e, 'b) result) \<Rightarrow> 's \<times> ('e, 'b) result" where
  "seq_bind m k = (case m of (s, Err e) \<Rightarrow> (s, Err e) | (s, Ok a) \<Rightarrow> k s a)"

lemma seq_bind_simps [simp]:
  "seq_bind (s, Err e) k = (s, Err e)" "seq_bind (s, Ok a) k = k s a"
  by (simp_all add: seq_bind_def)

section \<open>Lists\<close>

lemma sorted_wrt_less_distinct: "sorted_wrt (<) (xs :: 'a :: linorder list) \<Longrightarrow> distinct xs"
  by (induction xs) auto

lemma sorted_wrt_filter: "sorted_wrt P xs \<Longrightarrow> sorted_wrt P (filter Q xs)"
  by (induction xs) auto

end
