(* ===== verification/Machine.thy ===== *)
theory Machine
  imports Prelude
begin

text \<open>
  State machines. Every stateful component of the program is a step function
  \<open>'s \<Rightarrow> 'e \<Rightarrow> 's \<times> 'o\<close> that takes a state and one operation and yields the state left
  behind and the observable output. This theory holds the runs of such machines and four
  contracts a component can offer, each a locale whose lemmas are proved once:
  an invariant kept by every admissible operation, an invariant kept by every operation,
  rejected operations that leave the state alone, and identifiers that are issued in
  strictly increasing order.
\<close>

fun run :: "('s \<Rightarrow> 'e \<Rightarrow> 's \<times> 'o) \<Rightarrow> 's \<Rightarrow> 'e list \<Rightarrow> 's \<times> 'o list" where
  "run step s [] = (s, [])"
| "run step s (e # es) =
     (let (s1, out) = step s e; (s2, outs) = run step s1 es in (s2, out # outs))"

inductive reachable :: "('s \<Rightarrow> 'e \<Rightarrow> 's \<times> 'o) \<Rightarrow> ('s \<Rightarrow> bool) \<Rightarrow> 's \<Rightarrow> bool"
  for step init where
  start: "init s \<Longrightarrow> reachable step init s"
| next_state: "reachable step init s \<Longrightarrow> reachable step init (fst (step s e))"

text \<open>The operations of a run that were not rejected, in order.\<close>

fun accepted :: "('s \<Rightarrow> 'e \<Rightarrow> 's \<times> 'o) \<Rightarrow> ('o \<Rightarrow> bool) \<Rightarrow> 's \<Rightarrow> 'e list \<Rightarrow> 'e list" where
  "accepted step rej s [] = []"
| "accepted step rej s (e # es) =
     (let (s1, out) = step s e; rest = accepted step rej s1 es
      in if rej out then rest else e # rest)"

text \<open>The identifiers that a run hands out, in order.\<close>

definition issues :: "('o \<Rightarrow> 'k option) \<Rightarrow> 'o list \<Rightarrow> 'k list" where
  "issues issued outs = List.map_filter issued outs"

lemma issues_simps [simp]:
  "issues f [] = []"
  "issues f (x # xs) = (case f x of None \<Rightarrow> issues f xs | Some k \<Rightarrow> k # issues f xs)"
  by (simp_all add: issues_def List.map_filter_def split: option.split)

lemma fst_run_Cons [simp]: "fst (run step s (e # es)) = fst (run step (fst (step s e)) es)"
  by (simp add: Let_def split: prod.split)

lemma snd_run_Cons [simp]:
  "snd (run step s (e # es)) = snd (step s e) # snd (run step (fst (step s e)) es)"
  by (simp add: Let_def split: prod.split)

lemma accepted_Cons [simp]:
  "accepted step rej s (e # es) =
     (if rej (snd (step s e)) then accepted step rej (fst (step s e)) es
      else e # accepted step rej (fst (step s e)) es)"
  by (simp add: Let_def split: prod.split)

declare run.simps(2) [simp del] accepted.simps(2) [simp del]

lemma snd_run_append: "snd (run step s (xs @ ys)) = snd (run step s xs) @ snd (run step (fst (run step s xs)) ys)"
  by (induction xs arbitrary: s) auto

lemma fst_run_append: "fst (run step s (xs @ ys)) = fst (run step (fst (run step s xs)) ys)"
  by (induction xs arbitrary: s) auto

lemma reachable_run: "reachable step init s \<Longrightarrow> reachable step init (fst (run step s es))"
  by (induction es arbitrary: s) (auto intro: reachable.next_state)

text \<open>A contract for operations that are admissible only.\<close>

locale guarded_machine =
  fixes step :: "'s \<Rightarrow> 'e \<Rightarrow> 's \<times> 'o"
    and inv :: "'s \<Rightarrow> bool"
    and admissible :: "'e \<Rightarrow> bool"
  assumes guarded_step: "inv s \<Longrightarrow> admissible e \<Longrightarrow> inv (fst (step s e))"
begin

lemma guarded_run: "inv s \<Longrightarrow> list_all admissible es \<Longrightarrow> inv (fst (run step s es))"
  by (induction es arbitrary: s) (auto intro: guarded_step)

end

locale invariant_machine =
  fixes step :: "'s \<Rightarrow> 'e \<Rightarrow> 's \<times> 'o"
    and init :: "'s \<Rightarrow> bool"
    and inv :: "'s \<Rightarrow> bool"
  assumes inv_init: "init s \<Longrightarrow> inv s"
    and inv_step: "inv s \<Longrightarrow> inv (fst (step s e))"
begin

lemma inv_run: "inv s \<Longrightarrow> inv (fst (run step s es))"
  by (induction es arbitrary: s) (auto intro: inv_step)

lemma inv_reachable: "reachable step init s \<Longrightarrow> inv s"
  by (induction rule: reachable.induct) (auto intro: inv_init inv_step)

end

sublocale invariant_machine \<subseteq> guarded_machine step inv "\<lambda>_. True"
  by unfold_locales (rule inv_step)

locale atomic_machine = invariant_machine step init inv
  for step :: "'s \<Rightarrow> 'e \<Rightarrow> 's \<times> 'o" and init inv +
  fixes rejected :: "'o \<Rightarrow> bool"
  assumes rejected_keeps: "inv s \<Longrightarrow> rejected (snd (step s e)) \<Longrightarrow> fst (step s e) = s"
begin

lemma run_accepted: "inv s \<Longrightarrow> fst (run step s (accepted step rejected s es)) = fst (run step s es)"
proof (induction es arbitrary: s)
  case Nil
  then show ?case by simp
next
  case (Cons e es)
  have "fst (run step (fst (step s e)) (accepted step rejected (fst (step s e)) es))
      = fst (run step (fst (step s e)) es)"
    by (rule Cons.IH) (rule inv_step [OF Cons.prems])
  with rejected_keeps [OF Cons.prems, of e] show ?case by auto
qed

end

locale issuing_machine = invariant_machine step init inv
  for step :: "'s \<Rightarrow> 'e \<Rightarrow> 's \<times> 'o" and init inv +
  fixes issued :: "'o \<Rightarrow> 'k :: linorder option"
    and mark :: "'s \<Rightarrow> 'k"
  assumes mark_mono: "inv s \<Longrightarrow> mark s \<le> mark (fst (step s e))"
    and issue_above: "inv s \<Longrightarrow> issued (snd (step s e)) = Some k
      \<Longrightarrow> mark s < k \<and> k \<le> mark (fst (step s e))"
begin

lemma mark_run: "inv s \<Longrightarrow> mark s \<le> mark (fst (run step s es))"
proof (induction es arbitrary: s)
  case (Cons e es)
  have "mark (fst (step s e)) \<le> mark (fst (run step (fst (step s e)) es))"
    by (rule Cons.IH) (rule inv_step [OF Cons.prems])
  with mark_mono [OF Cons.prems, of e] show ?case by simp
qed simp

lemma issues_above:
  "inv s \<Longrightarrow> k \<in> set (issues issued (snd (run step s es))) \<Longrightarrow> mark s < k"
proof (induction es arbitrary: s)
  case (Cons e es)
  have later: "mark s < k"
    if "k \<in> set (issues issued (snd (run step (fst (step s e)) es)))"
    using Cons.IH [OF inv_step [OF Cons.prems(1)] that] mark_mono [OF Cons.prems(1), of e]
    by (rule order.strict_trans1 [rotated])
  from Cons.prems show ?case
    by (auto split: option.splits dest: issue_above later)
qed simp

lemma issues_increasing: "inv s \<Longrightarrow> sorted_wrt (<) (issues issued (snd (run step s es)))"
proof (induction es arbitrary: s)
  case (Cons e es)
  let ?s1 = "fst (step s e)"
  have inv1: "inv ?s1" by (rule inv_step [OF Cons.prems])
  have IH: "sorted_wrt (<) (issues issued (snd (run step ?s1 es)))"
    by (rule Cons.IH [OF inv1])
  show ?case
  proof (cases "issued (snd (step s e))")
    case None
    with IH show ?thesis by simp
  next
    case (Some k)
    from issue_above [OF Cons.prems Some] have "k \<le> mark ?s1" by simp
    then have "\<forall>k' \<in> set (issues issued (snd (run step ?s1 es))). k < k'"
      using issues_above [OF inv1] by (meson order.strict_trans1)
    with IH Some show ?thesis by simp
  qed
qed simp

lemma issues_distinct: "inv s \<Longrightarrow> distinct (issues issued (snd (run step s es)))"
  by (rule sorted_wrt_less_distinct) (rule issues_increasing)

end

end
