(* ===== verification/Identity.thy ===== *)
theory Identity
  imports Prelude
begin

text \<open>
  Bounded values and typed identities of the supervision crate
  (\<open>crates/oxiroute-supervision/src/bounded.rs\<close> and \<open>identity.rs\<close>).

  A Rust \<open>str\<close> is a list of Unicode scalar values; its \<open>len()\<close> is the length of the
  UTF-8 encoding. The const parameter \<open>MAX\<close> of \<open>BoundedString\<close> and \<open>BoundedVec\<close> is an
  argument. Of serde the model takes only what the visitors are handed: a string, or a
  sequence with an optional size hint whose elements decode with a given function.
\<close>

section \<open>Strings\<close>

type_synonym uchar = nat
type_synonym str = "uchar list"

definition utf8_len :: "uchar \<Rightarrow> usize" where
  "utf8_len c = (if c < 0x80 then 1 else if c < 0x800 then 2 else if c < 0x10000 then 3 else 4)"

definition str_len :: "str \<Rightarrow> usize" where
  "str_len s = sum_list (map utf8_len s)"

definition ascii :: "string \<Rightarrow> str" where
  "ascii s = map of_char s"

section \<open>Bounded strings and vectors\<close>

datatype bound_error =
    StringTooLong usize usize
  | VectorTooLong usize usize

datatype bounded_string = BoundedString (bs_str: str)

definition bounded_string_validate :: "usize \<Rightarrow> str \<Rightarrow> (bound_error, unit) result" where
  "bounded_string_validate mx value =
     (if str_len value > mx then Err (StringTooLong (str_len value) mx) else Ok ())"

definition bounded_string_new :: "usize \<Rightarrow> str \<Rightarrow> (bound_error, bounded_string) result" where
  "bounded_string_new mx value =
     try_bind (bounded_string_validate mx value) (\<lambda>_. Ok (BoundedString value))"

datatype 'a bounded_vec = BoundedVec (bv_list: "'a list")

definition bounded_vec_validate_len :: "usize \<Rightarrow> usize \<Rightarrow> (bound_error, unit) result" where
  "bounded_vec_validate_len mx len =
     (if len > mx then Err (VectorTooLong len mx) else Ok ())"

definition bounded_vec_new :: "'a bounded_vec" where
  "bounded_vec_new = BoundedVec []"

definition bounded_vec_from_slice :: "usize \<Rightarrow> 'a list \<Rightarrow> (bound_error, 'a bounded_vec) result" where
  "bounded_vec_from_slice mx value =
     try_bind (bounded_vec_validate_len mx (length value)) (\<lambda>_. Ok (BoundedVec value))"

definition bounded_vec_push ::
  "usize \<Rightarrow> 'a bounded_vec \<Rightarrow> 'a \<Rightarrow> 'a bounded_vec \<times> (bound_error, unit) result" where
  "bounded_vec_push mx v value =
     (case bounded_vec_validate_len mx (usize_saturating_add (length (bv_list v)) 1) of
        Err e \<Rightarrow> (v, Err e)
      | Ok _ \<Rightarrow> (BoundedVec (bv_list v @ [value]), Ok ()))"

text \<open>
  \<open>visit_seq\<close>: the element loop reads at most \<open>MAX\<close> elements of the target type and then
  probes for one more, which is decoded as \<open>IgnoredAny\<close>. The input sequence is the list of
  raw elements not read yet; \<open>dec\<close> and \<open>ign\<close> decode one raw element, \<open>custom\<close> embeds a
  bound error into the deserializer's error type. The result carries the number of raw
  elements that were decoded into the target type.
\<close>

fun visit_seq_loop ::
  "usize \<Rightarrow> ('r \<Rightarrow> ('e, 'a) result) \<Rightarrow> 'a list \<Rightarrow> 'r list \<Rightarrow> ('e, 'a list \<times> 'r list option) result" where
  "visit_seq_loop mx dec vals [] =
     (if length vals < mx then Ok (vals, None) else Ok (vals, Some []))"
| "visit_seq_loop mx dec vals (r # rs) =
     (if length vals < mx
      then (case dec r of Err e \<Rightarrow> Err e | Ok v \<Rightarrow> visit_seq_loop mx dec (vals @ [v]) rs)
      else Ok (vals, Some (r # rs)))"

definition bounded_vec_visit_seq ::
  "usize \<Rightarrow> ('r \<Rightarrow> ('e, 'a) result) \<Rightarrow> ('r \<Rightarrow> ('e, unit) result) \<Rightarrow> (bound_error \<Rightarrow> 'e)
    \<Rightarrow> usize option \<Rightarrow> 'r list \<Rightarrow> ('e, 'a bounded_vec) result" where
  "bounded_vec_visit_seq mx dec ign custom hint raw =
     (let size_hint = (case hint of None \<Rightarrow> 0 | Some n \<Rightarrow> n) in
      if size_hint > mx then Err (custom (VectorTooLong size_hint mx))
      else try_bind (visit_seq_loop mx dec [] raw) (\<lambda>(vals, rest).
        case rest of
          None \<Rightarrow> Ok (BoundedVec vals)
        | Some [] \<Rightarrow> Ok (BoundedVec vals)
        | Some (r # _) \<Rightarrow>
            try_bind (ign r) (\<lambda>_. Err (custom (VectorTooLong (usize_saturating_add mx 1) mx)))))"

section \<open>Identifiers\<close>

definition MAX_IDENTIFIER_BYTES :: usize where
  "MAX_IDENTIFIER_BYTES = 128"

datatype identity_error =
    IdentityEmpty
  | InvalidCharacter uchar usize
  | IdentityBound bound_error

definition is_ascii_alphanumeric :: "uchar \<Rightarrow> bool" where
  "is_ascii_alphanumeric c \<longleftrightarrow> 48 \<le> c \<and> c \<le> 57 \<or> 65 \<le> c \<and> c \<le> 90 \<or> 97 \<le> c \<and> c \<le> 122"

text \<open>\<open>-\<close> is 45, \<open>_\<close> is 95 and \<open>.\<close> is 46.\<close>

definition identifier_char :: "uchar \<Rightarrow> bool" where
  "identifier_char c \<longleftrightarrow> is_ascii_alphanumeric c \<or> c = 45 \<or> c = 95 \<or> c = 46"

fun char_indices_from :: "usize \<Rightarrow> str \<Rightarrow> (usize \<times> uchar) list" where
  "char_indices_from i [] = []"
| "char_indices_from i (c # cs) = (i, c) # char_indices_from (i + utf8_len c) cs"

definition validate_identifier :: "str \<Rightarrow> (identity_error, unit) result" where
  "validate_identifier value =
     (if value = [] then Err IdentityEmpty
      else case find (\<lambda>(_, c). \<not> identifier_char c) (char_indices_from 0 value) of
             Some (index, c) \<Rightarrow> Err (InvalidCharacter c index)
           | None \<Rightarrow> Ok ())"

text \<open>The macro \<open>string_identity!\<close> instantiates one newtype twice.\<close>

datatype service_id = ServiceId (sid_str: bounded_string)
datatype instance_id = InstanceId (iid_str: bounded_string)

definition service_id_new :: "str \<Rightarrow> (identity_error, service_id) result" where
  "service_id_new value =
     try_bind (validate_identifier value) (\<lambda>_.
       try_bind (map_err IdentityBound (bounded_string_new MAX_IDENTIFIER_BYTES value)) (\<lambda>s.
         Ok (ServiceId s)))"

definition instance_id_new :: "str \<Rightarrow> (identity_error, instance_id) result" where
  "instance_id_new value =
     try_bind (validate_identifier value) (\<lambda>_.
       try_bind (map_err IdentityBound (bounded_string_new MAX_IDENTIFIER_BYTES value)) (\<lambda>s.
         Ok (InstanceId s)))"

text \<open>
  \<open>Deserialize\<close> bounds the string first (in the visitor of \<open>BoundedString\<close>) and validates the
  characters after that.
\<close>

definition instance_id_deserialize :: "(identity_error \<Rightarrow> 'e) \<Rightarrow> (bound_error \<Rightarrow> 'e) \<Rightarrow> str
    \<Rightarrow> ('e, instance_id) result" where
  "instance_id_deserialize custom custom_bound value =
     try_bind (map_err custom_bound (bounded_string_new MAX_IDENTIFIER_BYTES value)) (\<lambda>s.
       try_bind (map_err custom (validate_identifier (bs_str s))) (\<lambda>_. Ok (InstanceId s)))"

type_synonym generation_id = u64
type_synonym request_id = u64
type_synonym epoch = u64
type_synonym sequence = u64
type_synonym revision = u64

section \<open>Lemmas\<close>

lemma bounded_string_new_Ok [simp]:
  "bounded_string_new mx value = Ok b \<longleftrightarrow> str_len value \<le> mx \<and> b = BoundedString value"
  by (auto simp: bounded_string_new_def bounded_string_validate_def)

lemma bounded_vec_from_slice_Ok [simp]:
  "bounded_vec_from_slice mx xs = Ok v \<longleftrightarrow> length xs \<le> mx \<and> v = BoundedVec xs"
  by (auto simp: bounded_vec_from_slice_def bounded_vec_validate_len_def)

lemma bounded_vec_push_bound:
  "length (bv_list v) \<le> mx \<Longrightarrow> mx < usize_max \<Longrightarrow> length (bv_list (fst (bounded_vec_push mx v x))) \<le> mx"
  by (auto simp: bounded_vec_push_def bounded_vec_validate_len_def usize_saturating_add_def)

lemma find_char_indices:
  "find (\<lambda>(_, c). \<not> P c) (char_indices_from i s) = None \<longleftrightarrow> list_all P s"
  by (induction s arbitrary: i) auto

lemma validate_identifier_Ok:
  "validate_identifier value = Ok () \<longleftrightarrow> value \<noteq> [] \<and> list_all identifier_char value"
  using find_char_indices [of identifier_char 0 "value"]
  by (auto simp: validate_identifier_def split: option.splits)

lemma identifier_char_ascii: "identifier_char c \<Longrightarrow> utf8_len c = 1"
  by (auto simp: identifier_char_def is_ascii_alphanumeric_def utf8_len_def)

lemma identifier_str_len: "list_all identifier_char s \<Longrightarrow> str_len s = length s"
  by (induction s) (auto simp: str_len_def identifier_char_ascii)

lemma visit_seq_loop_Ok:
  "length vals \<le> mx \<Longrightarrow> visit_seq_loop mx dec vals raw = Ok (vs, rest) \<longleftrightarrow>
     (\<exists>ws. vs = vals @ ws \<and> map dec (take (mx - length vals) raw) = map Ok ws \<and>
        rest = (if length raw < mx - length vals then None else Some (drop (mx - length vals) raw)))"
proof (induction raw arbitrary: vals)
  case Nil
  then show ?case by auto
next
  case (Cons r rs)
  show ?case
  proof (cases "length vals < mx")
    case False
    with Cons.prems show ?thesis by auto
  next
    case True
    then have n: "mx - length vals = Suc (mx - length (vals @ [v]))" for v by simp
    show ?thesis
    proof (cases "dec r")
      case (Inl e)
      obtain k where "mx - length vals = Suc k" using True by (metis Suc_diff_Suc)
      with Inl True show ?thesis by (auto simp: Cons_eq_map_conv)
    next
      case (Inr v)
      have "length (vals @ [v]) \<le> mx" using True by simp
      from Cons.IH [OF this] Inr True show ?thesis
        unfolding n [of v] by (auto simp: Cons_eq_map_conv simp del: length_append)
    qed
  qed
qed

lemma bounded_vec_visit_seq_Ok:
  "bounded_vec_visit_seq mx dec ign custom hint raw = Ok v \<longleftrightarrow>
     (case hint of None \<Rightarrow> True | Some n \<Rightarrow> n \<le> mx) \<and> length raw \<le> mx \<and>
     map dec raw = map Ok (bv_list v)"
proof -
  have "bounded_vec_visit_seq mx dec ign custom hint raw = Ok v \<longleftrightarrow>
     (case hint of None \<Rightarrow> True | Some n \<Rightarrow> n \<le> mx) \<and>
     (\<exists>rest. visit_seq_loop mx dec [] raw = Ok (bv_list v, rest) \<and> (rest = None \<or> rest = Some []))"
  proof (cases "visit_seq_loop mx dec [] raw")
    case (Inl e)
    then show ?thesis by (auto simp: bounded_vec_visit_seq_def Let_def)
  next
    case (Inr p)
    obtain vs rest where p: "p = (vs, rest)" by (cases p)
    show ?thesis
      by (cases v, cases rest)
        (auto simp: bounded_vec_visit_seq_def Let_def Inr p split: option.splits list.splits)
  qed
  then show ?thesis
    by (auto simp: visit_seq_loop_Ok)
qed

end
