(* ===== verification/Replacement.thy ===== *)
theory Replacement
  imports Machine Identity
begin

text \<open>
  The replacement state machine of the supervision crate
  (\<open>crates/oxiroute-supervision/src/lifecycle.rs\<close> and \<open>replacement.rs\<close>): the lifecycle
  of one service instance, and the pure supervisor that replaces the active instance of a
  service by a newer one. Every method on \<open>&mut self\<close> yields the supervisor it leaves
  behind together with its result, so an early return after a partial update is visible.
\<close>

section \<open>Lifecycle of one instance\<close>

datatype lifecycle =
    Spawned | Handshaking | Preparing | Ready | Activating | Active | Quiescing
  | Reactivating | Draining | Snapshotting | Stopping | Stopped | Failed

definition can_transition_to :: "lifecycle \<Rightarrow> lifecycle \<Rightarrow> bool" where
  "can_transition_to self next \<longleftrightarrow>
     self = Spawned \<and> next = Handshaking
   \<or> self = Handshaking \<and> next = Preparing
   \<or> self = Preparing \<and> next = Ready
   \<or> self = Ready \<and> next = Activating
   \<or> self \<in> {Activating, Reactivating} \<and> next = Active
   \<or> self = Active \<and> next = Quiescing
   \<or> self = Quiescing \<and> next \<in> {Reactivating, Draining}
   \<or> self = Draining \<and> next = Snapshotting
   \<or> self \<in> {Snapshotting, Failed, Spawned, Handshaking, Preparing, Ready, Activating, Active,
        Quiescing, Reactivating} \<and> next = Stopping
   \<or> self = Stopping \<and> next = Stopped
   \<or> self \<in> {Spawned, Handshaking, Preparing, Ready, Activating, Active, Quiescing, Reactivating,
        Draining, Snapshotting, Stopping} \<and> next = Failed"

datatype transition_error = TransitionError (te_from: lifecycle) (te_to: lifecycle)

definition lifecycle_transition :: "lifecycle \<Rightarrow> lifecycle \<Rightarrow> (transition_error, lifecycle) result" where
  "lifecycle_transition self next =
     (if can_transition_to self next then Ok next else Err (TransitionError self next))"

definition is_terminal :: "lifecycle \<Rightarrow> bool" where
  "is_terminal self \<longleftrightarrow> self = Stopped"

section \<open>Supervisor state\<close>

record service_instance =
  inst_id :: instance_id
  inst_generation :: generation_id
  inst_lifecycle :: lifecycle

definition inst_transition ::
  "service_instance \<Rightarrow> lifecycle \<Rightarrow> (transition_error, service_instance) result" where
  "inst_transition i next =
     try_bind (lifecycle_transition (inst_lifecycle i) next) (\<lambda>l. Ok (i\<lparr>inst_lifecycle := l\<rparr>))"

datatype replacement_event =
    Begin service_instance
  | CandidateSpawned instance_id
  | CandidateHandshakeComplete instance_id
  | CandidatePrepared instance_id
  | CandidateActivated instance_id
  | CandidateFailed instance_id
  | CandidateStopped instance_id
  | ActiveQuiesced instance_id
  | ActiveReactivated instance_id
  | RetiredDrained instance_id
  | RetiredSnapshotCaptured instance_id
  | RetiredFailed instance_id
  | RetiredStopped instance_id
  | TerminationTimedOut instance_id

datatype replacement_phase =
    Running | AdoptingCandidate | PhaseQuiescing | ActivatingCandidate | RollingBack
  | DrainingRetired | StoppingRetired

datatype replacement_action =
    Spawn service_instance
  | Prepare instance_id
  | Activate instance_id
  | Quiesce instance_id
  | Drain instance_id
  | Snapshot instance_id
  | Terminate instance_id
  | Kill instance_id

datatype replacement_error =
    ReplacementInProgress
  | MissingRole string
  | UnexpectedLifecycle string lifecycle lifecycle
  | DuplicateInstanceId
  | UnexpectedInstanceId string instance_id instance_id
  | StaleGeneration generation_id generation_id
  | NotStopping instance_id
  | Transition transition_error

record supervisor =
  sup_active :: service_instance
  sup_candidate :: "service_instance option"
  sup_retired :: "service_instance option"

type_synonym 'a sup_result = "supervisor \<times> (replacement_error, 'a) result"

definition supervisor_new :: "service_instance \<Rightarrow> (replacement_error, supervisor) result" where
  "supervisor_new active =
     (if inst_lifecycle active \<noteq> Active
      then Err (UnexpectedLifecycle ''active'' Active (inst_lifecycle active))
      else Ok \<lparr>sup_active = active, sup_candidate = None, sup_retired = None\<rparr>)"

text \<open>\<open>phase\<close>; \<open>None\<close> stands for the two \<open>unreachable!\<close> panics.\<close>

definition phase :: "supervisor \<Rightarrow> replacement_phase option" where
  "phase s =
     (case sup_retired s of
        Some r \<Rightarrow> (case inst_lifecycle r of
            Draining \<Rightarrow> Some DrainingRetired
          | Snapshotting \<Rightarrow> Some DrainingRetired
          | Stopping \<Rightarrow> Some StoppingRetired
          | _ \<Rightarrow> None)
      | None \<Rightarrow> (case sup_candidate s of
            Some c \<Rightarrow> (case inst_lifecycle c of
                Spawned \<Rightarrow> Some AdoptingCandidate
              | Handshaking \<Rightarrow> Some AdoptingCandidate
              | Preparing \<Rightarrow> Some AdoptingCandidate
              | Ready \<Rightarrow> Some PhaseQuiescing
              | Activating \<Rightarrow> Some ActivatingCandidate
              | Stopping \<Rightarrow> Some RollingBack
              | _ \<Rightarrow> None)
          | None \<Rightarrow> if inst_lifecycle (sup_active s) = Reactivating then Some RollingBack
                   else Some Running))"

section \<open>Role access\<close>

definition expect_lifecycle ::
  "service_instance \<Rightarrow> string \<Rightarrow> lifecycle \<Rightarrow> (replacement_error, unit) result" where
  "expect_lifecycle i role expected =
     (if inst_lifecycle i \<noteq> expected then Err (UnexpectedLifecycle role expected (inst_lifecycle i))
      else Ok ())"

definition expect_instance_id ::
  "service_instance \<Rightarrow> string \<Rightarrow> instance_id \<Rightarrow> (replacement_error, unit) result" where
  "expect_instance_id i role actual =
     (if inst_id i \<noteq> actual then Err (UnexpectedInstanceId role (inst_id i) actual) else Ok ())"

definition candidate_mut :: "supervisor \<Rightarrow> lifecycle \<Rightarrow> (replacement_error, service_instance) result" where
  "candidate_mut s expected =
     try_bind (ok_or (MissingRole ''candidate'') (sup_candidate s)) (\<lambda>c.
       try_bind (expect_lifecycle c ''candidate'' expected) (\<lambda>_. Ok c))"

definition retired_mut :: "supervisor \<Rightarrow> lifecycle \<Rightarrow> (replacement_error, service_instance) result" where
  "retired_mut s expected =
     try_bind (ok_or (MissingRole ''retired'') (sup_retired s)) (\<lambda>r.
       try_bind (expect_lifecycle r ''retired'' expected) (\<lambda>_. Ok r))"

definition expect_candidate_id :: "supervisor \<Rightarrow> instance_id \<Rightarrow> (replacement_error, unit) result" where
  "expect_candidate_id s actual =
     try_bind (ok_or (MissingRole ''candidate'') (sup_candidate s)) (\<lambda>c.
       expect_instance_id c ''candidate'' actual)"

definition expect_active_id :: "supervisor \<Rightarrow> instance_id \<Rightarrow> (replacement_error, unit) result" where
  "expect_active_id s actual = expect_instance_id (sup_active s) ''active'' actual"

definition expect_retired_id :: "supervisor \<Rightarrow> instance_id \<Rightarrow> (replacement_error, unit) result" where
  "expect_retired_id s actual =
     try_bind (ok_or (MissingRole ''retired'') (sup_retired s)) (\<lambda>r.
       expect_instance_id r ''retired'' actual)"

definition ensure_stopping :: "supervisor \<Rightarrow> instance_id \<Rightarrow> (replacement_error, unit) result" where
  "ensure_stopping s i =
     (if list_ex (\<lambda>x. inst_id x = i \<and> inst_lifecycle x = Stopping)
           (case_option [] (\<lambda>c. [c]) (sup_candidate s) @ case_option [] (\<lambda>r. [r]) (sup_retired s))
      then Ok () else Err (NotStopping i))"

text \<open>\<open>Instance::transition\<close> through a mutable borrow of a role that is known to be filled.\<close>

definition set_candidate_lifecycle :: "supervisor \<Rightarrow> service_instance \<Rightarrow> lifecycle \<Rightarrow> service_instance sup_result" where
  "set_candidate_lifecycle s c next =
     (case inst_transition c next of
        Err e \<Rightarrow> (s, Err (Transition e))
      | Ok c' \<Rightarrow> (s\<lparr>sup_candidate := Some c'\<rparr>, Ok c'))"

definition set_retired_lifecycle :: "supervisor \<Rightarrow> service_instance \<Rightarrow> lifecycle \<Rightarrow> service_instance sup_result" where
  "set_retired_lifecycle s r next =
     (case inst_transition r next of
        Err e \<Rightarrow> (s, Err (Transition e))
      | Ok r' \<Rightarrow> (s\<lparr>sup_retired := Some r'\<rparr>, Ok r'))"

definition set_active_lifecycle :: "supervisor \<Rightarrow> lifecycle \<Rightarrow> service_instance sup_result" where
  "set_active_lifecycle s next =
     (case inst_transition (sup_active s) next of
        Err e \<Rightarrow> (s, Err (Transition e))
      | Ok a \<Rightarrow> (s\<lparr>sup_active := a\<rparr>, Ok a))"

section \<open>Events\<close>

definition begin_replacement :: "supervisor \<Rightarrow> service_instance \<Rightarrow> replacement_action list sup_result" where
  "begin_replacement s candidate =
     (if sup_candidate s \<noteq> None \<or> sup_retired s \<noteq> None then (s, Err ReplacementInProgress)
      else if inst_lifecycle (sup_active s) \<noteq> Active then (s, Err ReplacementInProgress)
      else if inst_lifecycle candidate \<noteq> Spawned
        then (s, Err (UnexpectedLifecycle ''candidate'' Spawned (inst_lifecycle candidate)))
      else if inst_id candidate = inst_id (sup_active s) then (s, Err DuplicateInstanceId)
      else if inst_generation candidate \<le> inst_generation (sup_active s)
        then (s, Err (StaleGeneration (inst_generation (sup_active s)) (inst_generation candidate)))
      else (s\<lparr>sup_candidate := Some candidate\<rparr>, Ok [Spawn candidate]))"

text \<open>
  \<open>activate_candidate\<close> takes the candidate out of its role before it checks the lifecycle
  and puts it back on that error only.
\<close>

definition activate_candidate :: "supervisor \<Rightarrow> replacement_action list sup_result" where
  "activate_candidate s =
     (case sup_candidate s of
        None \<Rightarrow> (s, Err (MissingRole ''candidate''))
      | Some c \<Rightarrow>
          if inst_lifecycle c \<noteq> Activating
          then (s, Err (UnexpectedLifecycle ''candidate'' Activating (inst_lifecycle c)))
          else
            let taken = s\<lparr>sup_candidate := None\<rparr> in
            (case inst_transition c Active of
               Err e \<Rightarrow> (taken, Err (Transition e))
             | Ok c' \<Rightarrow>
                 let replaced = taken\<lparr>sup_active := c'\<rparr> in
                 (case inst_transition (sup_active s) Draining of
                    Err e \<Rightarrow> (replaced, Err (Transition e))
                  | Ok r \<Rightarrow> (replaced\<lparr>sup_retired := Some r\<rparr>, Ok [Drain (inst_id r)]))))"

definition fail_candidate :: "supervisor \<Rightarrow> replacement_action list sup_result" where
  "fail_candidate s =
     (case sup_candidate s of
        None \<Rightarrow> (s, Err (MissingRole ''candidate''))
      | Some c \<Rightarrow>
          seq_bind (set_candidate_lifecycle s c Failed) (\<lambda>s1 c1.
          seq_bind (set_candidate_lifecycle s1 c1 Stopping) (\<lambda>s2 c2.
            if inst_lifecycle (sup_active s2) = Quiescing
            then seq_bind (set_active_lifecycle s2 Reactivating) (\<lambda>s3 a.
              (s3, Ok [Activate (inst_id a), Terminate (inst_id c2)]))
            else (s2, Ok [Terminate (inst_id c2)]))))"

definition transition_candidate :: "supervisor \<Rightarrow> lifecycle \<Rightarrow> lifecycle \<Rightarrow> instance_id sup_result" where
  "transition_candidate s expected next =
     seq_bind (s, candidate_mut s expected) (\<lambda>s c.
       seq_bind (set_candidate_lifecycle s c next) (\<lambda>s c'. (s, Ok (inst_id c'))))"

definition transition_retired :: "supervisor \<Rightarrow> lifecycle \<Rightarrow> lifecycle \<Rightarrow> instance_id sup_result" where
  "transition_retired s expected next =
     seq_bind (s, retired_mut s expected) (\<lambda>s r.
       seq_bind (set_retired_lifecycle s r next) (\<lambda>s r'. (s, Ok (inst_id r'))))"

fun apply_event :: "supervisor \<Rightarrow> replacement_event \<Rightarrow> replacement_action list sup_result" where
  "apply_event s (Begin candidate) = begin_replacement s candidate"
| "apply_event s (CandidateSpawned i) =
     seq_bind (s, expect_candidate_id s i) (\<lambda>s _.
       seq_bind (transition_candidate s Spawned Handshaking) (\<lambda>s _. (s, Ok [])))"
| "apply_event s (CandidateHandshakeComplete i) =
     seq_bind (s, expect_candidate_id s i) (\<lambda>s _.
       seq_bind (transition_candidate s Handshaking Preparing) (\<lambda>s i'. (s, Ok [Prepare i'])))"
| "apply_event s (CandidatePrepared i) =
     seq_bind (s, expect_candidate_id s i) (\<lambda>s _.
     seq_bind (s, candidate_mut s Preparing) (\<lambda>s c.
     seq_bind (set_candidate_lifecycle s c Ready) (\<lambda>s _.
     seq_bind (set_active_lifecycle s Quiescing) (\<lambda>s a. (s, Ok [Quiesce (inst_id a)])))))"
| "apply_event s (CandidateActivated i) =
     seq_bind (s, expect_candidate_id s i) (\<lambda>s _. activate_candidate s)"
| "apply_event s (CandidateFailed i) =
     seq_bind (s, expect_candidate_id s i) (\<lambda>s _. fail_candidate s)"
| "apply_event s (CandidateStopped i) =
     seq_bind (s, expect_candidate_id s i) (\<lambda>s _.
     seq_bind (s, candidate_mut s Stopping) (\<lambda>s c.
     seq_bind (set_candidate_lifecycle s c Stopped) (\<lambda>s _.
       (s\<lparr>sup_candidate := None\<rparr>, Ok []))))"
| "apply_event s (ActiveQuiesced i) =
     seq_bind (s, expect_active_id s i) (\<lambda>s _.
     seq_bind (s, expect_lifecycle (sup_active s) ''active'' Quiescing) (\<lambda>s _.
     seq_bind (s, candidate_mut s Ready) (\<lambda>s c.
     seq_bind (set_candidate_lifecycle s c Activating) (\<lambda>s c'. (s, Ok [Activate (inst_id c')])))))"
| "apply_event s (ActiveReactivated i) =
     seq_bind (s, expect_active_id s i) (\<lambda>s _.
     seq_bind (set_active_lifecycle s Active) (\<lambda>s _. (s, Ok [])))"
| "apply_event s (RetiredDrained i) =
     seq_bind (s, expect_retired_id s i) (\<lambda>s _.
     seq_bind (s, retired_mut s Draining) (\<lambda>s r.
     seq_bind (set_retired_lifecycle s r Snapshotting) (\<lambda>s r'. (s, Ok [Snapshot (inst_id r')]))))"
| "apply_event s (RetiredSnapshotCaptured i) =
     seq_bind (s, expect_retired_id s i) (\<lambda>s _.
     seq_bind (transition_retired s Snapshotting Stopping) (\<lambda>s i'. (s, Ok [Terminate i'])))"
| "apply_event s (RetiredFailed i) =
     seq_bind (s, expect_retired_id s i) (\<lambda>s _.
     seq_bind (s, ok_or (MissingRole ''retired'') (sup_retired s)) (\<lambda>s r.
     seq_bind (set_retired_lifecycle s r Failed) (\<lambda>s r1.
     seq_bind (set_retired_lifecycle s r1 Stopping) (\<lambda>s _. (s, Ok [Kill i])))))"
| "apply_event s (RetiredStopped i) =
     seq_bind (s, expect_retired_id s i) (\<lambda>s _.
     seq_bind (s, retired_mut s Stopping) (\<lambda>s r.
     seq_bind (set_retired_lifecycle s r Stopped) (\<lambda>s _.
       (s\<lparr>sup_retired := None\<rparr>, Ok []))))"
| "apply_event s (TerminationTimedOut i) =
     seq_bind (s, ensure_stopping s i) (\<lambda>s _. (s, Ok [Kill i]))"

definition supervisor_init :: "supervisor \<Rightarrow> bool" where
  "supervisor_init s \<longleftrightarrow> supervisor_new (sup_active s) = Ok s"

section \<open>Specification\<close>

text \<open>
  What the roles look like between two events: at most one of candidate and retired is
  filled, identities differ, generations order the roles, and the lifecycles of the roles
  agree with each other.
\<close>

definition supervisor_inv :: "supervisor \<Rightarrow> bool" where
  "supervisor_inv s \<longleftrightarrow>
     (case sup_retired s of
        Some r \<Rightarrow> sup_candidate s = None \<and> inst_lifecycle (sup_active s) = Active
          \<and> inst_lifecycle r \<in> {Draining, Snapshotting, Stopping}
          \<and> inst_id r \<noteq> inst_id (sup_active s)
          \<and> inst_generation r < inst_generation (sup_active s)
      | None \<Rightarrow> (case sup_candidate s of
            None \<Rightarrow> inst_lifecycle (sup_active s) \<in> {Active, Reactivating}
          | Some c \<Rightarrow> inst_id c \<noteq> inst_id (sup_active s)
              \<and> inst_generation (sup_active s) < inst_generation c
              \<and> (inst_lifecycle c \<in> {Spawned, Handshaking, Preparing}
                   \<and> inst_lifecycle (sup_active s) = Active
                 \<or> inst_lifecycle c \<in> {Ready, Activating}
                   \<and> inst_lifecycle (sup_active s) = Quiescing
                 \<or> inst_lifecycle c = Stopping
                   \<and> inst_lifecycle (sup_active s) \<in> {Active, Reactivating})))"

text \<open>
  The abstract machine: which instance serves, and the phase of the replacement. The serving
  instance changes in one step only, and only to a newer generation.
\<close>

type_synonym serving = "instance_id \<times> generation_id"

definition serving :: "supervisor \<Rightarrow> serving" where
  "serving s = (inst_id (sup_active s), inst_generation (sup_active s))"

inductive spec_step :: "serving \<times> replacement_phase \<Rightarrow> serving \<times> replacement_phase \<Rightarrow> bool" where
  spec_begin: "spec_step (v, Running) (v, AdoptingCandidate)"
| spec_adopt: "spec_step (v, AdoptingCandidate) (v, AdoptingCandidate)"
| spec_prepared: "spec_step (v, AdoptingCandidate) (v, PhaseQuiescing)"
| spec_quiesced: "spec_step (v, PhaseQuiescing) (v, ActivatingCandidate)"
| spec_commit: "snd v < snd v' \<Longrightarrow> fst v \<noteq> fst v' \<Longrightarrow>
    spec_step (v, ActivatingCandidate) (v', DrainingRetired)"
| spec_fail: "p \<in> {AdoptingCandidate, PhaseQuiescing, ActivatingCandidate, RollingBack} \<Longrightarrow>
    spec_step (v, p) (v, RollingBack)"
| spec_rolled_back: "spec_step (v, RollingBack) (v, Running)"
| spec_drained: "spec_step (v, DrainingRetired) (v, DrainingRetired)"
| spec_stopping: "p \<in> {DrainingRetired, StoppingRetired} \<Longrightarrow> spec_step (v, p) (v, StoppingRetired)"
| spec_done: "spec_step (v, StoppingRetired) (v, Running)"

text \<open>Distance to \<open>Running\<close> along the events of a replacement that meets no further failure.\<close>

definition replacement_rank :: "supervisor \<Rightarrow> nat" where
  "replacement_rank s =
     (case sup_retired s of
        Some r \<Rightarrow> (case inst_lifecycle r of Draining \<Rightarrow> 3 | Snapshotting \<Rightarrow> 2 | _ \<Rightarrow> 1)
      | None \<Rightarrow> (case sup_candidate s of
            Some c \<Rightarrow> (case inst_lifecycle c of
                Spawned \<Rightarrow> 8 | Handshaking \<Rightarrow> 7 | Preparing \<Rightarrow> 6 | Ready \<Rightarrow> 5 | Activating \<Rightarrow> 4
              | _ \<Rightarrow> 1 + of_bool (inst_lifecycle (sup_active s) = Reactivating))
          | None \<Rightarrow> of_bool (inst_lifecycle (sup_active s) = Reactivating)))"

definition awaited_event :: "supervisor \<Rightarrow> replacement_event" where
  "awaited_event s =
     (case sup_retired s of
        Some r \<Rightarrow> (case inst_lifecycle r of
            Draining \<Rightarrow> RetiredDrained (inst_id r)
          | Snapshotting \<Rightarrow> RetiredSnapshotCaptured (inst_id r)
          | _ \<Rightarrow> RetiredStopped (inst_id r))
      | None \<Rightarrow> (case sup_candidate s of
            Some c \<Rightarrow> (case inst_lifecycle c of
                Spawned \<Rightarrow> CandidateSpawned (inst_id c)
              | Handshaking \<Rightarrow> CandidateHandshakeComplete (inst_id c)
              | Preparing \<Rightarrow> CandidatePrepared (inst_id c)
              | Ready \<Rightarrow> ActiveQuiesced (inst_id (sup_active s))
              | Activating \<Rightarrow> CandidateActivated (inst_id c)
              | _ \<Rightarrow> CandidateStopped (inst_id c))
          | None \<Rightarrow> ActiveReactivated (inst_id (sup_active s))))"

section \<open>Role lemmas\<close>

named_theorems sup_defs \<open>operations of the supervisor\<close>

lemmas [sup_defs] = expect_lifecycle_def expect_instance_id_def candidate_mut_def retired_mut_def
  expect_candidate_id_def expect_active_id_def expect_retired_id_def ensure_stopping_def
  set_candidate_lifecycle_def set_retired_lifecycle_def set_active_lifecycle_def
  begin_replacement_def activate_candidate_def fail_candidate_def transition_candidate_def
  transition_retired_def inst_transition_def lifecycle_transition_def can_transition_to_def

text \<open>
  The possible shapes of a supervisor that satisfies the invariant, with the lifecycles of
  its roles; every proof about \<open>apply_event\<close> below is a split over these shapes.
\<close>

lemma supervisor_shapes:
  assumes "supervisor_inv s"
  obtains r l where "sup_retired s = Some r" "sup_candidate s = None"
      "l \<in> {Draining, Snapshotting, Stopping}"
      "inst_lifecycle (sup_active s) = Active" "inst_lifecycle r = l"
      "inst_id r \<noteq> inst_id (sup_active s)" "inst_generation r < inst_generation (sup_active s)"
  | l where "sup_retired s = None" "sup_candidate s = None" "l \<in> {Active, Reactivating}"
      "inst_lifecycle (sup_active s) = l"
  | c l k where "sup_retired s = None" "sup_candidate s = Some c"
      "(l, k) \<in> {(Spawned, Active), (Handshaking, Active), (Preparing, Active), (Ready, Quiescing),
         (Activating, Quiescing), (Stopping, Active), (Stopping, Reactivating)}"
      "inst_lifecycle c = l" "inst_lifecycle (sup_active s) = k"
      "inst_id c \<noteq> inst_id (sup_active s)" "inst_generation (sup_active s) < inst_generation c"
  using assms by (auto simp: supervisor_inv_def split: option.splits)

lemma supervisor_init_inv: "supervisor_init s \<Longrightarrow> supervisor_inv s"
  by (cases s) (auto simp: supervisor_init_def supervisor_new_def supervisor_inv_def split: if_splits)

lemma supervisor_inv_step: "supervisor_inv s \<Longrightarrow> supervisor_inv (fst (apply_event s e))"
  by (cases e; erule supervisor_shapes; elim insertE emptyE)
    (auto simp: sup_defs supervisor_inv_def)

lemma apply_event_atomic:
  "supervisor_inv s \<Longrightarrow> is_err (snd (apply_event s e)) \<Longrightarrow> fst (apply_event s e) = s"
  by (cases e; erule supervisor_shapes; elim insertE emptyE)
    (simp_all add: sup_defs split: if_splits)

interpretation sup: atomic_machine apply_event supervisor_init supervisor_inv is_err
  by unfold_locales (simp_all add: supervisor_init_inv supervisor_inv_step apply_event_atomic)

lemma phase_defined: "supervisor_inv s \<Longrightarrow> phase s \<noteq> None"
  by (erule supervisor_shapes; elim insertE emptyE) (simp_all add: phase_def)

inductive_simps spec_step_iff: "spec_step (v, p) (v', p')"

lemma apply_event_refines:
  "supervisor_inv s \<Longrightarrow> is_ok (snd (apply_event s e)) \<Longrightarrow>
     spec_step (serving s, the (phase s))
       (serving (fst (apply_event s e)), the (phase (fst (apply_event s e))))
     \<or> (serving (fst (apply_event s e)), phase (fst (apply_event s e))) = (serving s, phase s)"
  by (cases e; erule supervisor_shapes; elim insertE emptyE)
    (simp_all add: sup_defs phase_def serving_def spec_step_iff split: if_splits)

lemma spec_step_serving:
  "spec_step (v, p) (v', p') \<Longrightarrow> v' \<noteq> v \<Longrightarrow> snd v < snd v' \<and> p = ActivatingCandidate"
  by (auto elim: spec_step.cases)

text \<open>The generation that serves never decreases over a run.\<close>

lemma serving_generation_step:
  assumes "supervisor_inv s"
  shows "inst_generation (sup_active s) \<le> inst_generation (sup_active (fst (apply_event s e)))"
proof (cases "is_ok (snd (apply_event s e))")
  case False
  then show ?thesis using apply_event_atomic [OF assms, of e] by simp
next
  case True
  from apply_event_refines [OF assms True] show ?thesis
    by (auto simp: serving_def dest!: spec_step_serving)
qed

text \<open>The event a replacement waits for is accepted and brings it closer to \<open>Running\<close>.\<close>

lemma awaited_event_progress:
  "supervisor_inv s \<Longrightarrow> phase s \<noteq> Some Running \<Longrightarrow>
     is_ok (snd (apply_event s (awaited_event s)))
     \<and> replacement_rank (fst (apply_event s (awaited_event s))) < replacement_rank s"
  by (erule supervisor_shapes; elim insertE emptyE)
    (simp_all add: sup_defs awaited_event_def replacement_rank_def phase_def)

lemma replacement_completes:
  assumes "supervisor_inv s"
  shows "\<exists>es. length es \<le> replacement_rank s \<and> list_all is_ok (snd (run apply_event s es))
    \<and> phase (fst (run apply_event s es)) = Some Running"
  using assms
proof (induction "replacement_rank s" arbitrary: s rule: less_induct)
  case less
  show ?case
  proof (cases "phase s = Some Running")
    case True
    then show ?thesis by (intro exI [of _ "[]"]) simp
  next
    case False
    let ?e = "awaited_event s" let ?t = "fst (apply_event s ?e)"
    from awaited_event_progress [OF less.prems False]
    have ok: "is_ok (snd (apply_event s ?e))" and rank: "replacement_rank ?t < replacement_rank s"
      by simp_all
    from less.hyps [OF rank supervisor_inv_step [OF less.prems]]
    obtain es where "length es \<le> replacement_rank ?t" "list_all is_ok (snd (run apply_event ?t es))"
      "phase (fst (run apply_event ?t es)) = Some Running"
      by blast
    with ok rank show ?thesis by (intro exI [of _ "?e # es"]) simp
  qed
qed

lemma replacement_rank_le: "supervisor_inv s \<Longrightarrow> replacement_rank s \<le> 8"
  by (erule supervisor_shapes; elim insertE emptyE) (simp_all add: replacement_rank_def)

section \<open>Retirement order\<close>

text \<open>Actions an event asks for; a rejected event asks for none.\<close>

fun actions_of :: "(replacement_error, replacement_action list) result \<Rightarrow> replacement_action list" where
  "actions_of (Ok acts) = acts"
| "actions_of (Err _) = []"

definition draining :: "supervisor \<Rightarrow> instance_id \<Rightarrow> nat" where
  "draining s i = (case sup_retired s of
     Some r \<Rightarrow> of_bool (inst_id r = i \<and> inst_lifecycle r = Draining) | None \<Rightarrow> 0)"

lemma snapshot_answers_drain_step:
  "supervisor_inv s \<Longrightarrow>
     count_list (actions_of (snd (apply_event s e))) (Snapshot i) + draining (fst (apply_event s e)) i
     \<le> count_list (actions_of (snd (apply_event s e))) (Drain i) + draining s i"
  by (cases e; erule supervisor_shapes; elim insertE emptyE)
    (simp_all add: sup_defs draining_def)

lemma snapshot_answers_drain_run:
  assumes "supervisor_inv s"
  shows "count_list (concat (map actions_of (snd (run apply_event s es)))) (Snapshot i)
      + draining (fst (run apply_event s es)) i
    \<le> count_list (concat (map actions_of (snd (run apply_event s es)))) (Drain i) + draining s i"
  using assms
proof (induction es arbitrary: s)
  case (Cons e es)
  from Cons.IH [OF supervisor_inv_step [OF Cons.prems, of e]]
    snapshot_answers_drain_step [OF Cons.prems, of e i]
  show ?case by (simp add: count_list_append)
qed simp

lemma supervisor_new_inv: "supervisor_new a = Ok s \<Longrightarrow> supervisor_inv s"
  by (rule supervisor_init_inv)
    (auto simp: supervisor_init_def supervisor_new_def split: if_splits)

lemma supervisor_run_inv: "supervisor_new a = Ok s \<Longrightarrow> supervisor_inv (fst (run apply_event s es))"
  by (rule sup.inv_run) (rule supervisor_new_inv)

lemma serving_step:
  assumes "supervisor_inv s"
  shows "serving (fst (apply_event s e)) = serving s
    \<or> snd (serving s) < snd (serving (fst (apply_event s e)))"
proof (cases "is_ok (snd (apply_event s e))")
  case False
  then show ?thesis using apply_event_atomic [OF assms, of e] by simp
next
  case True
  from apply_event_refines [OF assms True] show ?thesis
    by (auto dest: spec_step_serving)
qed

lemma serving_run:
  assumes "supervisor_inv s"
  shows "serving (fst (run apply_event s es)) = serving s
    \<or> snd (serving s) < snd (serving (fst (run apply_event s es)))"
  using assms
proof (induction es arbitrary: s)
  case (Cons e es)
  from Cons.IH [OF supervisor_inv_step [OF Cons.prems, of e]] serving_step [OF Cons.prems, of e]
  show ?case by (auto intro: less_trans)
qed simp

text \<open>The instances whose activation is among some events, in order.\<close>

fun activations :: "replacement_event list \<Rightarrow> instance_id list" where
  "activations [] = []"
| "activations (CandidateActivated i # es) = i # activations es"
| "activations (_ # es) = activations es"

lemma activation_step:
  "supervisor_inv s \<Longrightarrow> is_ok (snd (apply_event s e)) \<Longrightarrow>
     fst (serving (fst (apply_event s e))) = last (fst (serving s) # activations [e])
     \<and> (activations [e] = [] \<longrightarrow> serving (fst (apply_event s e)) = serving s)"
  by (cases e; erule supervisor_shapes; elim insertE emptyE)
    (simp_all add: sup_defs serving_def split: if_splits)

lemma activations_Cons: "activations (e # es) = activations [e] @ activations es"
  by (cases e) simp_all

lemma last_Cons_append: "last (x # xs @ ys) = last (last (x # xs) # ys)"
  by (induction xs arbitrary: x) auto

lemma activations_run:
  assumes "supervisor_inv s"
  shows "fst (serving (fst (run apply_event s es)))
      = last (fst (serving s) # activations (accepted apply_event is_err s es))
    \<and> (activations (accepted apply_event is_err s es) = [] \<longrightarrow> serving (fst (run apply_event s es)) = serving s)"
  using assms
proof (induction es arbitrary: s)
  case (Cons e es)
  note IH = Cons.IH [OF supervisor_inv_step [OF Cons.prems, of e]]
  show ?case
  proof (cases "is_err (snd (apply_event s e))")
    case True
    with IH apply_event_atomic [OF Cons.prems, of e] show ?thesis by simp
  next
    case False
    with IH activation_step [OF Cons.prems, of e] show ?thesis
      by (simp add: activations_Cons [of e "accepted _ _ _ _"] last_Cons_append del: last.simps activations.simps)
  qed
qed simp

section \<open>Properties\<close>

text \<open>
  C1. From the supervisor that \<open>new\<close> returns, any sequence of events keeps the role
  invariant (at most one of candidate and retired, distinct identities, a candidate newer
  and a retired instance older than the active one, agreeing lifecycles), and \<open>phase\<close> never
  runs into one of its \<open>unreachable!\<close> branches.
\<close>

theorem replacement_invariant:
  assumes "supervisor_new a = Ok s"
  shows "supervisor_inv (fst (run apply_event s es)) \<and> phase (fst (run apply_event s es)) \<noteq> None"
  using supervisor_run_inv [OF assms, of es] phase_defined by blast

text \<open>
  C2. State is changed only after all preconditions of an event have been checked: in every
  supervisor reached from \<open>new\<close> a rejected event leaves the supervisor as it was, so a run
  ends in the same state as the run of its accepted events alone.
\<close>

theorem replacement_errors_atomic:
  assumes "supervisor_new a = Ok s"
  shows "(is_err (snd (apply_event (fst (run apply_event s es)) e)) \<longrightarrow>
      fst (apply_event (fst (run apply_event s es)) e) = fst (run apply_event s es))
    \<and> fst (run apply_event s (accepted apply_event is_err s es)) = fst (run apply_event s es)"
  using sup.rejected_keeps [OF supervisor_run_inv [OF assms, of es]]
    sup.run_accepted [OF supervisor_new_inv [OF assms]]
  by auto

text \<open>
  C3. The supervisor implements the abstract replacement machine: every accepted event is a
  step of \<open>spec_step\<close> on the serving instance and the phase, or leaves both unchanged.
\<close>

theorem replacement_refines_spec:
  assumes "supervisor_new a = Ok s" and "t = fst (run apply_event s es)"
    and "is_ok (snd (apply_event t e))" and "t' = fst (apply_event t e)"
  shows "\<exists>p p'. phase t = Some p \<and> phase t' = Some p'
    \<and> (spec_step (serving t, p) (serving t', p') \<or> serving t' = serving t \<and> p' = p)"
proof -
  have inv: "supervisor_inv t" using supervisor_run_inv [OF assms(1)] assms(2) by simp
  then have inv': "supervisor_inv t'" using supervisor_inv_step assms(4) by simp
  from apply_event_refines [OF inv assms(3)] assms(4) phase_defined [OF inv] phase_defined [OF inv']
  show ?thesis by auto
qed

text \<open>
  C4. No replacement gets stuck: from every state reached from \<open>new\<close> there is a sequence of
  at most eight further events, all of them accepted, after which the supervisor is \<open>Running\<close>.
\<close>

theorem replacement_can_complete:
  assumes "supervisor_new a = Ok s"
  shows "\<exists>fs. length fs \<le> 8 \<and> list_all is_ok (snd (run apply_event (fst (run apply_event s es)) fs))
    \<and> phase (fst (run apply_event s (es @ fs))) = Some Running"
proof -
  have inv: "supervisor_inv (fst (run apply_event s es))" by (rule supervisor_run_inv [OF assms])
  from replacement_completes [OF inv] replacement_rank_le [OF inv] show ?thesis
    unfolding fst_run_append by (meson le_trans)
qed

text \<open>
  C5. Over any run that starts at \<open>new\<close>, and for every instance, the supervisor never asks
  for more snapshots than it asked for drains: each \<open>Snapshot\<close> action answers its own
  earlier \<open>Drain\<close> action for that instance.
\<close>

theorem replacement_snapshot_after_drain:
  assumes "supervisor_new a = Ok s"
  shows "count_list (concat (map actions_of (snd (run apply_event s es)))) (Snapshot i)
    \<le> count_list (concat (map actions_of (snd (run apply_event s es)))) (Drain i)"
proof -
  from assms have "draining s i = 0"
    by (auto simp: supervisor_new_def draining_def split: if_splits)
  with snapshot_answers_drain_run [OF supervisor_new_inv [OF assms], of es i] show ?thesis by simp
qed

text \<open>
  C6. Between any two points of a run the serving instance either is the same, identity
  and generation, or has a strictly newer generation. The instance that serves at the later point
  is the one whose activation was accepted last in between; where no activation was accepted, as
  in a replacement that is rolled back, the instance that served before serves again, identity
  and generation.
\<close>

theorem replacement_serving_monotone:
  assumes "supervisor_new a = Ok s"
    and "t = fst (run apply_event s es)" and "t' = fst (run apply_event s (es @ fs))"
    and "activated = activations (accepted apply_event is_err t fs)"
  shows "(serving t' = serving t \<or> snd (serving t) < snd (serving t'))
    \<and> fst (serving t') = last (fst (serving t) # activated)
    \<and> (activated = [] \<longrightarrow> serving t' = serving t)"
proof -
  have "supervisor_inv t" using supervisor_run_inv [OF assms(1)] assms(2) by simp
  from serving_run [OF this, of fs] activations_run [OF this, of fs] show ?thesis
    by (simp add: fst_run_append assms(2-4))
qed

section \<open>Witnesses\<close>

definition example_id :: "nat \<Rightarrow> instance_id" where
  "example_id n = InstanceId (BoundedString [48 + n])"

definition example_instance :: "nat \<Rightarrow> lifecycle \<Rightarrow> service_instance" where
  "example_instance n l = \<lparr>inst_id = example_id n, inst_generation = of_nat n, inst_lifecycle = l\<rparr>"

definition example_supervisor :: supervisor where
  "example_supervisor =
     \<lparr>sup_active = example_instance 1 Active, sup_candidate = None, sup_retired = None\<rparr>"

definition example_events :: "replacement_event list" where
  "example_events =
     [Begin (example_instance 2 Spawned), CandidateSpawned (example_id 2),
      CandidateHandshakeComplete (example_id 2), CandidatePrepared (example_id 2),
      ActiveQuiesced (example_id 1), CandidateActivated (example_id 2), RetiredDrained (example_id 1)]"

lemmas example_defs = example_id_def example_instance_def example_supervisor_def example_events_def

lemma example_new: "supervisor_new (example_instance 1 Active) = Ok example_supervisor"
  by (simp add: supervisor_new_def example_defs)

lemma example_run:
  "run apply_event example_supervisor example_events =
     (\<lparr>sup_active = example_instance 2 Active, sup_candidate = None,
       sup_retired = Some (example_instance 1 Snapshotting)\<rparr>,
      [Ok [Spawn (example_instance 2 Spawned)], Ok [], Ok [Prepare (example_id 2)],
       Ok [Quiesce (example_id 1)], Ok [Activate (example_id 2)], Ok [Drain (example_id 1)],
       Ok [Snapshot (example_id 1)]])"
  by code_simp

theorem replacement_invariant_witness:
  "supervisor_new (example_instance 1 Active) = Ok example_supervisor
   \<and> supervisor_inv (fst (run apply_event example_supervisor example_events))
   \<and> phase (fst (run apply_event example_supervisor example_events)) = Some DrainingRetired"
  using example_new replacement_invariant [OF example_new, of example_events]
  by (simp add: example_run phase_def example_instance_def)

theorem replacement_errors_atomic_witness:
  "is_err (snd (apply_event (fst (run apply_event example_supervisor example_events))
     (CandidateFailed (example_id 2))))
   \<and> fst (apply_event (fst (run apply_event example_supervisor example_events))
       (CandidateFailed (example_id 2))) = fst (run apply_event example_supervisor example_events)"
  using replacement_errors_atomic [OF example_new, of example_events "CandidateFailed (example_id 2)"]
  by (simp add: example_run sup_defs)

theorem replacement_refines_spec_witness:
  "\<exists>p p'. phase (fst (run apply_event example_supervisor example_events)) = Some p
     \<and> phase (fst (apply_event (fst (run apply_event example_supervisor example_events))
         (RetiredSnapshotCaptured (example_id 1)))) = Some p' \<and> p \<noteq> p'"
  using replacement_refines_spec [OF example_new refl _ refl, of example_events
    "RetiredSnapshotCaptured (example_id 1)"]
  by (auto simp: example_run sup_defs example_instance_def phase_def)

theorem replacement_can_complete_witness:
  "\<exists>fs. length fs \<le> 8
     \<and> phase (fst (run apply_event example_supervisor (example_events @ fs))) = Some Running"
  using replacement_can_complete [OF example_new, of example_events] by blast

theorem replacement_snapshot_after_drain_witness:
  "count_list (concat (map actions_of (snd (run apply_event example_supervisor example_events))))
     (Snapshot (example_id 1)) = 1
   \<and> 1 \<le> count_list (concat (map actions_of (snd (run apply_event example_supervisor example_events))))
     (Drain (example_id 1))"
  using replacement_snapshot_after_drain [OF example_new, of example_events "example_id 1"]
  by (simp add: example_run)

definition example_rollback :: "replacement_event list" where
  "example_rollback =
     [Begin (example_instance 2 Spawned), CandidateSpawned (example_id 2),
      CandidateHandshakeComplete (example_id 2), CandidatePrepared (example_id 2),
      ActiveQuiesced (example_id 1), CandidateFailed (example_id 2), ActiveReactivated (example_id 1),
      CandidateStopped (example_id 2)]"

text \<open>One replacement that is committed, and one that is rolled back after the active instance was
  quiesced.\<close>

theorem replacement_serving_monotone_witness:
  "fst (serving (fst (run apply_event example_supervisor ([] @ example_events)))) = example_id 2
   \<and> phase (fst (run apply_event example_supervisor ([] @ example_rollback))) = Some Running
   \<and> serving (fst (run apply_event example_supervisor ([] @ example_rollback))) = serving example_supervisor"
proof -
  have start: "fst (run apply_event example_supervisor []) = example_supervisor" by simp
  have committed: "activations (accepted apply_event is_err example_supervisor example_events) = [example_id 2]"
    by code_simp
  have rolled_back: "activations (accepted apply_event is_err example_supervisor example_rollback) = []"
    by code_simp
  have running: "phase (fst (run apply_event example_supervisor ([] @ example_rollback))) = Some Running"
    by code_simp
  from replacement_serving_monotone [OF example_new start [symmetric] refl refl, of example_events]
    replacement_serving_monotone [OF example_new start [symmetric] refl refl, of example_rollback]
    committed rolled_back running
  show ?thesis by simp
qed

end
