(* ===== verification/Gen_Catalog.thy ===== *)
theory Gen_Catalog
  imports Machine Identity "HOL-Library.Multiset"
begin

text \<open>
  The supervised generation catalog (\<open>crates/oxiroute-supervision/src/catalog.rs\<close>): which
  launch document occupies which role of a supervised service, and the allocator of the
  monotonic generation identities. The catalog is generic in the revision and the payload of
  a document, as in the source.
\<close>

datatype generation_role =
    RoleActive | RoleCandidate | RolePrevious | RoleQuarantined | RoleRestartRequired

record ('r, 't) launch_document =
  doc_instance :: instance_id
  doc_generation :: generation_id
  doc_revision :: 'r
  doc_payload :: 't

definition launch_document_new ::
  "instance_id \<Rightarrow> generation_id \<Rightarrow> 'r \<Rightarrow> 't \<Rightarrow> ('r, 't) launch_document" where
  "launch_document_new i g r t =
     \<lparr>doc_instance = i, doc_generation = g, doc_revision = r, doc_payload = t\<rparr>"

record ('r, 't) catalog =
  cat_active :: "('r, 't) launch_document"
  cat_candidate :: "('r, 't) launch_document option"
  cat_previous :: "('r, 't) launch_document option"
  cat_quarantined :: "('r, 't) launch_document option"
  cat_restart_required :: "('r, 't) launch_document option"
  cat_next_generation :: "generation_id option"
  cat_high_watermark :: generation_id
  cat_consumed_watermark :: generation_id

datatype catalog_error =
    CandidateInProgress
  | GenerationExhausted
  | CatalogMissingRole generation_role
  | CatalogDuplicateInstanceId instance_id
  | CatalogStaleGeneration generation_id generation_id

definition ROLES :: "generation_role list" where
  "ROLES = [RoleActive, RoleCandidate, RolePrevious, RoleQuarantined, RoleRestartRequired]"

definition catalog_new :: "('r, 't) launch_document \<Rightarrow> ('r, 't) catalog" where
  "catalog_new active =
     \<lparr>cat_active = active, cat_candidate = None, cat_previous = None, cat_quarantined = None,
      cat_restart_required = None, cat_next_generation = u64_checked_add (doc_generation active) 1,
      cat_high_watermark = doc_generation active, cat_consumed_watermark = doc_generation active\<rparr>"

fun catalog_get :: "('r, 't) catalog \<Rightarrow> generation_role \<Rightarrow> ('r, 't) launch_document option" where
  "catalog_get c RoleActive = Some (cat_active c)"
| "catalog_get c RoleCandidate = cat_candidate c"
| "catalog_get c RolePrevious = cat_previous c"
| "catalog_get c RoleQuarantined = cat_quarantined c"
| "catalog_get c RoleRestartRequired = cat_restart_required c"

definition documents :: "('r, 't) catalog \<Rightarrow> (generation_role \<times> ('r, 't) launch_document) list" where
  "documents c = List.map_filter (\<lambda>role. map_option (\<lambda>d. (role, d)) (catalog_get c role)) ROLES"

definition option_list :: "'a option \<Rightarrow> 'a list" where
  "option_list x = (case x of None \<Rightarrow> [] | Some a \<Rightarrow> [a])"

definition contains_instance_id :: "('r, 't) catalog \<Rightarrow> instance_id \<Rightarrow> bool" where
  "contains_instance_id c i \<longleftrightarrow>
     doc_instance (cat_active c) = i
   \<or> list_ex (\<lambda>d. doc_instance d = i)
       (option_list (cat_candidate c) @ option_list (cat_previous c)
        @ option_list (cat_quarantined c) @ option_list (cat_restart_required c))"

definition latest_retained_generation :: "('r, 't) catalog \<Rightarrow> generation_id" where
  "latest_retained_generation c =
     foldl max (doc_generation (cat_active c))
       (map doc_generation
         (option_list (cat_candidate c) @ option_list (cat_previous c)
          @ option_list (cat_quarantined c) @ option_list (cat_restart_required c)))"

definition validate_generation :: "('r, 't) catalog \<Rightarrow> generation_id \<Rightarrow> (catalog_error, unit) result" where
  "validate_generation c candidate =
     (if candidate \<le> latest_retained_generation c \<or> candidate \<le> cat_consumed_watermark c
      then Err (CatalogStaleGeneration (cat_high_watermark c) candidate) else Ok ())"

definition consume_generation :: "('r, 't) catalog \<Rightarrow> generation_id \<Rightarrow> ('r, 't) catalog" where
  "consume_generation c generation = c\<lparr>cat_consumed_watermark := generation\<rparr>"

definition advance_generation_allocator :: "('r, 't) catalog \<Rightarrow> generation_id \<Rightarrow> ('r, 't) catalog" where
  "advance_generation_allocator c generation =
     (let c1 = c\<lparr>cat_high_watermark := max (cat_high_watermark c) generation\<rparr> in
      if (case cat_next_generation c1 of None \<Rightarrow> False | Some next \<Rightarrow> generation \<ge> next)
      then c1\<lparr>cat_next_generation := u64_checked_add generation 1\<rparr> else c1)"

type_synonym ('r, 't, 'a) catalog_result = "('r, 't) catalog \<times> (catalog_error, 'a) result"

definition allocate_generation :: "('r, 't) catalog \<Rightarrow> ('r, 't, generation_id) catalog_result" where
  "allocate_generation c =
     (case cat_next_generation c of
        None \<Rightarrow> (c, Err GenerationExhausted)
      | Some generation \<Rightarrow>
          (c\<lparr>cat_next_generation := u64_checked_add generation 1, cat_high_watermark := generation\<rparr>,
           Ok generation))"

definition begin_candidate ::
  "('r, 't) catalog \<Rightarrow> ('r, 't) launch_document \<Rightarrow> ('r, 't, unit) catalog_result" where
  "begin_candidate c candidate =
     (if cat_candidate c \<noteq> None then (c, Err CandidateInProgress)
      else if contains_instance_id c (doc_instance candidate)
        then (c, Err (CatalogDuplicateInstanceId (doc_instance candidate)))
      else case validate_generation c (doc_generation candidate) of
             Err e \<Rightarrow> (c, Err e)
           | Ok _ \<Rightarrow>
               let c1 = consume_generation c (doc_generation candidate);
                   c2 = advance_generation_allocator c1 (doc_generation candidate)
               in (c2\<lparr>cat_candidate := Some candidate\<rparr>, Ok ()))"

definition commit_candidate ::
  "('r, 't) catalog \<Rightarrow> ('r, 't, ('r, 't) launch_document option) catalog_result" where
  "commit_candidate c =
     (case cat_candidate c of
        None \<Rightarrow> (c, Err (CatalogMissingRole RoleCandidate))
      | Some candidate \<Rightarrow>
          (c\<lparr>cat_candidate := None, cat_active := candidate, cat_previous := Some (cat_active c)\<rparr>,
           Ok (cat_previous c)))"

definition quarantine_candidate ::
  "('r, 't) catalog \<Rightarrow> ('r, 't, ('r, 't) launch_document option) catalog_result" where
  "quarantine_candidate c =
     (case cat_candidate c of
        None \<Rightarrow> (c, Err (CatalogMissingRole RoleCandidate))
      | Some candidate \<Rightarrow>
          (c\<lparr>cat_candidate := None, cat_quarantined := Some candidate\<rparr>, Ok (cat_quarantined c)))"

definition record_restart_required ::
  "('r, 't) catalog \<Rightarrow> ('r, 't) launch_document
    \<Rightarrow> ('r, 't, ('r, 't) launch_document option) catalog_result" where
  "record_restart_required c document =
     (if contains_instance_id c (doc_instance document)
        then (c, Err (CatalogDuplicateInstanceId (doc_instance document)))
      else case validate_generation c (doc_generation document) of
             Err e \<Rightarrow> (c, Err e)
           | Ok _ \<Rightarrow>
               let c1 = consume_generation c (doc_generation document);
                   c2 = advance_generation_allocator c1 (doc_generation document)
               in (c2\<lparr>cat_restart_required := Some document\<rparr>, Ok (cat_restart_required c2)))"

definition take_previous :: "('r, 't) catalog \<Rightarrow> ('r, 't) catalog \<times> ('r, 't) launch_document option" where
  "take_previous c = (c\<lparr>cat_previous := None\<rparr>, cat_previous c)"

definition take_quarantined :: "('r, 't) catalog \<Rightarrow> ('r, 't) catalog \<times> ('r, 't) launch_document option" where
  "take_quarantined c = (c\<lparr>cat_quarantined := None\<rparr>, cat_quarantined c)"

definition take_restart_required :: "('r, 't) catalog \<Rightarrow> ('r, 't) catalog \<times> ('r, 't) launch_document option" where
  "take_restart_required c = (c\<lparr>cat_restart_required := None\<rparr>, cat_restart_required c)"

section \<open>The catalog as a machine\<close>

text \<open>
  One constructor per public method that changes the catalog. The observation of a step is
  the operation and what it returned: a generation, or the document that was displaced.
\<close>

datatype ('r, 't) catalog_op =
    AllocateGeneration
  | BeginCandidate "('r, 't) launch_document"
  | CommitCandidate
  | QuarantineCandidate
  | RecordRestartRequired "('r, 't) launch_document"
  | TakePrevious
  | TakeQuarantined
  | TakeRestartRequired

datatype ('r, 't) catalog_out =
    Allocated generation_id
  | Began
  | Returned "('r, 't) launch_document option"

definition map_out :: "('a \<Rightarrow> 'b) \<Rightarrow> 's \<times> ('e, 'a) result \<Rightarrow> 's \<times> ('e, 'b) result" where
  "map_out f m = (case m of (s, Err e) \<Rightarrow> (s, Err e) | (s, Ok a) \<Rightarrow> (s, Ok (f a)))"

fun catalog_apply :: "('r, 't) catalog \<Rightarrow> ('r, 't) catalog_op \<Rightarrow> ('r, 't, ('r, 't) catalog_out) catalog_result" where
  "catalog_apply c AllocateGeneration = map_out Allocated (allocate_generation c)"
| "catalog_apply c (BeginCandidate d) = map_out (\<lambda>_. Began) (begin_candidate c d)"
| "catalog_apply c CommitCandidate = map_out Returned (commit_candidate c)"
| "catalog_apply c QuarantineCandidate = map_out Returned (quarantine_candidate c)"
| "catalog_apply c (RecordRestartRequired d) = map_out Returned (record_restart_required c d)"
| "catalog_apply c TakePrevious = map_prod id (Ok \<circ> Returned) (take_previous c)"
| "catalog_apply c TakeQuarantined = map_prod id (Ok \<circ> Returned) (take_quarantined c)"
| "catalog_apply c TakeRestartRequired = map_prod id (Ok \<circ> Returned) (take_restart_required c)"

definition catalog_step :: "('r, 't) catalog \<Rightarrow> ('r, 't) catalog_op
    \<Rightarrow> ('r, 't) catalog \<times> ('r, 't) catalog_op \<times> (catalog_error, ('r, 't) catalog_out) result" where
  "catalog_step c x = map_prod id (Pair x) (catalog_apply c x)"

definition catalog_init :: "('r, 't) catalog \<Rightarrow> bool" where
  "catalog_init c \<longleftrightarrow> c = catalog_new (cat_active c)"

section \<open>Specification\<close>

abbreviation docs :: "('r, 't) catalog \<Rightarrow> ('r, 't) launch_document list" where
  "docs c \<equiv> map snd (documents c)"

definition docs_ok :: "('r, 't) launch_document list \<Rightarrow> generation_id \<Rightarrow> bool" where
  "docs_ok ds g \<longleftrightarrow> distinct (map doc_instance ds) \<and> distinct (map doc_generation ds)
     \<and> (\<forall>d \<in> set ds. doc_generation d \<le> g)"

definition catalog_inv :: "('r, 't) catalog \<Rightarrow> bool" where
  "catalog_inv c \<longleftrightarrow>
     distinct (map doc_instance (docs c)) \<and> distinct (map doc_generation (docs c))
   \<and> (\<forall>d \<in> set (docs c). doc_generation d \<le> cat_consumed_watermark c)
   \<and> (\<forall>d \<in> set (option_list (cat_candidate c)). doc_generation (cat_active c) < doc_generation d)
   \<and> (\<forall>d \<in> set (option_list (cat_previous c)). doc_generation d < doc_generation (cat_active c))
   \<and> cat_consumed_watermark c \<le> cat_high_watermark c
   \<and> cat_next_generation c = u64_checked_add (cat_high_watermark c) 1"

text \<open>Documents a step puts into the catalog and hands back to the caller.\<close>

fun inserted_docs :: "('r, 't) catalog_op \<times> (catalog_error, ('r, 't) catalog_out) result
    \<Rightarrow> ('r, 't) launch_document list" where
  "inserted_docs (BeginCandidate d, Ok _) = [d]"
| "inserted_docs (RecordRestartRequired d, Ok _) = [d]"
| "inserted_docs _ = []"

fun returned_docs :: "('r, 't) catalog_op \<times> (catalog_error, ('r, 't) catalog_out) result
    \<Rightarrow> ('r, 't) launch_document list" where
  "returned_docs (_, Ok (Returned x)) = option_list x"
| "returned_docs _ = []"

fun allocated :: "('r, 't) catalog_op \<times> (catalog_error, ('r, 't) catalog_out) result
    \<Rightarrow> generation_id option" where
  "allocated (_, Ok (Allocated g)) = Some g"
| "allocated _ = None"

fun consumed :: "('r, 't) catalog_op \<times> (catalog_error, ('r, 't) catalog_out) result
    \<Rightarrow> generation_id option" where
  "consumed (BeginCandidate d, Ok _) = Some (doc_generation d)"
| "consumed (RecordRestartRequired d, Ok _) = Some (doc_generation d)"
| "consumed _ = None"

section \<open>Lemmas\<close>

lemma option_list_simps [simp]: "option_list None = []" "option_list (Some a) = [a]"
  by (simp_all add: option_list_def)

lemma set_option_list [simp]: "set (option_list x) = set_option x"
  by (cases x) auto

lemma docs_eq:
  "docs c = cat_active c # option_list (cat_candidate c) @ option_list (cat_previous c)
     @ option_list (cat_quarantined c) @ option_list (cat_restart_required c)"
  by (simp add: documents_def ROLES_def List.map_filter_def option_list_def split: option.split)

lemma contains_instance_id_iff:
  "contains_instance_id c i \<longleftrightarrow> i \<in> doc_instance ` set (docs c)"
  by (auto simp: contains_instance_id_def docs_eq list_ex_iff)

lemma foldl_max_le_iff: "foldl max (a :: 'a :: linorder) xs \<le> b \<longleftrightarrow> a \<le> b \<and> (\<forall>x \<in> set xs. x \<le> b)"
  by (induction xs arbitrary: a) auto

lemma latest_retained_le:
  "catalog_inv c \<Longrightarrow> latest_retained_generation c \<le> cat_consumed_watermark c"
  by (auto simp: catalog_inv_def latest_retained_generation_def docs_eq foldl_max_le_iff)

lemma validate_generation_Ok:
  "catalog_inv c \<Longrightarrow> validate_generation c g = Ok () \<longleftrightarrow> cat_consumed_watermark c < g"
  using latest_retained_le [of c] by (auto simp: validate_generation_def)

lemma validate_generation_cases:
  assumes "catalog_inv c"
  shows "validate_generation c g =
    (if cat_consumed_watermark c < g then Ok () else Err (CatalogStaleGeneration (cat_high_watermark c) g))"
  using latest_retained_le [OF assms] by (auto simp: validate_generation_def)

lemma advance_next_generation:
  assumes "cat_next_generation c = u64_checked_add (cat_high_watermark c) 1"
  shows "cat_next_generation (advance_generation_allocator c g)
    = u64_checked_add (max (cat_high_watermark c) g) 1"
proof (cases "cat_high_watermark c < g")
  case True
  moreover obtain n where "u64_checked_add (cat_high_watermark c) 1 = Some n"
    using True u64_checked_add_1_None_iff [of "cat_high_watermark c"] by fastforce
  moreover from this have "unat n = unat (cat_high_watermark c) + 1"
    by (simp add: u64_checked_add_Some_iff)
  ultimately show ?thesis using assms
    by (auto simp: advance_generation_allocator_def word_less_nat_alt word_le_nat_alt max_def)
next
  case False
  then show ?thesis using assms
    by (auto simp: advance_generation_allocator_def max_def dest!: u64_checked_add_1_Some
      split: option.splits)
qed

lemma advance_simps [simp]:
  "cat_high_watermark (advance_generation_allocator c g) = max (cat_high_watermark c) g"
  "cat_consumed_watermark (advance_generation_allocator c g) = cat_consumed_watermark c"
  "cat_active (advance_generation_allocator c g) = cat_active c"
  "cat_candidate (advance_generation_allocator c g) = cat_candidate c"
  "cat_previous (advance_generation_allocator c g) = cat_previous c"
  "cat_quarantined (advance_generation_allocator c g) = cat_quarantined c"
  "cat_restart_required (advance_generation_allocator c g) = cat_restart_required c"
  by (simp_all add: advance_generation_allocator_def Let_def)

named_theorems cat_defs \<open>operations of the catalog\<close>

lemmas [cat_defs] = allocate_generation_def begin_candidate_def commit_candidate_def
  quarantine_candidate_def record_restart_required_def take_previous_def take_quarantined_def
  take_restart_required_def consume_generation_def map_out_def

lemma catalog_init_inv: "catalog_init c \<Longrightarrow> catalog_inv c"
  by (cases c) (simp add: catalog_init_def catalog_new_def catalog_inv_def docs_eq)

text \<open>Adding a document newer than everything consumed keeps the facts about the retained list.\<close>

lemma docs_ok_insert:
  assumes "docs_ok (xs @ ys) g" and "doc_instance d \<notin> doc_instance ` set (xs @ ys)" and "g < doc_generation d"
  shows "docs_ok (xs @ d # ys) (doc_generation d)"
  using assms by (force simp: docs_ok_def image_iff)

lemma docs_ok_sub: "docs_ok (xs @ ys @ zs) g \<Longrightarrow> docs_ok (xs @ zs) g"
  by (auto simp: docs_ok_def)

lemma catalog_inv_alt:
  "catalog_inv c \<longleftrightarrow> docs_ok (docs c) (cat_consumed_watermark c)
   \<and> (\<forall>d \<in> set_option (cat_candidate c). doc_generation (cat_active c) < doc_generation d)
   \<and> (\<forall>d \<in> set_option (cat_previous c). doc_generation d < doc_generation (cat_active c))
   \<and> cat_consumed_watermark c \<le> cat_high_watermark c
   \<and> cat_next_generation c = u64_checked_add (cat_high_watermark c) 1"
  unfolding catalog_inv_def docs_ok_def set_option_list by blast

lemma begin_candidate_inv:
  assumes inv: "catalog_inv c"
  shows "catalog_inv (fst (begin_candidate c d))"
proof (cases "cat_candidate c = None \<and> \<not> contains_instance_id c (doc_instance d)
    \<and> cat_consumed_watermark c < doc_generation d")
  case False
  with inv show ?thesis by (auto simp: begin_candidate_def validate_generation_cases)
next
  case True
  let ?c = "fst (begin_candidate c d)"
  let ?ds = "option_list (cat_previous c) @ option_list (cat_quarantined c)
    @ option_list (cat_restart_required c)"
  have c': "?c = (advance_generation_allocator (c\<lparr>cat_consumed_watermark := doc_generation d\<rparr>)
      (doc_generation d))\<lparr>cat_candidate := Some d\<rparr>"
    using True inv by (simp add: begin_candidate_def validate_generation_cases consume_generation_def)
  have old: "docs c = [cat_active c] @ ?ds" and new: "docs ?c = [cat_active c] @ d # ?ds"
    using True by (simp_all add: docs_eq c')
  have "docs_ok (docs ?c) (doc_generation d)"
    unfolding new using True inv old
    by (intro docs_ok_insert [where g = "cat_consumed_watermark c"])
      (auto simp: catalog_inv_alt contains_instance_id_iff)
  moreover have "doc_generation (cat_active c) < doc_generation d"
    using True inv by (auto simp: catalog_inv_def docs_eq)
  ultimately show ?thesis using inv
    unfolding catalog_inv_alt by (simp add: c' advance_next_generation)
qed

lemma record_restart_required_inv:
  assumes inv: "catalog_inv c"
  shows "catalog_inv (fst (record_restart_required c d))"
proof (cases "\<not> contains_instance_id c (doc_instance d) \<and> cat_consumed_watermark c < doc_generation d")
  case False
  with inv show ?thesis by (auto simp: record_restart_required_def validate_generation_cases)
next
  case True
  let ?c = "fst (record_restart_required c d)"
  let ?ds = "cat_active c # option_list (cat_candidate c) @ option_list (cat_previous c)
    @ option_list (cat_quarantined c)"
  have c': "?c = (advance_generation_allocator (c\<lparr>cat_consumed_watermark := doc_generation d\<rparr>)
      (doc_generation d))\<lparr>cat_restart_required := Some d\<rparr>"
    using True inv by (simp add: record_restart_required_def validate_generation_cases consume_generation_def)
  have old: "docs c = ?ds @ option_list (cat_restart_required c) @ []"
    and new: "docs ?c = ?ds @ d # []"
    by (simp_all add: docs_eq c')
  have "docs_ok (?ds @ []) (cat_consumed_watermark c)"
    using inv unfolding catalog_inv_alt old by (blast intro: docs_ok_sub)
  then have "docs_ok (docs ?c) (doc_generation d)"
    unfolding new using True
    by (intro docs_ok_insert [where g = "cat_consumed_watermark c"])
      (auto simp: contains_instance_id_iff docs_eq)
  with inv show ?thesis
    unfolding catalog_inv_alt by (simp add: c' advance_next_generation)
qed
lemma allocate_generation_inv: "catalog_inv c \<Longrightarrow> catalog_inv (fst (allocate_generation c))"
  by (auto simp: allocate_generation_def catalog_inv_def docs_eq split: option.splits dest!: u64_checked_add_1_Some)

lemma other_inv:
   "catalog_inv c \<Longrightarrow> catalog_inv (fst (commit_candidate c))"
   "catalog_inv c \<Longrightarrow> catalog_inv (fst (quarantine_candidate c))"
   "catalog_inv c \<Longrightarrow> catalog_inv (fst (take_previous c))"
   "catalog_inv c \<Longrightarrow> catalog_inv (fst (take_quarantined c))"
   "catalog_inv c \<Longrightarrow> catalog_inv (fst (take_restart_required c))"
  by (auto simp: cat_defs catalog_inv_def docs_eq split: option.splits)

lemma fst_map_out [simp]: "fst (map_out f m) = fst m"
  by (simp add: map_out_def split: prod.split sum.split)

lemma fst_catalog_step: "fst (catalog_step c x) = fst (catalog_apply c x)"
  by (simp add: catalog_step_def)

lemma snd_catalog_step: "snd (catalog_step c x) = (x, snd (catalog_apply c x))"
  by (simp add: catalog_step_def)

lemma catalog_inv_step: "catalog_inv c \<Longrightarrow> catalog_inv (fst (catalog_step c x))"
  by (cases x) (simp_all add: fst_catalog_step begin_candidate_inv record_restart_required_inv
     allocate_generation_inv other_inv)

lemma catalog_step_atomic:
  "is_err (snd (snd (catalog_step c x))) \<Longrightarrow> fst (catalog_step c x) = c"
  by (cases x) (auto simp: catalog_step_def cat_defs Let_def split: option.splits sum.splits if_splits)

interpretation cat: atomic_machine catalog_step catalog_init catalog_inv "\<lambda>out. is_err (snd out)"
  by unfold_locales (simp_all add: catalog_init_inv catalog_inv_step catalog_step_atomic)

lemma allocated_above:
  "catalog_inv c \<Longrightarrow> cat_high_watermark c \<le> cat_high_watermark (fst (catalog_step c x))
   \<and> (allocated (snd (catalog_step c x)) = Some g \<longrightarrow>
      cat_high_watermark c < g \<and> g \<le> cat_high_watermark (fst (catalog_step c x)))"
  by (cases x)
    (auto simp: catalog_step_def cat_defs Let_def catalog_inv_def dest!: u64_checked_add_1_Some
      split: option.splits sum.splits if_splits)

lemma consumed_above:
  "catalog_inv c \<Longrightarrow> cat_consumed_watermark c \<le> cat_consumed_watermark (fst (catalog_step c x))
   \<and> (consumed (snd (catalog_step c x)) = Some g \<longrightarrow>
      cat_consumed_watermark c < g \<and> g \<le> cat_consumed_watermark (fst (catalog_step c x)))"
  by (cases x)
    (auto simp: catalog_step_def cat_defs Let_def validate_generation_cases
      split: option.splits sum.splits if_splits)

interpretation cat_alloc: issuing_machine catalog_step catalog_init catalog_inv allocated cat_high_watermark
  by unfold_locales (simp_all add: allocated_above)

interpretation cat_consume: issuing_machine catalog_step catalog_init catalog_inv consumed cat_consumed_watermark
  by unfold_locales (simp_all add: consumed_above)

lemma catalog_step_conserves:
  "mset (docs (fst (catalog_step c x))) + mset (returned_docs (snd (catalog_step c x)))
   = mset (docs c) + mset (inserted_docs (snd (catalog_step c x)))"
  by (cases x)
    (auto simp: catalog_step_def cat_defs Let_def docs_eq
      split: option.splits sum.splits if_splits)

lemma catalog_run_conserves:
  "mset (docs (fst (run catalog_step c xs)))
     + mset (concat (map returned_docs (snd (run catalog_step c xs))))
   = mset (docs c) + mset (concat (map inserted_docs (snd (run catalog_step c xs))))"
proof (induction xs arbitrary: c)
  case (Cons x xs)
  from Cons.IH [of "fst (catalog_step c x)"] catalog_step_conserves [of c x]
  show ?case by (simp add: ac_simps)
qed simp

lemma catalog_new_inv: "catalog_inv (catalog_new d)"
  by (rule catalog_init_inv) (simp add: catalog_init_def catalog_new_def)

section \<open>Properties\<close>

text \<open>
  C7. Any sequence of catalog operations after \<open>new\<close> keeps the catalog invariant: the
  retained documents have pairwise distinct instance identities and generations, none newer
  than the consumed watermark; a candidate is newer and the previous document older than the
  active one; and the allocator stands right after the high watermark.
\<close>

theorem catalog_invariant: "catalog_inv (fst (run catalog_step (catalog_new d) xs))"
  by (rule cat.inv_run) (rule catalog_new_inv)

text \<open>
  C8. Generation identities are never reused, however the operations interleave: the
  generations that \<open>allocate_generation\<close> returns are strictly increasing and newer than the
  first active one, and so are the generations of the documents that enter the catalog.
\<close>

theorem catalog_generations_increase:
  "sorted_wrt (<) (doc_generation d # issues allocated (snd (run catalog_step (catalog_new d) xs)))
   \<and> sorted_wrt (<) (doc_generation d # issues consumed (snd (run catalog_step (catalog_new d) xs)))"
  using cat_alloc.issues_increasing [OF catalog_new_inv, of d xs]
    cat_alloc.issues_above [OF catalog_new_inv, of _ d xs]
    cat_consume.issues_increasing [OF catalog_new_inv, of d xs]
    cat_consume.issues_above [OF catalog_new_inv, of _ d xs]
  by (simp add: catalog_new_def)

text \<open>
  C9. A freshly allocated generation is usable: after any sequence of operations, if
  \<open>allocate_generation\<close> hands out a generation, no candidate is pending and the instance is
  not in the catalog, then a document with that instance and generation becomes the candidate.
\<close>

theorem catalog_allocation_usable:
  assumes "c = fst (run catalog_step (catalog_new d0) xs)"
    and "allocate_generation c = (c', Ok (doc_generation d))"
    and "catalog_get c RoleCandidate = None" and "\<not> contains_instance_id c (doc_instance d)"
  shows "snd (begin_candidate c' d) = Ok ()
    \<and> catalog_get (fst (begin_candidate c' d)) RoleCandidate = Some d
    \<and> catalog_get (fst (begin_candidate c' d)) RoleActive = catalog_get c RoleActive"
proof -
  have inv: "catalog_inv c" unfolding assms(1) by (rule cat.inv_run) (rule catalog_new_inv)
  then have inv': "catalog_inv c'" using allocate_generation_inv [of c] assms(2) by simp
  from assms(2) have c': "c' = c\<lparr>cat_next_generation := u64_checked_add (doc_generation d) 1,
      cat_high_watermark := doc_generation d\<rparr>" "cat_next_generation c = Some (doc_generation d)"
    by (auto simp: allocate_generation_def split: option.splits)
  with inv have "u64_checked_add (cat_high_watermark c) 1 = Some (doc_generation d)"
    "cat_consumed_watermark c \<le> cat_high_watermark c"
    by (simp_all add: catalog_inv_def)
  then have "cat_consumed_watermark c' < doc_generation d"
    by (auto simp: c' dest!: u64_checked_add_1_Some)
  moreover have "\<not> contains_instance_id c' (doc_instance d)" "cat_candidate c' = None"
    using assms(3,4) by (simp_all add: c' contains_instance_id_iff docs_eq)
  moreover have "cat_active c' = cat_active c" by (simp add: c')
  ultimately show ?thesis
    by (simp add: begin_candidate_def consume_generation_def validate_generation_cases [OF inv'])
qed

text \<open>
  C10. No launch document is lost or duplicated: over any run, the documents still in the
  catalog and those handed back to the caller are, as a multiset, the first active document
  and the documents that were accepted. A rejected operation changes nothing, whatever run came
  before it, so a run ends in the catalog that its accepted operations alone lead to.
\<close>

theorem catalog_conserves_documents:
  "mset (docs (fst (run catalog_step (catalog_new d) xs)))
     + mset (concat (map returned_docs (snd (run catalog_step (catalog_new d) xs))))
   = {#d#} + mset (concat (map inserted_docs (snd (run catalog_step (catalog_new d) xs))))
   \<and> (is_err (snd (snd (catalog_step (fst (run catalog_step (catalog_new d) xs)) x)))
      \<longrightarrow> fst (catalog_step (fst (run catalog_step (catalog_new d) xs)) x)
          = fst (run catalog_step (catalog_new d) xs))
   \<and> fst (run catalog_step (catalog_new d)
       (accepted catalog_step (\<lambda>out. is_err (snd out)) (catalog_new d) xs))
     = fst (run catalog_step (catalog_new d) xs)"
proof -
  have "docs (catalog_new d) = [d]" by (simp add: docs_eq catalog_new_def)
  then have "mset (docs (fst (run catalog_step (catalog_new d) xs)))
      + mset (concat (map returned_docs (snd (run catalog_step (catalog_new d) xs))))
    = {#d#} + mset (concat (map inserted_docs (snd (run catalog_step (catalog_new d) xs))))"
    using catalog_run_conserves [of "catalog_new d" xs] by simp
  then show ?thesis using catalog_step_atomic cat.run_accepted [OF catalog_new_inv, of d xs] by blast
qed

section \<open>Witnesses\<close>

definition example_doc :: "nat \<Rightarrow> (revision, string) launch_document" where
  "example_doc n = launch_document_new (InstanceId (BoundedString [48 + n])) (of_nat n) 0 ''payload''"

theorem catalog_allocation_usable_witness:
  "allocate_generation (catalog_new (example_doc 1))
     = (fst (allocate_generation (catalog_new (example_doc 1))), Ok (doc_generation (example_doc 2)))
   \<and> snd (begin_candidate (fst (allocate_generation (catalog_new (example_doc 1)))) (example_doc 2)) = Ok ()"
proof -
  let ?c = "catalog_new (example_doc 1)"
  have alloc: "allocate_generation ?c = (fst (allocate_generation ?c), Ok (doc_generation (example_doc 2)))"
    by (simp add: allocate_generation_def catalog_new_def u64_checked_add_def example_doc_def
        launch_document_new_def)
  have "catalog_get ?c RoleCandidate = None" "\<not> contains_instance_id ?c (doc_instance (example_doc 2))"
    by (simp_all add: contains_instance_id_def catalog_new_def example_doc_def launch_document_new_def)
  from catalog_allocation_usable [where xs = "[]", OF _ alloc this] alloc show ?thesis by simp
qed

text \<open>A document whose instance the catalog already holds is rejected, and the catalog keeps its one
  document.\<close>

theorem catalog_conserves_documents_witness:
  "is_err (snd (snd (catalog_step (catalog_new (example_doc 1)) (BeginCandidate (example_doc 1)))))
   \<and> fst (catalog_step (catalog_new (example_doc 1)) (BeginCandidate (example_doc 1))) = catalog_new (example_doc 1)
   \<and> mset (docs (fst (run catalog_step (catalog_new (example_doc 1)) []))) = {#example_doc 1#}"
proof -
  have "is_err (snd (snd (catalog_step (catalog_new (example_doc 1)) (BeginCandidate (example_doc 1)))))"
    by (simp add: catalog_step_def cat_defs map_out_def catalog_new_def contains_instance_id_def)
  with catalog_conserves_documents [of "example_doc 1" "[]" "BeginCandidate (example_doc 1)"]
  show ?thesis by (simp add: docs_eq catalog_new_def)
qed

end
