(* ===== verification/Tables.thy ===== *)
theory Tables
  imports Prelude "HOL-Library.Multiset"
begin

text \<open>
  The two keyed collections of the Rust standard library that the components use.
  A \<open>BTreeMap\<close> is its list of entries in key order; a \<open>HashMap\<close> is its list of entries in
  some iteration order, each key once. What the components rely on is the contract \<open>table\<close>
  (lookups after updates, each key once) and \<open>ordered_table\<close> (iteration in key order); the
  lemmas about sizes and sums over the stored values are proved from the contract.
\<close>

type_synonym ('k, 'v) entries = "('k \<times> 'v) list"

section \<open>Operations\<close>

definition tab_get :: "('k, 'v) entries \<Rightarrow> 'k \<Rightarrow> 'v option" where
  "tab_get m k = map_of m k"

definition tab_remove :: "('k, 'v) entries \<Rightarrow> 'k \<Rightarrow> ('k, 'v) entries" where
  "tab_remove m k = filter (\<lambda>e. fst e \<noteq> k) m"

fun hash_insert :: "('k, 'v) entries \<Rightarrow> 'k \<Rightarrow> 'v \<Rightarrow> ('k, 'v) entries" where
  "hash_insert [] k v = [(k, v)]"
| "hash_insert ((k', v') # m) k v = (if k' = k then (k, v) # m else (k', v') # hash_insert m k v)"

fun btree_insert :: "('k :: linorder, 'v) entries \<Rightarrow> 'k \<Rightarrow> 'v \<Rightarrow> ('k, 'v) entries" where
  "btree_insert [] k v = [(k, v)]"
| "btree_insert ((k', v') # m) k v =
     (if k < k' then (k, v) # (k', v') # m
      else if k = k' then (k, v) # m
      else (k', v') # btree_insert m k v)"

definition hash_wf :: "('k, 'v) entries \<Rightarrow> bool" where
  "hash_wf m \<longleftrightarrow> distinct (map fst m)"

definition btree_wf :: "('k :: linorder, 'v) entries \<Rightarrow> bool" where
  "btree_wf m \<longleftrightarrow> sorted_wrt (<) (map fst m)"

section \<open>Contracts\<close>

lemma sum_list_image_mset: "(\<Sum>x \<leftarrow> xs. g x) = (\<Sum>x \<in># mset xs. g x)"
  by (induction xs) auto

locale table =
  fixes get :: "'m \<Rightarrow> 'k \<Rightarrow> 'v option"
    and put :: "'m \<Rightarrow> 'k \<Rightarrow> 'v \<Rightarrow> 'm"
    and del :: "'m \<Rightarrow> 'k \<Rightarrow> 'm"
    and items :: "'m \<Rightarrow> ('k \<times> 'v) list"
    and wf :: "'m \<Rightarrow> bool"
  assumes items_distinct: "wf m \<Longrightarrow> distinct (map fst (items m))"
    and get_items: "wf m \<Longrightarrow> get m = map_of (items m)"
    and wf_put: "wf m \<Longrightarrow> wf (put m k v)"
    and wf_del: "wf m \<Longrightarrow> wf (del m k)"
    and get_put: "wf m \<Longrightarrow> get (put m k v) = (get m)(k \<mapsto> v)"
    and get_del: "wf m \<Longrightarrow> get (del m k) = (get m)(k := None)"
begin

lemma get_Some_iff: "wf m \<Longrightarrow> get m k = Some v \<longleftrightarrow> (k, v) \<in> set (items m)"
  using items_distinct [of m] by (simp add: get_items)

lemma get_None_iff: "wf m \<Longrightarrow> get m k = None \<longleftrightarrow> k \<notin> fst ` set (items m)"
  by (simp add: get_items map_of_eq_None_iff)

lemma set_items_put: "wf m \<Longrightarrow> set (items (put m k v)) = insert (k, v) {e \<in> set (items m). fst e \<noteq> k}"
  by (auto simp: get_Some_iff [symmetric] get_Some_iff [OF wf_put, symmetric] get_put split: if_splits)

lemma set_items_del: "wf m \<Longrightarrow> set (items (del m k)) = {e \<in> set (items m). fst e \<noteq> k}"
  by (auto simp: get_Some_iff [symmetric] get_Some_iff [OF wf_del, symmetric] get_del split: if_splits)

lemma mset_items: "wf m \<Longrightarrow> mset (items m) = mset_set (set (items m))"
  using items_distinct [of m] by (simp add: distinct_map mset_set_set)

lemma mset_items_put: "wf m \<Longrightarrow> mset (items (put m k v)) = add_mset (k, v) (mset (items (del m k)))"
  by (simp add: mset_items wf_put wf_del set_items_put set_items_del)

lemma mset_items_del:
  assumes "wf m" and "get m k = Some v"
  shows "mset (items m) = add_mset (k, v) (mset (items (del m k)))"
proof -
  have "(k, v) \<in> set (items m)" using assms by (simp add: get_Some_iff)
  moreover have "e = (k, v)" if "e \<in> set (items m)" "fst e = k" for e
    using that assms(2) get_Some_iff [OF assms(1), of k "snd e"] by (cases e) auto
  ultimately have "set (items m) = insert (k, v) {e \<in> set (items m). fst e \<noteq> k}" by blast
  then have "mset_set (set (items m)) = mset_set (insert (k, v) {e \<in> set (items m). fst e \<noteq> k})"
    by (rule arg_cong)
  also have "\<dots> = add_mset (k, v) (mset_set {e \<in> set (items m). fst e \<noteq> k})"
    by (rule mset_set.insert) simp_all
  finally show ?thesis
    unfolding mset_items [OF assms(1)] mset_items [OF wf_del [OF assms(1)]] set_items_del [OF assms(1)] .
qed

lemma del_absent: "wf m \<Longrightarrow> get m k = None \<Longrightarrow> mset (items (del m k)) = mset (items m)"
  by (auto simp: mset_items wf_del set_items_del get_None_iff intro!: arg_cong [where f = mset_set])

text \<open>Sizes and sums of a weight over the stored values.\<close>

abbreviation weight :: "('v \<Rightarrow> nat) \<Rightarrow> 'm \<Rightarrow> nat" where
  "weight f m \<equiv> \<Sum>e \<leftarrow> items m. f (snd e)"

lemma weight_put:
  assumes "wf m"
  shows "weight f (put m k v) = f v + weight f (del m k)"
  unfolding sum_list_image_mset mset_items_put [OF assms] by simp

lemma weight_del:
  assumes "wf m" and "get m k = Some v"
  shows "weight f m = f v + weight f (del m k)"
  unfolding sum_list_image_mset mset_items_del [OF assms] by simp

lemma weight_absent:
  assumes "wf m" and "get m k = None"
  shows "weight f (del m k) = weight f m"
  unfolding sum_list_image_mset del_absent [OF assms] ..

lemma length_put: "wf m \<Longrightarrow> length (items (put m k v)) = Suc (length (items (del m k)))"
  using arg_cong [OF mset_items_put, of m size k v] by simp

lemma length_del: "wf m \<Longrightarrow> get m k = Some v \<Longrightarrow> length (items m) = Suc (length (items (del m k)))"
  using arg_cong [OF mset_items_del, of m k v size] by simp

lemma length_absent: "wf m \<Longrightarrow> get m k = None \<Longrightarrow> length (items (del m k)) = length (items m)"
  using arg_cong [OF del_absent, of m k size] by simp

lemma length_del_le: "wf m \<Longrightarrow> length (items (del m k)) \<le> length (items m)"
  by (cases "get m k") (simp add: length_absent, frule (1) length_del, simp)

end

locale ordered_table = table get put del items wf
  for get :: "'m \<Rightarrow> 'k :: linorder \<Rightarrow> 'v option" and put del items wf +
  assumes items_sorted: "wf m \<Longrightarrow> sorted_wrt (<) (map fst (items m))"

section \<open>The collections satisfy the contracts\<close>

lemma tab_get_remove: "tab_get (tab_remove m k) = (tab_get m)(k := None)"
  by (induction m) (auto simp: tab_get_def tab_remove_def fun_eq_iff)

lemma map_of_hash_insert: "map_of (hash_insert m k v) = (map_of m)(k \<mapsto> v)"
  by (induction m k v rule: hash_insert.induct) (auto simp: fun_eq_iff)

lemma fst_hash_insert: "fst ` set (hash_insert m k v) = insert k (fst ` set m)"
  by (induction m k v rule: hash_insert.induct) auto

lemma distinct_hash_insert: "distinct (map fst m) \<Longrightarrow> distinct (map fst (hash_insert m k v))"
  by (induction m k v rule: hash_insert.induct) (auto simp: fst_hash_insert)

lemma map_of_btree_insert:
  "btree_wf m \<Longrightarrow> map_of (btree_insert m k v) = (map_of m)(k \<mapsto> v)"
  by (induction m k v rule: btree_insert.induct) (auto simp: btree_wf_def fun_eq_iff)

lemma fst_btree_insert: "fst ` set (btree_insert m k v) = insert k (fst ` set m)"
  by (induction m k v rule: btree_insert.induct) auto

lemma sorted_btree_insert: "btree_wf m \<Longrightarrow> btree_wf (btree_insert m k v)"
proof (induction m k v rule: btree_insert.induct)
  case (2 k' v' m k v)
  have "\<forall>x \<in> fst ` set (btree_insert m k v). k' < x" if "\<not> k < k'" "k \<noteq> k'"
    using that 2(2) unfolding fst_btree_insert by (auto simp: btree_wf_def)
  with 2 show ?case by (fastforce simp: btree_wf_def)
qed (simp add: btree_wf_def)

lemma sorted_tab_remove: "btree_wf m \<Longrightarrow> btree_wf (tab_remove m k)"
  by (induction m) (auto simp: btree_wf_def tab_remove_def)

lemma distinct_tab_remove: "distinct (map fst m) \<Longrightarrow> distinct (map fst (tab_remove m k))"
  by (simp add: tab_remove_def distinct_map_filter)

lemma btree_wf_sorted: "btree_wf m \<Longrightarrow> sorted_wrt (<) (map fst m)"
  by (simp add: btree_wf_def)

lemma btree_wf_distinct: "btree_wf m \<Longrightarrow> distinct (map fst m)"
  by (rule sorted_wrt_less_distinct) (rule btree_wf_sorted)

interpretation btree: ordered_table tab_get btree_insert tab_remove "\<lambda>m. m" btree_wf
  by unfold_locales
    (simp_all add: tab_get_def [abs_def] map_of_btree_insert sorted_btree_insert sorted_tab_remove
       tab_get_remove [unfolded tab_get_def [abs_def]] btree_wf_sorted btree_wf_distinct)

interpretation hash: table tab_get hash_insert tab_remove "\<lambda>m. m" hash_wf
  by unfold_locales
    (simp_all add: tab_get_def [abs_def] map_of_hash_insert distinct_hash_insert distinct_tab_remove
       tab_get_remove [unfolded tab_get_def [abs_def]] hash_wf_def)

end
