(* ===== verification/Correlation.thy ===== *)
theory Correlation
  imports Machine Identity Tables
begin

text \<open>
  The RPC correlation table (\<open>crates/oxiroute-supervision/src/correlation.rs\<close>): requests
  that wait for an answer, each under a token that stays unique when its request identifier
  is used again. Time is supplied by the caller. The table's const parameter \<open>MAX\<close> is the
  argument \<open>mx\<close>.
\<close>

record correlation_token =
  tok_request :: request_id
  tok_generation :: u64

record 'a pending_request =
  pend_deadline :: epoch
  pend_value :: 'a

datatype correlation_error =
    Duplicate request_id
  | Full usize
  | Unknown correlation_token
  | CorrelationGenerationExhausted

record 'a correlation_table =
  ct_pending :: "(request_id, correlation_token \<times> 'a pending_request) entries"
  ct_next_generation :: u64

definition correlation_new :: "'a correlation_table" where
  "correlation_new = \<lparr>ct_pending = [], ct_next_generation = 1\<rparr>"

definition correlation_len :: "'a correlation_table \<Rightarrow> usize" where
  "correlation_len t = length (ct_pending t)"

definition correlation_insert ::
  "usize \<Rightarrow> 'a correlation_table \<Rightarrow> request_id \<Rightarrow> epoch \<Rightarrow> 'a
    \<Rightarrow> 'a correlation_table \<times> (correlation_error, correlation_token) result" where
  "correlation_insert mx t request deadline v =
     (if tab_get (ct_pending t) request \<noteq> None then (t, Err (Duplicate request))
      else if length (ct_pending t) = mx then (t, Err (Full mx))
      else if ct_next_generation t = 0 then (t, Err CorrelationGenerationExhausted)
      else
        let token = \<lparr>tok_request = request, tok_generation = ct_next_generation t\<rparr>;
            pending = \<lparr>pend_deadline = deadline, pend_value = v\<rparr>
        in (t\<lparr>ct_next_generation :=
                (case u64_checked_add (ct_next_generation t) 1 of Some n \<Rightarrow> n | None \<Rightarrow> 0),
              ct_pending := btree_insert (ct_pending t) request (token, pending)\<rparr>,
            Ok token))"

definition correlation_complete ::
  "'a correlation_table \<Rightarrow> correlation_token
    \<Rightarrow> 'a correlation_table \<times> (correlation_error, 'a pending_request) result" where
  "correlation_complete t token =
     (case tab_get (ct_pending t) (tok_request token) of
        Some (pending_token, pending) \<Rightarrow>
          if pending_token = token
          then (t\<lparr>ct_pending := tab_remove (ct_pending t) (tok_request token)\<rparr>, Ok pending)
          else (t, Err (Unknown token))
      | None \<Rightarrow> (t, Err (Unknown token)))"

fun remove_ids :: "('k, 'v) entries \<Rightarrow> 'k list \<Rightarrow> ('k, 'v) entries \<times> 'v list" where
  "remove_ids m [] = (m, [])"
| "remove_ids m (k # ks) =
     (case tab_get m k of
        None \<Rightarrow> remove_ids m ks
      | Some v \<Rightarrow> let (m', vs) = remove_ids (tab_remove m k) ks in (m', v # vs))"

definition correlation_expire ::
  "'a correlation_table \<Rightarrow> epoch
    \<Rightarrow> 'a correlation_table \<times> (correlation_token \<times> 'a pending_request) bounded_vec" where
  "correlation_expire t now =
     (let expired_ids = map fst (filter (\<lambda>(_, _, p). pend_deadline p \<le> now) (ct_pending t));
          (rest, expired) = remove_ids (ct_pending t) expired_ids
      in (t\<lparr>ct_pending := rest\<rparr>, BoundedVec expired))"

section \<open>The table as a machine\<close>

datatype 'a correlation_op =
    InsertRequest request_id epoch 'a
  | CompleteRequest correlation_token
  | ExpireRequests epoch

datatype 'a correlation_out =
    Inserted "(correlation_error, correlation_token) result"
  | Completed correlation_token "(correlation_error, 'a pending_request) result"
  | Expired "(correlation_token \<times> 'a pending_request) list"

fun correlation_step ::
  "usize \<Rightarrow> 'a correlation_table \<Rightarrow> 'a correlation_op \<Rightarrow> 'a correlation_table \<times> 'a correlation_out" where
  "correlation_step mx t (InsertRequest r d v) = map_prod id Inserted (correlation_insert mx t r d v)"
| "correlation_step mx t (CompleteRequest tok) = map_prod id (Completed tok) (correlation_complete t tok)"
| "correlation_step mx t (ExpireRequests now) = map_prod id (Expired \<circ> bv_list) (correlation_expire t now)"

section \<open>Specification\<close>

definition correlation_inv :: "usize \<Rightarrow> 'a correlation_table \<Rightarrow> bool" where
  "correlation_inv mx t \<longleftrightarrow> btree_wf (ct_pending t) \<and> length (ct_pending t) \<le> mx
   \<and> (\<forall>(k, tok, p) \<in> set (ct_pending t). tok_request tok = k)"

text \<open>The last generation that was handed out; zero before the first one.\<close>

definition issued_mark :: "'a correlation_table \<Rightarrow> u64" where
  "issued_mark t = ct_next_generation t - 1"

fun issued_token :: "'a correlation_out \<Rightarrow> correlation_token option" where
  "issued_token (Inserted (Ok tok)) = Some tok"
| "issued_token _ = None"

fun delivered_tokens :: "'a correlation_out \<Rightarrow> correlation_token list" where
  "delivered_tokens (Completed tok (Ok _)) = [tok]"
| "delivered_tokens (Expired xs) = map fst xs"
| "delivered_tokens _ = []"

definition pending_tokens :: "'a correlation_table \<Rightarrow> correlation_token list" where
  "pending_tokens t = map (fst \<circ> snd) (ct_pending t)"

text \<open>The table and the outputs after a sequence of operations on a new table.\<close>

abbreviation table_after :: "usize \<Rightarrow> 'a correlation_op list \<Rightarrow> 'a correlation_table" where
  "table_after mx xs \<equiv> fst (run (correlation_step mx) correlation_new xs)"

abbreviation outputs_after :: "usize \<Rightarrow> 'a correlation_op list \<Rightarrow> 'a correlation_out list" where
  "outputs_after mx xs \<equiv> snd (run (correlation_step mx) correlation_new xs)"

section \<open>Lemmas\<close>

lemma filter_key_absent: "k \<notin> fst ` set m \<Longrightarrow> filter (\<lambda>e. fst e \<noteq> k) m = m"
  by (induction m) auto

text \<open>Removing the keys of a filtered table splits the table.\<close>

lemma remove_ids_filter:
  assumes "btree_wf m"
  shows "remove_ids m (map fst (filter P m)) = (filter (\<lambda>e. \<not> P e) m, map snd (filter P m))"
proof -
  have "remove_ids (pre @ m) (map fst (filter P m))
      = (pre @ filter (\<lambda>e. \<not> P e) m, map snd (filter P m))"
    if "distinct (map fst (pre @ m))" for pre
    using that
  proof (induction m arbitrary: pre)
    case (Cons e m)
    obtain k v where e: "e = (k, v)" by (cases e)
    have "map_of pre k = None" using Cons.prems by (simp add: e map_of_eq_None_iff)
    then have "tab_get (pre @ e # m) k = Some v" by (simp add: tab_get_def e map_add_def)
    moreover have "tab_remove (pre @ e # m) k = pre @ m"
      using Cons.prems by (simp add: tab_remove_def e filter_key_absent)
    ultimately show ?case
      using Cons.IH [of pre] Cons.IH [of "pre @ [e]"] Cons.prems by (simp add: e)
  qed simp
  from this [of "[]"] btree_wf_distinct [OF assms] show ?thesis by simp
qed

lemma correlation_expire_eq:
  assumes "btree_wf (ct_pending t)"
  shows "correlation_expire t now =
    (t\<lparr>ct_pending := filter (\<lambda>(_, _, p). now < pend_deadline p) (ct_pending t)\<rparr>,
     BoundedVec (map snd (filter (\<lambda>(_, _, p). pend_deadline p \<le> now) (ct_pending t))))"
  by (simp add: correlation_expire_def remove_ids_filter [OF assms] case_prod_unfold not_le)

lemma btree_wf_filter: "btree_wf m \<Longrightarrow> btree_wf (filter P m)"
  by (induction m) (auto simp: btree_wf_def)

lemma correlation_insert_inv:
  assumes inv: "correlation_inv mx t"
  shows "correlation_inv mx (fst (correlation_insert mx t r d v))"
proof (cases "tab_get (ct_pending t) r = None \<and> length (ct_pending t) \<noteq> mx \<and> ct_next_generation t \<noteq> 0")
  case False
  with inv show ?thesis by (auto simp: correlation_insert_def)
next
  case True
  have wf: "btree_wf (ct_pending t)" using inv by (simp add: correlation_inv_def)
  have "length (btree_insert (ct_pending t) r x) = Suc (length (ct_pending t))" for x
    using True wf by (simp add: btree.length_put btree.length_absent)
  with True inv show ?thesis
    by (auto simp: correlation_insert_def correlation_inv_def btree.wf_put btree.set_items_put Let_def)
qed

lemma correlation_complete_inv:
  assumes inv: "correlation_inv mx t"
  shows "correlation_inv mx (fst (correlation_complete t tok))"
  using inv btree.length_del_le [of "ct_pending t" "tok_request tok"]
  by (auto simp: correlation_complete_def correlation_inv_def btree.wf_del btree.set_items_del
      split: option.split)

lemma correlation_expire_inv:
  assumes inv: "correlation_inv mx t"
  shows "correlation_inv mx (fst (correlation_expire t now))"
proof -
  have "length (filter P (ct_pending t)) \<le> mx" for P
    using inv length_filter_le [of P "ct_pending t"]
    unfolding correlation_inv_def by linarith
  with inv show ?thesis
    by (auto simp: correlation_expire_eq correlation_inv_def btree_wf_filter)
qed

lemma correlation_inv_step: "correlation_inv mx t \<Longrightarrow> correlation_inv mx (fst (correlation_step mx t x))"
  by (cases x) (simp_all add: correlation_insert_inv correlation_complete_inv correlation_expire_inv)

lemma correlation_new_inv: "correlation_inv mx correlation_new"
  by (simp add: correlation_inv_def correlation_new_def btree_wf_def)

lemma issued_mark_insert:
  assumes "ct_next_generation t \<noteq> 0"
  shows "issued_mark t < ct_next_generation t"
    and "(case u64_checked_add (ct_next_generation t) 1 of Some n \<Rightarrow> n | None \<Rightarrow> 0) - 1
         = ct_next_generation t"
proof -
  have "unat (ct_next_generation t - 1) = unat (ct_next_generation t) - 1" "unat (ct_next_generation t) > 0"
    using assms by (simp_all add: unat_minus_one unat_gt_0)
  then show "issued_mark t < ct_next_generation t"
    by (simp add: issued_mark_def word_less_nat_alt)
  show "(case u64_checked_add (ct_next_generation t) 1 of Some n \<Rightarrow> n | None \<Rightarrow> 0) - 1
         = ct_next_generation t"
    using u64_checked_add_1_Some [of "ct_next_generation t"] u64_checked_add_1_None_iff [of "ct_next_generation t"]
    by (auto split: option.split)
qed

lemma correlation_issue:
  "issued_mark t \<le> issued_mark (fst (correlation_step mx t x))
   \<and> (map_option tok_generation (issued_token (snd (correlation_step mx t x))) = Some k \<longrightarrow>
      issued_mark t < k \<and> k \<le> issued_mark (fst (correlation_step mx t x)))"
proof (cases x)
  case (InsertRequest r d v)
  show ?thesis
  proof (cases "ct_next_generation t = 0")
    case True
    then show ?thesis by (simp add: InsertRequest correlation_insert_def)
  next
    case False
    from issued_mark_insert [OF this] show ?thesis
      by (auto simp: InsertRequest correlation_insert_def Let_def issued_mark_def)
  qed
next
  case (CompleteRequest tok)
  then show ?thesis
    by (auto simp: correlation_complete_def issued_mark_def split: option.split)
next
  case (ExpireRequests now)
  then show ?thesis
    by (auto simp: correlation_expire_def issued_mark_def Let_def split: prod.split)
qed

interpretation corr: invariant_machine "correlation_step mx" "\<lambda>t. t = correlation_new" "correlation_inv mx" for mx
  by unfold_locales (simp_all add: correlation_new_inv correlation_inv_step)

interpretation corr_tokens: issuing_machine "correlation_step mx" "\<lambda>t. t = correlation_new" "correlation_inv mx"
    "\<lambda>out. map_option tok_generation (issued_token out)" issued_mark for mx
  by unfold_locales (simp_all add: correlation_issue)

text \<open>Every step moves tokens between the table and the outputs without losing any.\<close>

abbreviation token_list :: "'a correlation_out \<Rightarrow> correlation_token list" where
  "token_list out \<equiv> (case issued_token out of None \<Rightarrow> [] | Some tok \<Rightarrow> [tok])"

lemma mset_filter_split: "mset (filter P xs) + mset (filter (\<lambda>x. \<not> P x) xs) = mset xs"
  by (induction xs) auto

lemma correlation_step_conserves:
  assumes inv: "correlation_inv mx t"
  shows "mset (pending_tokens (fst (correlation_step mx t x)))
       + mset (delivered_tokens (snd (correlation_step mx t x)))
     = mset (pending_tokens t) + mset (token_list (snd (correlation_step mx t x)))"
proof -
  have wf: "btree_wf (ct_pending t)" using inv by (simp add: correlation_inv_def)
  show ?thesis
  proof (cases x)
    case (InsertRequest r d v)
    show ?thesis
    proof (cases "tab_get (ct_pending t) r")
      case None
      show ?thesis
        by (simp add: pending_tokens_def InsertRequest correlation_insert_def Let_def None btree.mset_items_put [OF wf]
            btree.del_absent [OF wf None])
    next
      case Some
      then show ?thesis by (simp add: pending_tokens_def InsertRequest correlation_insert_def)
    qed
  next
    case (CompleteRequest tok)
    show ?thesis
    proof (cases "tab_get (ct_pending t) (tok_request tok)")
      case None
      then show ?thesis by (simp add: CompleteRequest correlation_complete_def)
    next
      case (Some e)
      show ?thesis
        by (cases e) (simp add: pending_tokens_def CompleteRequest correlation_complete_def Some btree.mset_items_del [OF wf Some])
    qed
  next
    case (ExpireRequests now)
    have "mset (pending_tokens t) = image_mset (fst \<circ> snd)
        (mset (filter (\<lambda>e. now < pend_deadline (snd (snd e))) (ct_pending t))
         + mset (filter (\<lambda>e. \<not> now < pend_deadline (snd (snd e))) (ct_pending t)))"
      unfolding mset_filter_split pending_tokens_def by (rule mset_map)
    then show ?thesis
      by (simp add: pending_tokens_def ExpireRequests correlation_expire_eq [OF wf] case_prod_unfold not_less
          image_mset.compositionality comp_def)
  qed
qed

lemma union_exchange:
  assumes "a + b = c + d" and "c + e = f + g"
  shows "a + (e + b) = f + (g + (d :: 'x multiset))"
proof -
  have "a + (e + b) = (a + b) + e" by (simp only: ac_simps)
  also have "\<dots> = (c + e) + d" by (simp only: assms(1) ac_simps)
  finally show ?thesis by (simp only: assms(2) ac_simps)
qed

lemma correlation_run_conserves:
  assumes "correlation_inv mx t"
  shows "mset (pending_tokens (fst (run (correlation_step mx) t xs)))
       + mset (concat (map delivered_tokens (snd (run (correlation_step mx) t xs))))
     = mset (pending_tokens t) + mset (issues issued_token (snd (run (correlation_step mx) t xs)))"
  using assms
proof (induction xs arbitrary: t)
  case (Cons x xs)
  let ?t1 = "fst (correlation_step mx t x)"
  have "mset (pending_tokens (fst (run (correlation_step mx) ?t1 xs)))
       + mset (concat (map delivered_tokens (snd (run (correlation_step mx) ?t1 xs))))
     = mset (pending_tokens ?t1) + mset (issues issued_token (snd (run (correlation_step mx) ?t1 xs)))"
    by (rule Cons.IH) (rule correlation_inv_step [OF Cons.prems])
  from union_exchange [OF this correlation_step_conserves [OF Cons.prems, of x]] show ?case
    by (simp split: option.split)
qed simp

lemma map_issues: "map f (issues g outs) = issues (\<lambda>out. map_option f (g out)) outs"
  by (induction outs) (auto split: option.split)

lemma correlation_complete_iff:
  assumes "correlation_inv mx t"
  shows "is_ok (snd (correlation_complete t tok)) \<longleftrightarrow> tok \<in> set (pending_tokens t)"
proof -
  have wf: "btree_wf (ct_pending t)" and key: "\<And>k tok' p. (k, tok', p) \<in> set (ct_pending t) \<Longrightarrow> tok_request tok' = k"
    using assms by (auto simp: correlation_inv_def)
  have "is_ok (snd (correlation_complete t tok)) \<longleftrightarrow> (\<exists>p. tab_get (ct_pending t) (tok_request tok) = Some (tok, p))"
    by (auto simp: correlation_complete_def split: option.split)
  also have "\<dots> \<longleftrightarrow> (\<exists>p. (tok_request tok, tok, p) \<in> set (ct_pending t))"
    by (simp add: btree.get_Some_iff [OF wf])
  also have "\<dots> \<longleftrightarrow> tok \<in> set (pending_tokens t)"
    using key by (force simp: pending_tokens_def image_iff)
  finally show ?thesis .
qed

lemma correlation_complete_err:
  "is_err (snd (correlation_complete t tok)) \<Longrightarrow> correlation_complete t tok = (t, Err (Unknown tok))"
  by (auto simp: correlation_complete_def split: option.splits if_splits)

text \<open>A pending entry survives every operation that does not complete or expire it.\<close>

fun leaves_alone :: "correlation_token \<Rightarrow> epoch \<Rightarrow> 'a correlation_op \<Rightarrow> bool" where
  "leaves_alone tok d (InsertRequest _ _ _) = True"
| "leaves_alone tok d (CompleteRequest tok') = (tok' \<noteq> tok)"
| "leaves_alone tok d (ExpireRequests now) = (now < d)"

lemma correlation_step_keeps:
  assumes "correlation_inv mx t" and "tab_get (ct_pending t) k = Some (tok, p)"
    and "leaves_alone tok (pend_deadline p) x"
  shows "tab_get (ct_pending (fst (correlation_step mx t x))) k = Some (tok, p)"
proof -
  have wf: "btree_wf (ct_pending t)" using assms(1) by (simp add: correlation_inv_def)
  show ?thesis
  proof (cases x)
    case (InsertRequest r d v)
    with assms(2) show ?thesis
      by (auto simp: correlation_insert_def Let_def btree.get_put [OF wf])
  next
    case (CompleteRequest tok')
    with assms(2,3) show ?thesis
      by (auto simp: correlation_complete_def btree.get_del [OF wf] split: option.split)
  next
    case (ExpireRequests now)
    with assms(2,3) show ?thesis
      by (auto simp: correlation_expire_eq [OF wf] btree.get_Some_iff [OF wf]
          btree.get_Some_iff [OF btree_wf_filter [OF wf]])
  qed
qed

lemma correlation_run_keeps:
  assumes "correlation_inv mx t" and "tab_get (ct_pending t) k = Some (tok, p)"
    and "list_all (leaves_alone tok (pend_deadline p)) xs"
  shows "tab_get (ct_pending (fst (run (correlation_step mx) t xs))) k = Some (tok, p)"
  using assms
  by (induction xs arbitrary: t) (simp_all add: correlation_inv_step correlation_step_keeps)

section \<open>Properties\<close>

text \<open>
  C17. Every request is answered at most once. Over any run of inserts, completions and
  expiries the issued tokens are pairwise distinct, with strictly increasing generations, and
  they are, as a multiset, the tokens still pending and the tokens already completed or expired.
\<close>

theorem correlation_exactly_once:
  "sorted_wrt (<) (map tok_generation (issues issued_token (outputs_after mx xs)))
    \<and> mset (issues issued_token (outputs_after mx xs))
      = mset (pending_tokens (table_after mx xs)) + mset (concat (map delivered_tokens (outputs_after mx xs)))"
  using corr_tokens.issues_increasing [OF correlation_new_inv, where es = xs]
    correlation_run_conserves [OF correlation_new_inv, of mx xs]
  by (simp add: map_issues pending_tokens_def correlation_new_def)

text \<open>
  C18. A stale token never reaches a newer request. After any run, completing a token that
  was never issued, or that was already completed or expired, is an error that leaves the
  table as it is, even when the same request identifier is pending again.
\<close>

theorem correlation_stale_token:
  assumes "tok \<notin> set (issues issued_token (outputs_after mx xs))
    \<or> tok \<in> set (concat (map delivered_tokens (outputs_after mx xs)))"
  shows "correlation_complete (table_after mx xs) tok = (table_after mx xs, Err (Unknown tok))"
proof -
  let ?t = "table_after mx xs" and ?outs = "outputs_after mx xs"
  let ?issued = "issues issued_token ?outs" and ?done = "concat (map delivered_tokens ?outs)"
  have "distinct (map tok_generation ?issued)"
    using corr_tokens.issues_distinct [OF correlation_new_inv, where es = xs]
    by (simp add: map_issues)
  then have "distinct ?issued" by (simp add: distinct_map)
  moreover have "mset ?issued = mset (pending_tokens ?t @ ?done)"
    using correlation_run_conserves [OF correlation_new_inv, of mx xs]
    by (simp add: pending_tokens_def correlation_new_def)
  ultimately have "distinct (pending_tokens ?t @ ?done)" "set ?issued = set (pending_tokens ?t) \<union> set ?done"
    by (metis mset_eq_imp_distinct_iff) (metis \<open>mset ?issued = _\<close> set_append set_mset_mset)
  with assms have "tok \<notin> set (pending_tokens ?t)" by auto
  moreover have "correlation_inv mx ?t" by (rule corr.inv_run) (rule correlation_new_inv)
  ultimately show ?thesis by (simp only: correlation_complete_err correlation_complete_iff not_False_eq_True)
qed

text \<open>
  C19. An accepted request can be completed until its deadline: after any run, and after any
  further operations that neither complete that token nor expire its deadline, \<open>complete\<close>
  returns the stored deadline and value.
\<close>

theorem correlation_round_trip:
  assumes "correlation_insert mx (table_after mx xs) r d v = (t, Ok tok)"
    and "list_all (leaves_alone tok d) ys"
  shows "snd (correlation_complete (fst (run (correlation_step mx) t ys)) tok)
    = Ok \<lparr>pend_deadline = d, pend_value = v\<rparr>"
proof -
  let ?t0 = "table_after mx xs"
  have inv: "correlation_inv mx ?t0" by (rule corr.inv_run) (rule correlation_new_inv)
  then have inv': "correlation_inv mx t" using correlation_insert_inv [of mx ?t0 r d v] assms(1) by simp
  have wf: "btree_wf (ct_pending ?t0)" using inv by (simp add: correlation_inv_def)
  have "tab_get (ct_pending t) r = Some (tok, \<lparr>pend_deadline = d, pend_value = v\<rparr>)" and r: "tok_request tok = r"
    using assms(1) by (auto simp: correlation_insert_def Let_def btree.get_put [OF wf] split: if_splits)
  from correlation_run_keeps [OF inv' this(1), of ys] assms(2) r
  show ?thesis by (simp add: correlation_complete_def)
qed

text \<open>After any run, \<open>expire\<close> splits the pending requests by the deadline: the returned
  vector holds exactly the entries whose deadline is at or before \<open>now\<close>, in strictly
  increasing order of request identifier and at most \<open>MAX\<close> of them, and exactly the others
  stay.
\<close>

lemma correlation_expire_splits:
  "(\<exists>expired. snd (correlation_expire (table_after mx xs) now) = BoundedVec expired
      \<and> set expired = {(tok, p). (tok_request tok, tok, p) \<in> set (ct_pending (table_after mx xs)) \<and> pend_deadline p \<le> now}
      \<and> sorted_wrt (<) (map (tok_request \<circ> fst) expired) \<and> length expired \<le> mx)
    \<and> set (ct_pending (fst (correlation_expire (table_after mx xs) now)))
      = {(k, tok, p). (k, tok, p) \<in> set (ct_pending (table_after mx xs)) \<and> now < pend_deadline p}"
proof -
  let ?t = "table_after mx xs" and ?outs = "outputs_after mx xs"
  have inv: "correlation_inv mx ?t" by (rule corr.inv_run) (rule correlation_new_inv)
  then have wf: "btree_wf (ct_pending ?t)" and len: "length (ct_pending ?t) \<le> mx"
    and key: "\<And>k tok p. (k, tok, p) \<in> set (ct_pending ?t) \<Longrightarrow> tok_request tok = k"
    by (auto simp: correlation_inv_def)
  let ?due = "filter (\<lambda>(_, _, p). pend_deadline p \<le> now) (ct_pending ?t)"
  have "map (tok_request \<circ> fst) (map snd ?due) = map fst ?due"
    using key by auto
  then have "sorted_wrt (<) (map (tok_request \<circ> fst) (map snd ?due))"
    by (simp only: btree_wf_sorted [OF btree_wf_filter [OF wf]])
  moreover have "length (map snd ?due) \<le> mx"
    using len by (simp add: order.trans [OF length_filter_le])
  moreover have "set (map snd ?due)
      = {(tok, p). (tok_request tok, tok, p) \<in> set (ct_pending ?t) \<and> pend_deadline p \<le> now}"
    using key by (force simp: image_iff)
  ultimately show ?thesis
    by (auto simp: correlation_expire_eq [OF wf])
qed

section \<open>Witnesses\<close>

text \<open>Request 7 is answered, then inserted again; its first token is stale.\<close>

definition reuse_ops :: "nat correlation_op list" where
  "reuse_ops = [InsertRequest 7 10 100, CompleteRequest \<lparr>tok_request = 7, tok_generation = 1\<rparr>,
     InsertRequest 7 20 200]"

lemmas correlation_eval = correlation_new_def correlation_insert_def correlation_complete_def
  btree_insert.simps tab_get_def tab_remove_def u64_checked_add_def Let_def

lemma reuse_ops_run:
  "run (correlation_step 4) correlation_new reuse_ops =
     (\<lparr>ct_pending = [(7, \<lparr>tok_request = 7, tok_generation = 2\<rparr>, \<lparr>pend_deadline = 20, pend_value = 200\<rparr>)],
       ct_next_generation = 3\<rparr>,
      [Inserted (Ok \<lparr>tok_request = 7, tok_generation = 1\<rparr>),
       Completed \<lparr>tok_request = 7, tok_generation = 1\<rparr> (Ok \<lparr>pend_deadline = 10, pend_value = 100\<rparr>),
       Inserted (Ok \<lparr>tok_request = 7, tok_generation = 2\<rparr>)])"
  by (simp add: reuse_ops_def run.simps(2) correlation_eval)

theorem correlation_stale_token_witness:
  "tab_get (ct_pending (table_after 4 reuse_ops)) 7 \<noteq> None
   \<and> snd (correlation_complete (table_after 4 reuse_ops) \<lparr>tok_request = 7, tok_generation = 1\<rparr>)
     = Err (Unknown \<lparr>tok_request = 7, tok_generation = 1\<rparr>)"
  using correlation_stale_token [of "\<lparr>tok_request = 7, tok_generation = 1\<rparr>" 4 reuse_ops]
  by (simp add: reuse_ops_run tab_get_def)

theorem correlation_round_trip_witness:
  "snd (correlation_complete
      (fst (run (correlation_step 4) (fst (correlation_insert 4 (table_after 4 reuse_ops) 9 30 (300 :: nat)))
         [CompleteRequest \<lparr>tok_request = 7, tok_generation = 2\<rparr>, ExpireRequests 25]))
      \<lparr>tok_request = 9, tok_generation = 3\<rparr>)
   = Ok \<lparr>pend_deadline = 30, pend_value = 300\<rparr>"
proof (rule correlation_round_trip)
  show "correlation_insert 4 (table_after 4 reuse_ops) 9 30 300
      = (fst (correlation_insert 4 (table_after 4 reuse_ops) 9 30 300), Ok \<lparr>tok_request = 9, tok_generation = 3\<rparr>)"
    unfolding reuse_ops_run by (simp add: correlation_eval)
qed simp

end
