(* ===== verification/Wire.thy ===== *)
theory Wire
  imports Prelude
begin

text \<open>
  The bounded binary wire (\<open>crates/oxiroute-supervision/src/wire.rs\<close>): a big-endian writer
  that never exceeds its byte bound and a reader over one payload. Encoders are writer
  actions, decoders are reader actions; \<open>write_all\<close> and \<open>read_bind\<close> sequence them the way
  the source does with \<open>?\<close>.

  \<open>try_reserve_exact\<close> fails when the allocator cannot grow the buffer. The writer carries the
  largest buffer the allocator grants, \<open>ww_limit\<close>: an encoder stops at its first failure, so
  some limit describes every way an allocation can fail. On success the source's buffer and the
  model's have the same bytes.

  The locale \<open>wire_codec\<close> is the contract of one encoded type: its encoder appends exactly the
  value's image, for the values it accepts, and its decoder consumes exactly that image, for the
  valid values. Round trips, canonical encodings and
  prefix freedom are proved from the contract.
\<close>

section \<open>Big-endian integers\<close>

fun be_bytes :: "nat \<Rightarrow> nat \<Rightarrow> bytes" where
  "be_bytes 0 x = []"
| "be_bytes (Suc n) x = be_bytes n (x div 256) @ [of_nat (x mod 256)]"

definition be_value :: "bytes \<Rightarrow> nat" where
  "be_value bs = foldl (\<lambda>acc b. acc * 256 + unat b) 0 bs"

definition u8_to_be_bytes :: "u8 \<Rightarrow> bytes" where "u8_to_be_bytes v = [v]"
definition u16_to_be_bytes :: "u16 \<Rightarrow> bytes" where "u16_to_be_bytes v = be_bytes 2 (unat v)"
definition u32_to_be_bytes :: "u32 \<Rightarrow> bytes" where "u32_to_be_bytes v = be_bytes 4 (unat v)"
definition u64_to_be_bytes :: "u64 \<Rightarrow> bytes" where "u64_to_be_bytes v = be_bytes 8 (unat v)"
definition u16_from_be_bytes :: "bytes \<Rightarrow> u16" where "u16_from_be_bytes bs = of_nat (be_value bs)"
definition u32_from_be_bytes :: "bytes \<Rightarrow> u32" where "u32_from_be_bytes bs = of_nat (be_value bs)"
definition u64_from_be_bytes :: "bytes \<Rightarrow> u64" where "u64_from_be_bytes bs = of_nat (be_value bs)"

definition u16_try_from :: "usize \<Rightarrow> u16 option" where
  "u16_try_from n = (if n < 2 ^ 16 then Some (of_nat n) else None)"

definition u32_try_from :: "usize \<Rightarrow> u32 option" where
  "u32_try_from n = (if n < 2 ^ 32 then Some (of_nat n) else None)"

section \<open>Writer\<close>

record 'e wire_protocol =
  wire_invalid :: 'e
  wire_too_large :: "usize \<Rightarrow> usize \<Rightarrow> 'e"
  wire_allocation :: 'e

record 'e wire_writer =
  ww_bytes :: bytes
  ww_maximum :: usize
  ww_protocol :: "'e wire_protocol"
  ww_limit :: usize

type_synonym 'e writing = "'e wire_writer \<Rightarrow> 'e wire_writer \<times> ('e, unit) result"

definition writer_new :: "'e wire_protocol \<Rightarrow> usize \<Rightarrow> usize \<Rightarrow> 'e wire_writer" where
  "writer_new p limit maximum =
     \<lparr>ww_bytes = [], ww_maximum = maximum, ww_protocol = p, ww_limit = limit\<rparr>"

definition writer_bytes :: "bytes \<Rightarrow> 'e writing" where
  "writer_bytes v w =
     (case usize_checked_add (length (ww_bytes w)) (length v) of
        None \<Rightarrow> (w, Err (wire_too_large (ww_protocol w) usize_max (ww_maximum w)))
      | Some nxt \<Rightarrow>
          if nxt > ww_maximum w then (w, Err (wire_too_large (ww_protocol w) nxt (ww_maximum w)))
          else if nxt > ww_limit w then (w, Err (wire_allocation (ww_protocol w)))
          else (w\<lparr>ww_bytes := ww_bytes w @ v\<rparr>, Ok ()))"

definition writer_u8 :: "u8 \<Rightarrow> 'e writing" where "writer_u8 v = writer_bytes (u8_to_be_bytes v)"
definition writer_u16 :: "u16 \<Rightarrow> 'e writing" where "writer_u16 v = writer_bytes (u16_to_be_bytes v)"
definition writer_u32 :: "u32 \<Rightarrow> 'e writing" where "writer_u32 v = writer_bytes (u32_to_be_bytes v)"
definition writer_u64 :: "u64 \<Rightarrow> 'e writing" where "writer_u64 v = writer_bytes (u64_to_be_bytes v)"

fun write_all :: "'e writing list \<Rightarrow> 'e writing" where
  "write_all [] w = (w, Ok ())"
| "write_all (a # as) w = seq_bind (a w) (\<lambda>w' _. write_all as w')"

definition write_fail :: "'e \<Rightarrow> 'e writing" where
  "write_fail e w = (w, Err e)"

definition writer_length_prefixed :: "bytes \<Rightarrow> 'e writing" where
  "writer_length_prefixed v w =
     (case u32_try_from (length v) of
        None \<Rightarrow> (w, Err (wire_invalid (ww_protocol w)))
      | Some len \<Rightarrow> write_all [writer_u32 len, writer_bytes v] w)"

text \<open>A collection length as a checked \<open>u16\<close>.\<close>

definition writer_count :: "'e \<Rightarrow> usize \<Rightarrow> 'e writing" where
  "writer_count e n = (case u16_try_from n of None \<Rightarrow> write_fail e | Some c \<Rightarrow> writer_u16 c)"

definition writer_finish :: "'e wire_writer \<Rightarrow> bytes" where
  "writer_finish w = ww_bytes w"

section \<open>Reader\<close>

record 'e wire_reader =
  wr_bytes :: bytes
  wr_position :: usize
  wr_protocol :: "'e wire_protocol"

type_synonym ('e, 'a) reading = "'e wire_reader \<Rightarrow> 'e wire_reader \<times> ('e, 'a) result"

definition reader_new :: "'e wire_protocol \<Rightarrow> bytes \<Rightarrow> 'e wire_reader" where
  "reader_new p bs = \<lparr>wr_bytes = bs, wr_position = 0, wr_protocol = p\<rparr>"

definition reader_bytes :: "usize \<Rightarrow> ('e, bytes) reading" where
  "reader_bytes len r =
     (case usize_checked_add (wr_position r) len of
        None \<Rightarrow> (r, Err (wire_invalid (wr_protocol r)))
      | Some endp \<Rightarrow>
          if endp \<le> length (wr_bytes r)
          then (r\<lparr>wr_position := endp\<rparr>, Ok (take len (drop (wr_position r) (wr_bytes r))))
          else (r, Err (wire_invalid (wr_protocol r))))"

definition read_bind :: "('e, 'a) reading \<Rightarrow> ('a \<Rightarrow> ('e, 'b) reading) \<Rightarrow> ('e, 'b) reading" where
  "read_bind m k r = seq_bind (m r) (\<lambda>r' a. k a r')"

definition read_ok :: "'a \<Rightarrow> ('e, 'a) reading" where "read_ok a r = (r, Ok a)"
definition read_fail :: "'e \<Rightarrow> ('e, 'a) reading" where "read_fail e r = (r, Err e)"

fun read_many :: "nat \<Rightarrow> ('e, 'a) reading \<Rightarrow> ('e, 'a list) reading" where
  "read_many 0 get = read_ok []"
| "read_many (Suc n) get = read_bind get (\<lambda>x. read_bind (read_many n get) (\<lambda>xs. read_ok (x # xs)))"

definition read_result :: "('e, 'a) result \<Rightarrow> ('e, 'a) reading" where
  "read_result res r = (r, res)"

definition reader_u8 :: "('e, u8) reading" where
  "reader_u8 = read_bind (reader_bytes 1) (\<lambda>bs. read_ok (bs ! 0))"

definition reader_u16 :: "('e, u16) reading" where
  "reader_u16 = read_bind (reader_bytes 2) (\<lambda>bs. read_ok (u16_from_be_bytes bs))"

definition reader_u32 :: "('e, u32) reading" where
  "reader_u32 = read_bind (reader_bytes 4) (\<lambda>bs. read_ok (u32_from_be_bytes bs))"

definition reader_u64 :: "('e, u64) reading" where
  "reader_u64 = read_bind (reader_bytes 8) (\<lambda>bs. read_ok (u64_from_be_bytes bs))"

definition reader_length_prefixed :: "('e, bytes) reading" where
  "reader_length_prefixed = read_bind reader_u32 (\<lambda>len. reader_bytes (unat len))"

definition reader_finish :: "'e wire_reader \<Rightarrow> ('e, unit) result" where
  "reader_finish r =
     (if wr_position r = length (wr_bytes r) then Ok () else Err (wire_invalid (wr_protocol r)))"

section \<open>Specification\<close>

text \<open>\<open>appends w bs w'\<close>: the writer had room for \<open>bs\<close> and holds it now.
  \<open>consumes r bs r'\<close>: the unread part started with \<open>bs\<close> and the reader stands behind it.\<close>

definition appends :: "'e wire_writer \<Rightarrow> bytes \<Rightarrow> 'e wire_writer \<Rightarrow> bool" where
  "appends w bs w' \<longleftrightarrow>
     length (ww_bytes w) + length bs \<le> min usize_max (min (ww_maximum w) (ww_limit w))
     \<and> w' = w\<lparr>ww_bytes := ww_bytes w @ bs\<rparr>"

definition consumes :: "'e wire_reader \<Rightarrow> bytes \<Rightarrow> 'e wire_reader \<Rightarrow> bool" where
  "consumes r bs r' \<longleftrightarrow>
     wr_position r + length bs \<le> min usize_max (length (wr_bytes r))
     \<and> take (length bs) (drop (wr_position r) (wr_bytes r)) = bs
     \<and> r' = r\<lparr>wr_position := wr_position r + length bs\<rparr>"

named_theorems wire_put \<open>when an encoder succeeds\<close>
named_theorems wire_get \<open>when a decoder succeeds\<close>

section \<open>Sequencing\<close>

lemma seq_bind_Ok:
  "seq_bind m k = (s, Ok b) \<longleftrightarrow> (\<exists>s1 a. m = (s1, Ok a) \<and> k s1 a = (s, Ok b))"
  by (cases m; cases "snd m") auto

lemma write_all_Ok [wire_put]:
  "write_all [] w = (w', Ok ()) \<longleftrightarrow> w' = w"
  "write_all (a # as) w = (w', Ok ()) \<longleftrightarrow> (\<exists>w1. a w = (w1, Ok ()) \<and> write_all as w1 = (w', Ok ()))"
  by (auto simp: seq_bind_Ok)

lemma write_fail_Ok [wire_put]: "write_fail e w = (w', Ok ()) \<longleftrightarrow> False"
  by (simp add: write_fail_def)

lemma read_bind_Ok [wire_get]:
  "read_bind m k r = (r', Ok b) \<longleftrightarrow> (\<exists>a r1. m r = (r1, Ok a) \<and> k a r1 = (r', Ok b))"
  by (auto simp: read_bind_def seq_bind_Ok)

lemma read_ok_Ok [wire_get]: "read_ok a r = (r', Ok b) \<longleftrightarrow> r' = r \<and> b = a"
  by (auto simp: read_ok_def)

lemma read_fail_Ok [wire_get]: "read_fail e r = (r', Ok b) \<longleftrightarrow> False"
  by (simp add: read_fail_def)

lemma read_result_Ok [wire_get]: "read_result res r = (r', Ok a) \<longleftrightarrow> r' = r \<and> res = Ok a"
  by (auto simp: read_result_def)

lemma read_if_Ok [wire_get]:
  "(if c then m else n) r = (r', Ok b) \<longleftrightarrow> c \<and> m r = (r', Ok b) \<or> \<not> c \<and> n r = (r', Ok b)"
  by simp

lemma appends_append: "appends w (xs @ ys) w' \<longleftrightarrow> (\<exists>w1. appends w xs w1 \<and> appends w1 ys w')"
  by (auto simp: appends_def)

lemma consumes_append: "consumes r (xs @ ys) r' \<longleftrightarrow> (\<exists>r1. consumes r xs r1 \<and> consumes r1 ys r')"
  by (auto simp: consumes_def take_add append_eq_append_conv add.commute)

lemma consumes_inj:
  "consumes r xs r' \<Longrightarrow> consumes r xs r'' \<Longrightarrow> r' = r''"
  by (simp add: consumes_def)

lemma writer_bytes_Ok [wire_put]: "writer_bytes v w = (w', Ok ()) \<longleftrightarrow> appends w v w'"
  by (auto simp: writer_bytes_def appends_def usize_checked_add_def)

lemma reader_bytes_Ok [wire_get]:
  "reader_bytes n r = (r', Ok v) \<longleftrightarrow> length v = n \<and> consumes r v r'"
  by (auto simp: reader_bytes_def consumes_def usize_checked_add_def)

section \<open>Composition\<close>

text \<open>
  \<open>puts m P bs\<close>: on a writer within its bounds, \<open>m\<close> succeeds exactly when \<open>P\<close> holds and there is
  room, and then it appended \<open>bs\<close>. \<open>gets m S\<close>: on a reader inside its payload, \<open>m\<close> returns \<open>a\<close>
  exactly when it stands before some \<open>bs\<close> with \<open>S a bs\<close>, which it then consumed. Both compose along
  the sequencing of the code; the rules are collected for \<open>intro\<close>.
\<close>

definition writer_ok :: "'e wire_writer \<Rightarrow> bool" where
  "writer_ok w \<longleftrightarrow> length (ww_bytes w) \<le> min usize_max (min (ww_maximum w) (ww_limit w))"

definition reader_ok :: "'e wire_reader \<Rightarrow> bool" where
  "reader_ok r \<longleftrightarrow> wr_position r \<le> min usize_max (length (wr_bytes r))"

definition puts :: "'e writing \<Rightarrow> bool \<Rightarrow> bytes \<Rightarrow> bool" where
  "puts m P bs \<longleftrightarrow> (\<forall>w w'. writer_ok w \<longrightarrow> (m w = (w', Ok ()) \<longleftrightarrow> P \<and> appends w bs w'))"

definition gets :: "('e, 'a) reading \<Rightarrow> ('a \<Rightarrow> bytes \<Rightarrow> bool) \<Rightarrow> bool" where
  "gets m S \<longleftrightarrow> (\<forall>r r' a. reader_ok r \<longrightarrow> (m r = (r', Ok a) \<longleftrightarrow> (\<exists>bs. S a bs \<and> consumes r bs r')))"

named_theorems wire_puts \<open>composition of encoders\<close>
named_theorems wire_gets \<open>composition of decoders\<close>

lemma appends_ok: "appends w bs w' \<Longrightarrow> writer_ok w'"
  by (auto simp: appends_def writer_ok_def)

lemma consumes_ok: "consumes r bs r' \<Longrightarrow> reader_ok r'"
  by (auto simp: consumes_def reader_ok_def)

lemma appends_Nil: "writer_ok w \<Longrightarrow> appends w [] w' \<longleftrightarrow> w' = w"
  by (auto simp: appends_def writer_ok_def)

lemma consumes_Nil: "reader_ok r \<Longrightarrow> consumes r [] r' \<longleftrightarrow> r' = r"
  by (auto simp: consumes_def reader_ok_def)

lemma putsI: "(\<And>w w'. m w = (w', Ok ()) \<longleftrightarrow> P \<and> appends w bs w') \<Longrightarrow> puts m P bs"
  by (simp add: puts_def)

lemma getsI: "(\<And>r r' a. m r = (r', Ok a) \<longleftrightarrow> V a \<and> consumes r (im a) r') \<Longrightarrow> gets m (\<lambda>a bs. V a \<and> bs = im a)"
  by (simp add: gets_def)

lemma puts_cong: "puts m P bs \<Longrightarrow> P = Q \<Longrightarrow> (Q \<Longrightarrow> bs = cs) \<Longrightarrow> puts m Q cs"
  by (auto simp: puts_def)

lemma gets_cong: "gets m S \<Longrightarrow> (\<And>a bs. S a bs \<longleftrightarrow> T a bs) \<Longrightarrow> gets m T"
  by (simp add: gets_def)

lemma puts_Nil [wire_puts]: "puts (write_all []) True []"
  by (auto simp: puts_def appends_Nil)

lemma puts_Cons [wire_puts]:
  assumes "puts m P bs" and "puts (write_all ms) Q cs"
  shows "puts (write_all (m # ms)) (P \<and> Q) (bs @ cs)"
  unfolding puts_def write_all_Ok appends_append
proof (intro allI impI)
  fix w w' :: "'a wire_writer" assume "writer_ok w"
  with assms(1) have m: "\<And>w1. m w = (w1, Ok ()) \<longleftrightarrow> P \<and> appends w bs w1" by (simp add: puts_def)
  from assms(2) have ms: "\<And>w1. writer_ok w1 \<Longrightarrow> write_all ms w1 = (w', Ok ()) \<longleftrightarrow> Q \<and> appends w1 cs w'"
    by (simp add: puts_def)
  show "(\<exists>w1. m w = (w1, Ok ()) \<and> write_all ms w1 = (w', Ok ()))
      \<longleftrightarrow> (P \<and> Q) \<and> (\<exists>w1. appends w bs w1 \<and> appends w1 cs w')"
    unfolding m using ms appends_ok by blast
qed

lemma puts_fail [wire_puts]: "puts (write_fail e) False bs"
  by (simp add: puts_def wire_put)

lemma puts_if: "(c \<Longrightarrow> puts m P bs) \<Longrightarrow> (\<not> c \<Longrightarrow> puts n Q bs) \<Longrightarrow> puts (if c then m else n) (if c then P else Q) bs"
  by simp

lemma puts_bytes [wire_puts]: "puts (writer_bytes v) True v"
  by (rule putsI) (simp add: wire_put)

lemma puts_all:
  "(\<And>a. a \<in> set as \<Longrightarrow> puts (put a) (A a) (im a)) \<Longrightarrow>
     puts (write_all (map put as)) (list_all A as) (concat (map im as))"
proof (induction as)
  case Nil
  show ?case by (auto simp: puts_def appends_Nil)
next
  case (Cons a as)
  then have "puts (write_all (put a # map put as)) (A a \<and> list_all A as) (im a @ concat (map im as))"
    by (intro puts_Cons) simp_all
  then show ?case by (simp del: write_all.simps)
qed

lemma gets_bind [wire_gets]:
  assumes "gets m S" and "\<And>a. gets (k a) (T a)"
  shows "gets (read_bind m k) (\<lambda>b bs. \<exists>a xs ys. S a xs \<and> T a b ys \<and> bs = xs @ ys)"
  unfolding gets_def read_bind_Ok
proof (intro allI impI)
  fix r r' :: "'a wire_reader" and b assume "reader_ok r"
  with assms(1) have m: "\<And>a r1. m r = (r1, Ok a) \<longleftrightarrow> (\<exists>xs. S a xs \<and> consumes r xs r1)" by (simp add: gets_def)
  from assms(2) have k: "\<And>a r1. reader_ok r1 \<Longrightarrow> k a r1 = (r', Ok b) \<longleftrightarrow> (\<exists>ys. T a b ys \<and> consumes r1 ys r')"
    by (simp add: gets_def)
  have "(\<exists>a r1. m r = (r1, Ok a) \<and> k a r1 = (r', Ok b))
      \<longleftrightarrow> (\<exists>a r1 xs ys. S a xs \<and> consumes r xs r1 \<and> T a b ys \<and> consumes r1 ys r')"
    unfolding m using k consumes_ok by blast
  moreover have "(\<exists>bs. (\<exists>a xs ys. S a xs \<and> T a b ys \<and> bs = xs @ ys) \<and> consumes r bs r')
      \<longleftrightarrow> (\<exists>a xs ys. S a xs \<and> T a b ys \<and> (\<exists>r1. consumes r xs r1 \<and> consumes r1 ys r'))"
    unfolding consumes_append [symmetric] by blast
  ultimately show "(\<exists>a r1. m r = (r1, Ok a) \<and> k a r1 = (r', Ok b))
      \<longleftrightarrow> (\<exists>bs. (\<exists>a xs ys. S a xs \<and> T a b ys \<and> bs = xs @ ys) \<and> consumes r bs r')"
    by blast
qed

lemma gets_ok [wire_gets]: "gets (read_ok b) (\<lambda>a bs. a = b \<and> bs = [])"
  by (auto simp: gets_def wire_get consumes_Nil)

lemma gets_fail [wire_gets]: "gets (read_fail e) (\<lambda>a bs. False)"
  by (simp add: gets_def wire_get)

lemma gets_result [wire_gets]: "gets (read_result res) (\<lambda>a bs. res = Ok a \<and> bs = [])"
  by (auto simp: gets_def wire_get consumes_Nil)

lemma gets_if [wire_gets]:
  "gets m S \<Longrightarrow> gets n T \<Longrightarrow> gets (if c then m else n) (\<lambda>a bs. c \<and> S a bs \<or> \<not> c \<and> T a bs)"
  by (simp add: gets_def)

lemma gets_bytes [wire_gets]: "gets (reader_bytes n) (\<lambda>a bs. length a = n \<and> bs = a)"
  by (rule getsI) (simp add: wire_get)

lemma gets_many [wire_gets]:
  assumes "gets m (\<lambda>a bs. V a \<and> bs = im a)"
  shows "gets (read_many n m) (\<lambda>as bs. (length as = n \<and> list_all V as) \<and> bs = concat (map im as))"
proof (induction n)
  case 0
  show ?case by (auto simp: gets_def wire_get consumes_Nil)
next
  case (Suc n)
  show ?case
    unfolding read_many.simps
    by (rule gets_cong, (rule wire_gets assms Suc)+) (auto simp: length_Suc_conv)
qed

section \<open>Big-endian lemmas\<close>

lemma length_be_bytes [simp]: "length (be_bytes n x) = n"
  by (induction n arbitrary: x) auto

lemma be_bytes_numeral:
  "be_bytes (numeral k) x = be_bytes (pred_numeral k) (x div 256) @ [of_nat (x mod 256)]"
  by (simp only: numeral_eq_Suc be_bytes.simps)

lemma unat_u8_mod: "unat (of_nat (x mod 256) :: u8) = x mod 256"
  by (simp add: unat_of_nat)

lemma be_value_snoc: "be_value (bs @ [b]) = be_value bs * 256 + unat b"
  by (simp add: be_value_def)

lemma be_value_be_bytes: "x < 256 ^ n \<Longrightarrow> be_value (be_bytes n x) = x"
proof (induction n arbitrary: x)
  case (Suc n)
  then have "x div 256 < 256 ^ n" by (simp add: less_mult_imp_div_less mult.commute)
  with Suc.IH show ?case by (simp add: be_value_snoc unat_u8_mod)
qed (simp add: be_value_def)

lemma unat_u8_bound: "unat (b :: u8) < 256"
  using unsigned_less [of b] by simp

lemma be_bytes_be_value: "be_bytes (length bs) (be_value bs) = bs"
proof (induction bs rule: rev_induct)
  case (snoc b bs)
  have "(be_value bs * 256 + unat b) div 256 = be_value bs"
    "(be_value bs * 256 + unat b) mod 256 = unat b"
    using unat_u8_bound [of b] by (simp_all add: div_add1_eq mod_add_eq)
  with snoc.IH show ?case by (simp add: be_value_snoc)
qed simp

lemma be_value_bound: "be_value bs < 256 ^ length bs"
proof (induction bs rule: rev_induct)
  case (snoc b bs)
  have "be_value bs * 256 + unat b < (be_value bs + 1) * 256"
    using unat_u8_bound [of b] by simp
  also have "\<dots> \<le> 256 ^ length bs * 256"
    using snoc.IH by (intro mult_right_mono) auto
  finally show ?case by (simp add: be_value_snoc)
qed (simp add: be_value_def)

lemma word_be_iff:
  fixes v :: "'a :: len word"
  assumes "LENGTH('a) = 8 * n"
  shows "length bs = n \<and> of_nat (be_value bs) = v \<longleftrightarrow> bs = be_bytes n (unat v)"
proof
  have pow: "(256 :: nat) ^ n = 2 ^ LENGTH('a)" by (simp add: assms power_mult)
  {
    assume bs: "length bs = n \<and> of_nat (be_value bs) = v"
    then have "unat v = be_value bs"
      using be_value_bound [of bs] pow by (auto simp: unat_of_nat)
    with bs be_bytes_be_value [of bs] show "bs = be_bytes n (unat v)" by simp
  next
    assume "bs = be_bytes n (unat v)"
    moreover have "unat v < 256 ^ n" unfolding pow by (rule unsigned_less)
    ultimately show "length bs = n \<and> of_nat (be_value bs) = v" by (simp add: be_value_be_bytes)
  }
qed

lemma be_iffs:
  "length bs = 2 \<and> u16_from_be_bytes bs = h \<longleftrightarrow> bs = u16_to_be_bytes h"
  "length bs = 4 \<and> u32_from_be_bytes bs = i \<longleftrightarrow> bs = u32_to_be_bytes i"
  "length bs = 8 \<and> u64_from_be_bytes bs = l \<longleftrightarrow> bs = u64_to_be_bytes l"
  unfolding u16_from_be_bytes_def u32_from_be_bytes_def u64_from_be_bytes_def
    u16_to_be_bytes_def u32_to_be_bytes_def u64_to_be_bytes_def
  by (rule word_be_iff; simp)+

lemma length_be [simp]:
  "length (u8_to_be_bytes b) = 1" "length (u16_to_be_bytes h) = 2"
  "length (u32_to_be_bytes i) = 4" "length (u64_to_be_bytes l) = 8"
  by (simp_all add: u8_to_be_bytes_def u16_to_be_bytes_def u32_to_be_bytes_def u64_to_be_bytes_def)

section \<open>The contract of an encoded type\<close>

locale wire_codec =
  fixes put :: "'a \<Rightarrow> 'e writing"
    and get :: "('e, 'a) reading"
    and accepts :: "'a \<Rightarrow> bool"
    and valid :: "'a \<Rightarrow> bool"
    and image :: "'a \<Rightarrow> bytes"
  assumes put: "puts (put a) (accepts a) (image a)"
    and get: "gets get (\<lambda>a bs. valid a \<and> bs = image a)"
    and valid_accepts: "valid a \<Longrightarrow> accepts a"
begin

lemma put_iff: "writer_ok w \<Longrightarrow> put a w = (w', Ok ()) \<longleftrightarrow> accepts a \<and> appends w (image a) w'"
  using put by (simp add: puts_def)

lemma get_iff: "reader_ok r \<Longrightarrow> get r = (r', Ok a) \<longleftrightarrow> valid a \<and> consumes r (image a) r'"
  using get by (simp add: gets_def)

text \<open>What the encoder wrote, the decoder reads back, wherever it stands in a payload.\<close>

lemma round_trip:
  assumes "put a w = (w', Ok ())" and "valid a" and "writer_ok w" and "wr_bytes r = ww_bytes w' @ rest"
    and "wr_position r = length (ww_bytes w)" and "length (wr_bytes r) \<le> usize_max"
  shows "get r = (r\<lparr>wr_position := length (ww_bytes w')\<rparr>, Ok a)"
proof -
  have w: "appends w (image a) w'" using assms(1,3) by (simp add: put_iff)
  then have "reader_ok r" using assms(4-6) by (auto simp: reader_ok_def appends_def)
  then show ?thesis using w assms(2,4-6) by (auto simp: get_iff appends_def consumes_def)
qed

text \<open>What the decoder accepted is what the encoder writes: encodings are canonical.\<close>

lemma canonical:
  assumes "get r = (r', Ok a)" and "reader_ok r"
    and "length (ww_bytes w) + length (wr_bytes r) \<le> min usize_max (min (ww_maximum w) (ww_limit w))"
  shows "put a w = (w\<lparr>ww_bytes := ww_bytes w @ take (wr_position r' - wr_position r) (drop (wr_position r) (wr_bytes r))\<rparr>, Ok ())"
proof -
  have "valid a" "consumes r (image a) r'" using assms(1,2) by (simp_all add: get_iff)
  moreover have "writer_ok w" using assms(3) by (simp add: writer_ok_def)
  ultimately show ?thesis using assms(3) valid_accepts by (auto simp: put_iff appends_def consumes_def)
qed

text \<open>No encoding is a proper prefix of another.\<close>

lemma prefix_free:
  assumes "valid a" "valid b" and "image a @ xs = image b @ ys" and "length (image a @ xs) \<le> usize_max"
  shows "a = b \<and> xs = ys"
proof -
  define r :: "'e wire_reader" where
    "r = \<lparr>wr_bytes = image a @ xs, wr_position = 0, wr_protocol = undefined\<rparr>"
  have "consumes r (image a) (r\<lparr>wr_position := length (image a)\<rparr>)"
    using assms(4) by (simp add: consumes_def r_def)
  moreover have "consumes r (image b) (r\<lparr>wr_position := length (image b)\<rparr>)"
    using assms(3,4) by (simp add: consumes_def r_def)
  moreover have "reader_ok r" by (simp add: r_def reader_ok_def)
  ultimately have "get r = (r\<lparr>wr_position := length (image a)\<rparr>, Ok a)"
    "get r = (r\<lparr>wr_position := length (image b)\<rparr>, Ok b)"
    using assms(1,2) by (simp_all add: get_iff)
  then have "a = b" by simp
  with assms(3) show ?thesis by simp
qed

text \<open>A counted sequence: the elements one after the other.\<close>

lemma put_many: "puts (write_all (map put as)) (list_all accepts as) (concat (map image as))"
  using put by (rule puts_all)

lemmas get_many = gets_many [OF get]

end

section \<open>The primitive codecs\<close>

abbreviation always :: "'a \<Rightarrow> bool" where "always \<equiv> \<lambda>_. True"

lemma writer_int_Ok [wire_put]:
  "writer_u8 b w = (w', Ok ()) \<longleftrightarrow> appends w (u8_to_be_bytes b) w'"
  "writer_u16 h w = (w', Ok ()) \<longleftrightarrow> appends w (u16_to_be_bytes h) w'"
  "writer_u32 i w = (w', Ok ()) \<longleftrightarrow> appends w (u32_to_be_bytes i) w'"
  "writer_u64 l w = (w', Ok ()) \<longleftrightarrow> appends w (u64_to_be_bytes l) w'"
  by (simp_all add: writer_u8_def writer_u16_def writer_u32_def writer_u64_def wire_put)

lemma read_be:
  "read_bind (reader_bytes 2) (\<lambda>bs. read_ok (u16_from_be_bytes bs)) r = (r', Ok h) \<longleftrightarrow> consumes r (u16_to_be_bytes h) r'"
  "read_bind (reader_bytes 4) (\<lambda>bs. read_ok (u32_from_be_bytes bs)) r = (r', Ok i) \<longleftrightarrow> consumes r (u32_to_be_bytes i) r'"
  "read_bind (reader_bytes 8) (\<lambda>bs. read_ok (u64_from_be_bytes bs)) r = (r', Ok l) \<longleftrightarrow> consumes r (u64_to_be_bytes l) r'"
  unfolding wire_get using be_iffs(1) [of _ h] be_iffs(2) [of _ i] be_iffs(3) [of _ l] by metis+

lemma reader_int_Ok [wire_get]:
  "reader_u8 r = (r', Ok b) \<longleftrightarrow> consumes r (u8_to_be_bytes b) r'"
  "reader_u16 r = (r', Ok h) \<longleftrightarrow> consumes r (u16_to_be_bytes h) r'"
  "reader_u32 r = (r', Ok i) \<longleftrightarrow> consumes r (u32_to_be_bytes i) r'"
  "reader_u64 r = (r', Ok l) \<longleftrightarrow> consumes r (u64_to_be_bytes l) r'"
  unfolding reader_u16_def reader_u32_def reader_u64_def read_be
  by (auto simp: reader_u8_def wire_get u8_to_be_bytes_def length_Suc_conv)

interpretation wu8: wire_codec writer_u8 reader_u8 always always u8_to_be_bytes
  by unfold_locales (rule putsI getsI, simp add: wire_put wire_get | simp)+

interpretation wu16: wire_codec writer_u16 reader_u16 always always u16_to_be_bytes
  by unfold_locales (rule putsI getsI, simp add: wire_put wire_get | simp)+

interpretation wu32: wire_codec writer_u32 reader_u32 always always u32_to_be_bytes
  by unfold_locales (rule putsI getsI, simp add: wire_put wire_get | simp)+

interpretation wu64: wire_codec writer_u64 reader_u64 always always u64_to_be_bytes
  by unfold_locales (rule putsI getsI, simp add: wire_put wire_get | simp)+

lemmas [wire_puts] = wu8.put wu16.put wu32.put wu64.put
lemmas [wire_gets] = wu8.get wu16.get wu32.get wu64.get

lemma ex_u16_length: "(\<exists>h :: u16. P h \<and> n = unat h) \<longleftrightarrow> n < 2 ^ 16 \<and> P (of_nat n)"
proof
  assume "\<exists>h :: u16. P h \<and> n = unat h"
  then obtain h :: u16 where "P h" "n = unat h" by blast
  moreover have "unat h < 2 ^ LENGTH(16)" by (rule unsigned_less)
  ultimately show "n < 2 ^ 16 \<and> P (of_nat n)" by simp
next
  assume "n < 2 ^ 16 \<and> P (of_nat n)"
  moreover have "n < 2 ^ 16 \<Longrightarrow> n = unat (of_nat n :: u16)" by (simp add: unat_of_nat)
  ultimately show "\<exists>h :: u16. P h \<and> n = unat h" by blast
qed

lemma ex_u32_length: "(\<exists>i :: u32. P i \<and> n = unat i) \<longleftrightarrow> n < 2 ^ 32 \<and> P (of_nat n)"
proof
  assume "\<exists>i :: u32. P i \<and> n = unat i"
  then obtain i :: u32 where "P i" "n = unat i" by blast
  moreover have "unat i < 2 ^ LENGTH(32)" by (rule unsigned_less)
  ultimately show "n < 2 ^ 32 \<and> P (of_nat n)" by simp
next
  assume "n < 2 ^ 32 \<and> P (of_nat n)"
  moreover have "n < 2 ^ 32 \<Longrightarrow> n = unat (of_nat n :: u32)" by (simp add: unat_of_nat)
  ultimately show "\<exists>i :: u32. P i \<and> n = unat i" by blast
qed

lemma u16_try_from_Some: "u16_try_from n = Some h \<longleftrightarrow> n = unat h"
proof -
  have "unat h < 2 ^ LENGTH(16)" by (rule unsigned_less)
  then show ?thesis by (auto simp: u16_try_from_def word_unat_eq_iff unat_of_nat)
qed

lemma u32_try_from_Some: "u32_try_from n = Some i \<longleftrightarrow> n = unat i"
proof -
  have "unat i < 2 ^ LENGTH(32)" by (rule unsigned_less)
  then show ?thesis by (auto simp: u32_try_from_def word_unat_eq_iff unat_of_nat)
qed

definition length_prefixed_image :: "bytes \<Rightarrow> bytes" where
  "length_prefixed_image v = u32_to_be_bytes (of_nat (length v)) @ v"

lemma writer_length_prefixed_Ok [wire_put]:
  "writer_length_prefixed v w = (w', Ok ()) \<longleftrightarrow>
     length v < 2 ^ 32 \<and> appends w (length_prefixed_image v) w'"
  by (auto simp: writer_length_prefixed_def u32_try_from_def length_prefixed_image_def wire_put
      appends_append simp del: write_all.simps)

lemma reader_length_prefixed_Ok [wire_get]:
  "reader_length_prefixed r = (r', Ok v) \<longleftrightarrow>
     length v < 2 ^ 32 \<and> consumes r (length_prefixed_image v) r'"
proof -
  have "reader_length_prefixed r = (r', Ok v) \<longleftrightarrow>
      (\<exists>i :: u32. (\<exists>r1. consumes r (u32_to_be_bytes i) r1 \<and> consumes r1 v r') \<and> length v = unat i)"
    by (auto simp: reader_length_prefixed_def wire_get)
  then show ?thesis
    by (simp only: ex_u32_length length_prefixed_image_def consumes_append)
qed

interpretation wlp: wire_codec writer_length_prefixed reader_length_prefixed
    "\<lambda>v. length v < 2 ^ 32" "\<lambda>v. length v < 2 ^ 32" length_prefixed_image
  by unfold_locales (rule putsI getsI, rule writer_length_prefixed_Ok reader_length_prefixed_Ok | assumption)+

lemmas [wire_puts] = wlp.put
lemmas [wire_gets] = wlp.get

section \<open>Optional parts and counted collections\<close>

definition optional_image :: "('a \<Rightarrow> bytes) \<Rightarrow> 'a option \<Rightarrow> bytes" where
  "optional_image im v = (case v of None \<Rightarrow> u8_to_be_bytes 0 | Some a \<Rightarrow> u8_to_be_bytes 1 @ im a)"

text \<open>An optional part: a tag byte and, after the tag 1, the part itself.\<close>

lemma puts_optional:
  assumes "\<And>a. puts (put a) (A a) (im a)"
  shows "puts (case v of Some a \<Rightarrow> write_all [writer_u8 1, put a] | None \<Rightarrow> writer_u8 0)
    (pred_option A v) (optional_image im v)"
proof (cases v)
  case None
  then show ?thesis using wu8.put [of 0] by (simp add: optional_image_def)
next
  case (Some a)
  have "puts (write_all [writer_u8 1, put a]) (A a) (u8_to_be_bytes 1 @ im a)"
    by (rule puts_cong, (rule wire_puts assms)+) simp_all
  then show ?thesis by (simp add: Some optional_image_def del: write_all.simps)
qed

lemma gets_optional:
  assumes "gets m (\<lambda>a bs. V a \<and> bs = im a)"
  shows "gets (read_bind reader_u8 (\<lambda>v. if v = 0 then read_ok None
      else if v = 1 then read_bind m (\<lambda>a. read_ok (Some a)) else read_fail e))
    (\<lambda>v bs. pred_option V v \<and> bs = optional_image im v)"
  by (rule gets_cong, (rule wire_gets assms)+) (auto simp: optional_image_def split: option.splits)

lemma length_eq_unat: "k = unat (n :: u16) \<longleftrightarrow> n = of_nat k \<and> k < 2 ^ 16"
  using ex_u16_length [of "\<lambda>m. m = n" k] by auto

lemma puts_count [wire_puts]: "puts (writer_count e n) (n < 2 ^ 16) (u16_to_be_bytes (of_nat n))"
proof (cases "n < 2 ^ 16")
  case True
  then have "u16_try_from n = Some (of_nat n)" by (simp add: u16_try_from_def)
  with True show ?thesis using wu16.put [of "of_nat n"] by (simp add: writer_count_def)
next
  case False
  then have "u16_try_from n = None" by (simp add: u16_try_from_def)
  with False show ?thesis using puts_fail by (simp add: writer_count_def)
qed

lemma pred_option_conj: "pred_option (\<lambda>x. P x \<and> Q x) v \<longleftrightarrow> pred_option P v \<and> pred_option Q v"
  by (cases v) simp_all

lemma list_all_conj: "list_all (\<lambda>x. P x \<and> Q x) xs \<longleftrightarrow> list_all P xs \<and> list_all Q xs"
  by (auto simp: list_all_iff)

text \<open>
  The relation of a composed decoder is a chain of existentials. Moving them to the front leaves
  an equation for each, so that the simplifier eliminates them.
\<close>

lemmas prenex = ex_simps [symmetric] conj_assoc HOL.simp_thms

section \<open>Sequences of fields\<close>

text \<open>The primitive writer and reader operations as data, to speak about any sequence of them.\<close>

datatype wire_field = Field8 u8 | Field16 u16 | Field32 u32 | Field64 u64 | FieldBytes bytes

datatype wire_shape = Shape8 | Shape16 | Shape32 | Shape64 | ShapeBytes

fun put_field :: "wire_field \<Rightarrow> 'e writing" where
  "put_field (Field8 v) = writer_u8 v"
| "put_field (Field16 v) = writer_u16 v"
| "put_field (Field32 v) = writer_u32 v"
| "put_field (Field64 v) = writer_u64 v"
| "put_field (FieldBytes v) = writer_length_prefixed v"

fun shape_of :: "wire_field \<Rightarrow> wire_shape" where
  "shape_of (Field8 _) = Shape8"
| "shape_of (Field16 _) = Shape16"
| "shape_of (Field32 _) = Shape32"
| "shape_of (Field64 _) = Shape64"
| "shape_of (FieldBytes _) = ShapeBytes"

fun get_field :: "wire_shape \<Rightarrow> ('e, wire_field) reading" where
  "get_field Shape8 = read_bind reader_u8 (\<lambda>v. read_ok (Field8 v))"
| "get_field Shape16 = read_bind reader_u16 (\<lambda>v. read_ok (Field16 v))"
| "get_field Shape32 = read_bind reader_u32 (\<lambda>v. read_ok (Field32 v))"
| "get_field Shape64 = read_bind reader_u64 (\<lambda>v. read_ok (Field64 v))"
| "get_field ShapeBytes = read_bind reader_length_prefixed (\<lambda>v. read_ok (FieldBytes v))"

fun get_fields :: "wire_shape list \<Rightarrow> ('e, wire_field list) reading" where
  "get_fields [] = read_ok []"
| "get_fields (sh # shs) = read_bind (get_field sh) (\<lambda>f. read_bind (get_fields shs) (\<lambda>fs. read_ok (f # fs)))"

fun field_image :: "wire_field \<Rightarrow> bytes" where
  "field_image (Field8 v) = u8_to_be_bytes v"
| "field_image (Field16 v) = u16_to_be_bytes v"
| "field_image (Field32 v) = u32_to_be_bytes v"
| "field_image (Field64 v) = u64_to_be_bytes v"
| "field_image (FieldBytes v) = length_prefixed_image v"

fun field_valid :: "wire_field \<Rightarrow> bool" where
  "field_valid (FieldBytes v) = (length v < 2 ^ 32)"
| "field_valid _ = True"

lemma put_field_Ok: "put_field f w = (w', Ok ()) \<longleftrightarrow> field_valid f \<and> appends w (field_image f) w'"
  by (cases f) (simp_all add: wire_put)

lemma get_field_Ok:
  "get_field sh r = (r', Ok f) \<longleftrightarrow> shape_of f = sh \<and> field_valid f \<and> consumes r (field_image f) r'"
  by (cases sh; cases f) (auto simp: wire_get)

lemma put_fields_Ok:
  "write_all (map put_field fs) w = (w', Ok ()) \<longleftrightarrow>
     (if fs = [] then w' = w else list_all field_valid fs \<and> appends w (concat (map field_image fs)) w')"
proof (induction fs arbitrary: w)
  case (Cons f fs)
  then show ?case by (cases "fs = []") (auto simp: write_all_Ok put_field_Ok appends_append simp del: write_all.simps)
qed auto

lemma get_fields_Ok:
  "get_fields shs r = (r', Ok fs) \<longleftrightarrow> map shape_of fs = shs \<and>
     (if fs = [] then r' = r else list_all field_valid fs \<and> consumes r (concat (map field_image fs)) r')"
proof (induction shs arbitrary: r fs)
  case Nil
  show ?case by (auto simp: wire_get)
next
  case (Cons sh shs)
  show ?case
  proof (cases fs)
    case Nil
    then show ?thesis by (simp add: wire_get)
  next
    case fs: (Cons f fs')
    show ?thesis
      by (cases "fs' = []") (auto simp: fs Cons.IH get_field_Ok wire_get consumes_append)
  qed
qed

text \<open>A failed primitive leaves a prefix of its image behind and respects the bound.\<close>

definition grows_to :: "bytes \<Rightarrow> 'e wire_writer \<Rightarrow> 'e wire_writer \<Rightarrow> bool" where
  "grows_to bs w w' \<longleftrightarrow> (\<exists>n. ww_bytes w' = ww_bytes w @ take n bs)
     \<and> ww_maximum w' = ww_maximum w \<and> (length (ww_bytes w) \<le> ww_maximum w \<longrightarrow> length (ww_bytes w') \<le> ww_maximum w)"

lemma grows_to_refl: "grows_to bs w w"
  by (auto simp: grows_to_def intro: exI [of _ 0])

lemma grows_to_append:
  "appends w xs w1 \<Longrightarrow> grows_to ys w1 w' \<Longrightarrow> grows_to (xs @ ys) w w'"
  by (fastforce simp: grows_to_def appends_def intro: exI [where x = "length xs + _"])

lemma grows_to_appends: "appends w xs w1 \<Longrightarrow> grows_to (xs @ ys) w w1"
  using grows_to_append [OF _ grows_to_refl] .

lemma writer_bytes_grows: "grows_to (v @ ys) w (fst (writer_bytes v w))"
proof (cases "snd (writer_bytes v w)")
  case (Inl e)
  then have "fst (writer_bytes v w) = w"
    by (auto simp: writer_bytes_def split: option.splits if_splits)
  then show ?thesis by (simp add: grows_to_refl)
next
  case (Inr u)
  then have "appends w v (fst (writer_bytes v w))"
    by (metis old.unit.exhaust prod.collapse writer_bytes_Ok)
  then show ?thesis by (rule grows_to_appends)
qed

lemma write_all_grows:
  assumes "\<And>w w'. a w = (w', Ok ()) \<Longrightarrow> appends w xs w'"
    and "\<And>w. grows_to (xs @ ys) w (fst (a w))" and "\<And>w. grows_to ys w (fst (write_all as w))"
  shows "grows_to (xs @ ys) w (fst (write_all (a # as) w))"
proof (cases "snd (a w)")
  case (Inl e)
  then have "fst (write_all (a # as) w) = fst (a w)" by (cases "a w") simp
  with assms(2) show ?thesis by simp
next
  case (Inr u)
  then have a: "a w = (fst (a w), Ok ())" by (cases "a w") simp
  then have "write_all (a # as) w = write_all as (fst (a w))"
    by (cases "a w") (simp add: seq_bind_def)
  with grows_to_append [OF assms(1) [OF a] assms(3)] show ?thesis by simp
qed

lemma writer_length_prefixed_grows:
  "grows_to (length_prefixed_image v @ ys) w (fst (writer_length_prefixed v w))"
proof (cases "u32_try_from (length v)")
  case None
  then show ?thesis by (simp add: writer_length_prefixed_def grows_to_refl)
next
  case (Some i)
  then have i: "i = of_nat (length v)" by (simp add: u32_try_from_def split: if_splits)
  have "grows_to (u32_to_be_bytes i @ v @ ys) w (fst (write_all [writer_u32 i, writer_bytes v] w))"
  proof (rule write_all_grows)
    show "grows_to (v @ ys) w (fst (write_all [writer_bytes v] w))" for w :: "'a wire_writer"
      using write_all_grows [of "writer_bytes v" v ys "[]"]
      by (simp add: wire_put writer_bytes_grows grows_to_refl del: write_all.simps(2))
  qed (simp_all add: wire_put writer_u32_def writer_bytes_grows)
  with Some i show ?thesis
    by (simp add: writer_length_prefixed_def length_prefixed_image_def del: write_all.simps)
qed

lemma put_field_grows: "grows_to (field_image f @ ys) w (fst (put_field f w))"
  by (cases f) (simp_all add: writer_u8_def writer_u16_def writer_u32_def writer_u64_def
      writer_bytes_grows writer_length_prefixed_grows)

lemma put_fields_grows: "grows_to (concat (map field_image fs)) w (fst (write_all (map put_field fs) w))"
proof (induction fs arbitrary: w)
  case (Cons f fs)
  have "grows_to (field_image f @ concat (map field_image fs)) w (fst (write_all (put_field f # map put_field fs) w))"
    by (rule write_all_grows) (simp_all add: put_field_Ok put_field_grows Cons.IH)
  then show ?case by simp
qed (simp add: grows_to_refl)

text \<open>The reader moves only forward, inside its payload.\<close>

definition reader_moves :: "('e, 'a) reading \<Rightarrow> bool" where
  "reader_moves m \<longleftrightarrow> (\<forall>r. wr_bytes (fst (m r)) = wr_bytes r \<and> wr_position r \<le> wr_position (fst (m r))
     \<and> (wr_position r \<le> length (wr_bytes r) \<longrightarrow> wr_position (fst (m r)) \<le> length (wr_bytes r)))"

lemma reader_moves_bytes: "reader_moves (reader_bytes n)"
  by (auto simp: reader_moves_def reader_bytes_def usize_checked_add_def)

lemma reader_moves_ok: "reader_moves (read_ok a)"
  by (simp add: reader_moves_def read_ok_def)

lemma reader_moves_bind:
  assumes "reader_moves m" and "\<And>a. reader_moves (k a)"
  shows "reader_moves (read_bind m k)"
  unfolding reader_moves_def
proof (rule allI)
  fix r
  obtain r1 res where m: "m r = (r1, res)" by (cases "m r")
  have 1: "wr_bytes r1 = wr_bytes r" "wr_position r \<le> wr_position r1"
    "wr_position r \<le> length (wr_bytes r) \<Longrightarrow> wr_position r1 \<le> length (wr_bytes r)"
    using assms(1) m unfolding reader_moves_def by (metis fst_conv)+
  have 2: "wr_bytes (fst (k a r1)) = wr_bytes r1" "wr_position r1 \<le> wr_position (fst (k a r1))"
    "wr_position r1 \<le> length (wr_bytes r1) \<Longrightarrow> wr_position (fst (k a r1)) \<le> length (wr_bytes r1)" for a
    using assms(2) [of a] unfolding reader_moves_def by blast+
  show "wr_bytes (fst (read_bind m k r)) = wr_bytes r \<and> wr_position r \<le> wr_position (fst (read_bind m k r))
     \<and> (wr_position r \<le> length (wr_bytes r) \<longrightarrow> wr_position (fst (read_bind m k r)) \<le> length (wr_bytes r))"
    using 1 2 by (cases res) (auto simp: read_bind_def m intro: order.trans)
qed

lemma get_fields_moves: "reader_moves (get_fields shs)"
proof (induction shs)
  case (Cons sh shs)
  have "reader_moves (get_field sh)"
    by (cases sh) (simp_all add: reader_u8_def reader_u16_def reader_u32_def reader_u64_def
        reader_length_prefixed_def reader_moves_bind reader_moves_bytes reader_moves_ok)
  with Cons.IH show ?case unfolding get_fields.simps by (intro reader_moves_bind reader_moves_ok)
qed (simp add: reader_moves_ok)

section \<open>Properties\<close>

text \<open>
  C20. Writing then reading is the identity: whatever sequence of integers and length-prefixed
  byte strings a new writer accepted, a reader over the finished payload that reads the same
  sequence of shapes returns the same values and ends exactly at the end of the payload.
\<close>

theorem wire_fields_round_trip:
  assumes "write_all (map put_field fs) (writer_new p limit maximum) = (w, Ok ())"
  shows "\<exists>r. get_fields (map shape_of fs) (reader_new q (writer_finish w)) = (r, Ok fs)
    \<and> reader_finish r = Ok ()"
proof (cases "fs = []")
  case True
  with assms have "writer_finish w = []" by (auto simp: writer_new_def writer_finish_def)
  with True show ?thesis by (simp add: reader_new_def reader_finish_def read_ok_def)
next
  case False
  let ?bs = "concat (map field_image fs)"
  have w: "writer_finish w = ?bs" "list_all field_valid fs" "length ?bs \<le> usize_max"
    using assms False by (auto simp: put_fields_Ok appends_def writer_new_def writer_finish_def)
  let ?r = "\<lparr>wr_bytes = ?bs, wr_position = length ?bs, wr_protocol = q\<rparr>"
  have "get_fields (map shape_of fs) (reader_new q ?bs) = (?r, Ok fs)"
    using w False by (simp add: get_fields_Ok consumes_def reader_new_def)
  moreover have "reader_finish ?r = Ok ()" by (simp add: reader_finish_def)
  ultimately show ?thesis unfolding w(1) by blast
qed

text \<open>The bound holds on every path: after any sequence of writes, accepted or rejected part
  way, a new writer holds at most its maximum of bytes, and they are a prefix of the encoding of
  that sequence.
\<close>

lemma wire_writer_bounded:
  "let out = writer_finish (fst (write_all (map put_field fs) (writer_new p limit maximum)))
   in length out \<le> maximum \<and> (\<exists>rest. concat (map field_image fs) = out @ rest)"
proof -
  obtain n where "ww_bytes (fst (write_all (map put_field fs) (writer_new p limit maximum)))
      = take n (concat (map field_image fs))"
    "length (take n (concat (map field_image fs))) \<le> maximum"
    using put_fields_grows [of fs "writer_new p limit maximum"]
    by (auto simp: grows_to_def writer_new_def)
  then show ?thesis
    by (simp add: Let_def writer_finish_def) (metis append_take_drop_id)
qed

text \<open>
  C21. The reader never leaves its payload: whatever was read before, with or without a failure,
  any further sequence of reads keeps the payload, moves the position only forward and never past
  the payload's end, and one that succeeds moved over exactly the encoding of the values it
  returned; a rejected read of an exact byte count leaves the reader as it was.
\<close>

theorem wire_reader_in_payload:
  assumes "r = fst (get_fields xs (reader_new q bs))" and "get_fields ys r = (r', res)"
  shows "wr_bytes r' = bs \<and> wr_position r \<le> wr_position r' \<and> wr_position r' \<le> length bs
    \<and> (\<forall>fs. res = Ok fs \<longrightarrow>
         take (wr_position r' - wr_position r) (drop (wr_position r) bs) = concat (map field_image fs))
    \<and> (is_err (snd (reader_bytes n r')) \<longrightarrow> fst (reader_bytes n r') = r')"
proof -
  have start: "wr_bytes r = bs" "wr_position r \<le> length bs"
    using get_fields_moves [of xs, unfolded reader_moves_def, rule_format, of "reader_new q bs"] assms(1)
    by (simp_all add: reader_new_def)
  moreover have "wr_bytes r' = bs" "wr_position r \<le> wr_position r'" "wr_position r' \<le> length bs"
    using get_fields_moves [of ys, unfolded reader_moves_def, rule_format, of r] start assms(2) by simp_all
  moreover have "take (wr_position r' - wr_position r) (drop (wr_position r) bs) = concat (map field_image fs)"
    if "res = Ok fs" for fs
    using assms(2) that start(1) by (auto simp: get_fields_Ok consumes_def split: if_splits)
  moreover have "fst (reader_bytes n r') = r'" if "is_err (snd (reader_bytes n r'))"
    using that by (auto simp: reader_bytes_def split: option.splits)
  ultimately show ?thesis by blast
qed

section \<open>Witnesses\<close>

definition string_wire :: "string wire_protocol" where
  "string_wire = \<lparr>wire_invalid = ''invalid'', wire_too_large = (\<lambda>_ _. ''too large''), wire_allocation = ''allocation''\<rparr>"

definition example_fields :: "wire_field list" where
  "example_fields = [Field16 258, FieldBytes [1, 2, 3], Field8 7, Field64 9]"

theorem wire_fields_round_trip_witness:
  "\<exists>r. get_fields [Shape16, ShapeBytes, Shape8, Shape64]
       (reader_new string_wire [1, 2, 0, 0, 0, 3, 1, 2, 3, 7, 0, 0, 0, 0, 0, 0, 0, 9])
     = (r, Ok example_fields) \<and> reader_finish r = Ok ()"
proof -
  have "write_all (map put_field example_fields) (writer_new string_wire 100 20)
      = (\<lparr>ww_bytes = [1, 2, 0, 0, 0, 3, 1, 2, 3, 7, 0, 0, 0, 0, 0, 0, 0, 9], ww_maximum = 20,
          ww_protocol = string_wire, ww_limit = 100\<rparr>, Ok ())"
    by (simp add: example_fields_def writer_new_def writer_u8_def writer_u16_def writer_u32_def
        writer_u64_def writer_length_prefixed_def writer_bytes_def u32_try_from_def usize_checked_add_def
        usize_max_def u8_to_be_bytes_def u16_to_be_bytes_def u32_to_be_bytes_def u64_to_be_bytes_def
        be_bytes_numeral)
  from wire_fields_round_trip [OF this, of string_wire] show ?thesis
    by (simp add: writer_finish_def example_fields_def)
qed

theorem wire_reader_in_payload_witness:
  "get_fields [Shape16] (reader_new string_wire [1, 2, 3])
     = ((reader_new string_wire [1, 2, 3])\<lparr>wr_position := 2\<rparr>, Ok [Field16 258])
   \<and> take (2 - 0) (drop 0 [1, 2, 3]) = concat (map field_image [Field16 258])
   \<and> is_err (snd (reader_bytes 3 ((reader_new string_wire [1, 2, 3])\<lparr>wr_position := 2\<rparr>)))
   \<and> fst (reader_bytes 3 ((reader_new string_wire [1, 2, 3])\<lparr>wr_position := 2\<rparr>))
     = (reader_new string_wire [1, 2, 3])\<lparr>wr_position := 2\<rparr>"
proof -
  let ?r = "reader_new string_wire [1, 2, 3]"
  have start: "?r = fst (get_fields [] (reader_new string_wire [1, 2, 3]))" by (simp add: read_ok_def)
  have read: "get_fields [Shape16] ?r = (?r\<lparr>wr_position := 2\<rparr>, Ok [Field16 258])"
    unfolding get_fields_Ok
    by (simp add: consumes_def reader_new_def u16_to_be_bytes_def be_bytes_numeral usize_max_def)
  have "is_err (snd (reader_bytes 3 (?r\<lparr>wr_position := 2\<rparr>)))"
    by (simp add: reader_bytes_def reader_new_def usize_checked_add_def usize_max_def)
  with read wire_reader_in_payload [OF start read, of 3] show ?thesis
    by (simp add: reader_new_def)
qed

end
