(* ===== verification/Transport.thy ===== *)
theory Transport
  imports Machine Wire Identity
begin

text \<open>
  The private seqpacket transport (\<open>crates/oxiroute-supervision-unix/src/transport.rs\<close> and
  \<open>identity.rs\<close>): the fixed frame header, one endpoint with its send and receive sequences,
  and the checks made on every received packet.

  The kernel is a parameter: \<open>sendmsg\<close> and the ancillary buffer of a send are functions of the
  packet, and a receive is handed what \<open>recvmsg\<close> returned, the ancillary records included.
  Fixed-size byte arrays are byte lists; the 16 bytes of an instance token are an invariant.
\<close>

type_synonym errno = int
type_synonym message_type = u16
type_synonym frame_flags = u32
type_synonym instance_token = bytes

definition MAX_FRAME_SIZE :: usize where "MAX_FRAME_SIZE = 64 * 1024"
definition MAX_DESCRIPTOR_COUNT :: usize where "MAX_DESCRIPTOR_COUNT = 64"
definition FRAME_HEADER_SIZE :: usize where "FRAME_HEADER_SIZE = 52"
definition MAX_PAYLOAD_SIZE :: usize where "MAX_PAYLOAD_SIZE = MAX_FRAME_SIZE - FRAME_HEADER_SIZE"
definition MAGIC :: bytes where "MAGIC = [79, 88, 83, 80]"
definition VERSION :: u16 where "VERSION = 1"

lemmas frame_limits = MAX_FRAME_SIZE_def MAX_DESCRIPTOR_COUNT_def FRAME_HEADER_SIZE_def
  MAX_PAYLOAD_SIZE_def MAGIC_def VERSION_def

record frame_header =
  fh_message_type :: message_type
  fh_payload_length :: u32
  fh_flags :: frame_flags
  fh_descriptor_count :: u16
  fh_sequence :: sequence
  fh_instance :: instance_token
  fh_generation :: generation_id

record peer_identity =
  peer_pid :: int
  peer_uid :: u32
  peer_gid :: u32

record 'fd frame =
  frame_head :: frame_header
  frame_payload :: bytes
  frame_descriptors :: "'fd list"
  frame_peer_identity :: peer_identity

datatype transport_error =
    TransportIo errno
  | TransportClosed
  | PayloadTooLarge usize usize
  | TooManyDescriptors usize usize
  | PartialSend usize usize
  | PayloadTruncated usize
  | AncillaryTruncated usize
  | HeaderTruncated usize
  | WrongMagic
  | WrongVersion u16 u16
  | ReservedBits
  | LengthMismatch u32 usize
  | DescriptorCountMismatch usize usize
  | AncillaryEncoding
  | UnexpectedSequence sequence sequence
  | MissingCredentials
  | MultipleCredentials
  | SequenceExhausted

section \<open>Header\<close>

definition slice :: "'a list \<Rightarrow> usize \<Rightarrow> usize \<Rightarrow> 'a list" where
  "slice xs i j = take (j - i) (drop i xs)"

definition header_encode :: "frame_header \<Rightarrow> bytes" where
  "header_encode h =
     MAGIC
     @ u16_to_be_bytes VERSION
     @ u16_to_be_bytes (fh_message_type h)
     @ u32_to_be_bytes (fh_payload_length h)
     @ u32_to_be_bytes (fh_flags h)
     @ u16_to_be_bytes (fh_descriptor_count h)
     @ u16_to_be_bytes 0
     @ u64_to_be_bytes (fh_sequence h)
     @ fh_instance h
     @ u64_to_be_bytes (fh_generation h)"

definition header_decode :: "bytes \<Rightarrow> (transport_error, frame_header) result" where
  "header_decode bs =
     (if length bs < FRAME_HEADER_SIZE then Err (HeaderTruncated (length bs))
      else if slice bs 0 4 \<noteq> MAGIC then Err WrongMagic
      else
        let version = u16_from_be_bytes (slice bs 4 6)
        in if version \<noteq> VERSION then Err (WrongVersion VERSION version)
           else if u16_from_be_bytes (slice bs 18 20) \<noteq> 0 then Err ReservedBits
           else Ok \<lparr>fh_message_type = u16_from_be_bytes (slice bs 6 8),
                    fh_payload_length = u32_from_be_bytes (slice bs 8 12),
                    fh_flags = u32_from_be_bytes (slice bs 12 16),
                    fh_descriptor_count = u16_from_be_bytes (slice bs 16 18),
                    fh_sequence = u64_from_be_bytes (slice bs 20 28),
                    fh_instance = slice bs 28 44,
                    fh_generation = u64_from_be_bytes (slice bs 44 52)\<rparr>)"

section \<open>Endpoint\<close>

record 'fd seqpacket_endpoint =
  ep_fd :: 'fd
  ep_next_send_sequence :: u64
  ep_last_received_sequence :: "sequence option"

text \<open>\<open>new\<close>: enabling \<open>SO_PASSCRED\<close> is a parameter.\<close>

definition endpoint_new ::
  "('fd \<Rightarrow> (errno, unit) result) \<Rightarrow> 'fd \<Rightarrow> (transport_error, 'fd seqpacket_endpoint) result" where
  "endpoint_new set_socket_passcred fd =
     try_bind (map_err TransportIo (set_socket_passcred fd)) (\<lambda>_.
       Ok \<lparr>ep_fd = fd, ep_next_send_sequence = 1, ep_last_received_sequence = None\<rparr>)"

record 'fd send_env =
  se_push :: "'fd list \<Rightarrow> bool"
  se_sendmsg :: "bytes \<Rightarrow> 'fd list \<Rightarrow> (errno, usize) result"

text \<open>The two slices handed to \<open>sendmsg\<close>, one after the other.\<close>

definition packet_bytes ::
  "message_type \<Rightarrow> frame_flags \<Rightarrow> instance_token \<Rightarrow> generation_id \<Rightarrow> bytes \<Rightarrow> nat \<Rightarrow> sequence \<Rightarrow> bytes" where
  "packet_bytes mt flags inst gen payload fd_count seqno =
     header_encode \<lparr>fh_message_type = mt, fh_payload_length = of_nat (length payload), fh_flags = flags,
       fh_descriptor_count = of_nat fd_count, fh_sequence = seqno, fh_instance = inst,
       fh_generation = gen\<rparr> @ payload"

definition endpoint_send ::
  "'fd send_env \<Rightarrow> 'fd seqpacket_endpoint \<Rightarrow> message_type \<Rightarrow> frame_flags \<Rightarrow> instance_token
    \<Rightarrow> generation_id \<Rightarrow> bytes \<Rightarrow> 'fd list
    \<Rightarrow> 'fd seqpacket_endpoint \<times> (transport_error, sequence) result" where
  "endpoint_send env ep mt flags inst gen payload fds =
     (if length payload > MAX_PAYLOAD_SIZE
        then (ep, Err (PayloadTooLarge (length payload) MAX_PAYLOAD_SIZE))
      else if length fds > MAX_DESCRIPTOR_COUNT
        then (ep, Err (TooManyDescriptors (length fds) MAX_DESCRIPTOR_COUNT))
      else
        let seqno = ep_next_send_sequence ep
        in case u64_checked_add seqno 1 of
             None \<Rightarrow> (ep, Err SequenceExhausted)
           | Some nxt \<Rightarrow>
               if u32_try_from (length payload) = None
                 then (ep, Err (PayloadTooLarge (length payload) MAX_PAYLOAD_SIZE))
               else if u16_try_from (length fds) = None
                 then (ep, Err (TooManyDescriptors (length fds) MAX_DESCRIPTOR_COUNT))
               else if fds \<noteq> [] \<and> \<not> se_push env fds then (ep, Err AncillaryEncoding)
               else
                 (case se_sendmsg env (packet_bytes mt flags inst gen payload (length fds) seqno) fds of
                    Err e \<Rightarrow> (ep, Err (TransportIo e))
                  | Ok sent \<Rightarrow>
                      if sent \<noteq> FRAME_HEADER_SIZE + length payload
                      then (ep, Err (PartialSend (FRAME_HEADER_SIZE + length payload) sent))
                      else (ep\<lparr>ep_next_send_sequence := nxt\<rparr>, Ok seqno)))"

datatype 'fd ancillary =
    ScmRights "'fd list"
  | ScmCredentials peer_identity
  | OtherAncillary

record 'fd received =
  rv_buffer :: bytes
  rv_bytes :: usize
  rv_trunc :: bool
  rv_ctrunc :: bool
  rv_ancillary :: "'fd ancillary list"

text \<open>The loop over the ancillary records: descriptors accumulate, a second credential record
  is an early return. A credentials record is kept as the identity \<open>from_credentials\<close> makes of it.\<close>

fun drain_ancillary ::
  "'fd list \<Rightarrow> peer_identity option \<Rightarrow> 'fd ancillary list
    \<Rightarrow> (transport_error, 'fd list \<times> peer_identity option) result" where
  "drain_ancillary fds cred [] = Ok (fds, cred)"
| "drain_ancillary fds cred (ScmRights received_fds # ms) = drain_ancillary (fds @ received_fds) cred ms"
| "drain_ancillary fds cred (ScmCredentials c # ms) =
     (if cred \<noteq> None then Err MultipleCredentials else drain_ancillary fds (Some c) ms)"
| "drain_ancillary fds cred (OtherAncillary # ms) = drain_ancillary fds cred ms"

record 'fd fd_env =
  fe_get_cloexec :: "'fd \<Rightarrow> (errno, bool) result"
  fe_set_cloexec :: "'fd \<Rightarrow> (errno, unit) result"

fun ensure_cloexec :: "'fd fd_env \<Rightarrow> 'fd list \<Rightarrow> (transport_error, unit) result" where
  "ensure_cloexec env [] = Ok ()"
| "ensure_cloexec env (fd # fds) =
     try_bind (map_err TransportIo (fe_get_cloexec env fd)) (\<lambda>cloexec.
     try_bind (if cloexec then Ok () else map_err TransportIo (fe_set_cloexec env fd)) (\<lambda>_.
     ensure_cloexec env fds))"

definition expected_sequence :: "sequence option \<Rightarrow> (transport_error, sequence) result" where
  "expected_sequence last_received =
     (case last_received of
        Some previous \<Rightarrow> ok_or SequenceExhausted (u64_checked_add previous 1)
      | None \<Rightarrow> Ok 1)"

definition check_packet ::
  "'fd fd_env \<Rightarrow> 'fd seqpacket_endpoint \<Rightarrow> 'fd received \<Rightarrow> (transport_error, 'fd frame) result" where
  "check_packet env ep received =
     (if rv_bytes received = 0 then Err TransportClosed
      else
        try_bind (drain_ancillary [] None (rv_ancillary received)) (\<lambda>(descriptors, credentials).
        if rv_trunc received \<or> rv_bytes received > MAX_FRAME_SIZE
          then Err (PayloadTruncated MAX_FRAME_SIZE)
        else if rv_ctrunc received then Err (AncillaryTruncated MAX_DESCRIPTOR_COUNT)
        else if length descriptors > MAX_DESCRIPTOR_COUNT
          then Err (AncillaryTruncated MAX_DESCRIPTOR_COUNT)
        else
          try_bind (ok_or MissingCredentials credentials) (\<lambda>peer.
          try_bind (ensure_cloexec env descriptors) (\<lambda>_.
          let bs = take (rv_bytes received) (rv_buffer received) in
          try_bind (header_decode bs) (\<lambda>header.
          let payload = drop FRAME_HEADER_SIZE bs in
          try_bind (ok_or (PayloadTruncated MAX_FRAME_SIZE) (u32_try_from (length payload))) (\<lambda>actual_length.
          if fh_payload_length header \<noteq> actual_length
            then Err (LengthMismatch (fh_payload_length header) (length payload))
          else if unat (fh_descriptor_count header) \<noteq> length descriptors
            then Err (DescriptorCountMismatch (unat (fh_descriptor_count header)) (length descriptors))
          else
            try_bind (expected_sequence (ep_last_received_sequence ep)) (\<lambda>expected.
            if fh_sequence header \<noteq> expected
              then Err (UnexpectedSequence expected (fh_sequence header))
            else Ok \<lparr>frame_head = header, frame_payload = payload, frame_descriptors = descriptors,
                     frame_peer_identity = peer\<rparr>)))))))"

definition endpoint_receive ::
  "'fd fd_env \<Rightarrow> 'fd seqpacket_endpoint \<Rightarrow> (errno, 'fd received) result
    \<Rightarrow> 'fd seqpacket_endpoint \<times> (transport_error, 'fd frame) result" where
  "endpoint_receive env ep recvmsg =
     (case recvmsg of
        Err e \<Rightarrow> (ep, Err (TransportIo e))
      | Ok received \<Rightarrow>
          (case check_packet env ep received of
             Err e \<Rightarrow> (ep, Err e)
           | Ok frame \<Rightarrow>
               (ep\<lparr>ep_last_received_sequence := Some (fh_sequence (frame_head frame))\<rparr>, Ok frame)))"

section \<open>Specification\<close>

fun accepted_sequence :: "(transport_error, 'fd frame) result \<Rightarrow> sequence option" where
  "accepted_sequence (Ok f) = Some (fh_sequence (frame_head f))"
| "accepted_sequence (Err _) = None"

definition last_number :: "sequence option \<Rightarrow> nat" where
  "last_number l = (case l of None \<Rightarrow> 0 | Some k \<Rightarrow> unat k)"

text \<open>The receiver expects exactly the sequence that the sender uses next.\<close>

definition in_sync :: "'fd seqpacket_endpoint \<Rightarrow> 'fd seqpacket_endpoint \<Rightarrow> bool" where
  "in_sync sender receiver \<longleftrightarrow>
     expected_sequence (ep_last_received_sequence receiver) = Ok (ep_next_send_sequence sender)"

text \<open>The kernel delivered one whole packet with its descriptors and one credentials record, in
  either order, and the descriptors can be inspected.\<close>

definition delivered :: "'fd fd_env \<Rightarrow> bytes \<Rightarrow> 'fd list \<Rightarrow> peer_identity \<Rightarrow> 'fd received \<Rightarrow> bool" where
  "delivered env packet fds peer received \<longleftrightarrow>
     rv_bytes received = length packet \<and> take (length packet) (rv_buffer received) = packet
     \<and> \<not> rv_trunc received \<and> \<not> rv_ctrunc received
     \<and> (rv_ancillary received = [ScmRights fds, ScmCredentials peer]
        \<or> rv_ancillary received = [ScmCredentials peer, ScmRights fds]
        \<or> (fds = [] \<and> rv_ancillary received = [ScmCredentials peer]))
     \<and> (\<forall>fd \<in> set fds. is_ok (fe_get_cloexec env fd) \<and> is_ok (fe_set_cloexec env fd))"

text \<open>The kernel carries a send to the peer: whatever bytes and descriptors its \<open>sendmsg\<close> takes
  are what the peer's \<open>recvmsg\<close> then returns. Which bytes those are is up to the sender's code.\<close>

definition carried :: "'fd send_env \<Rightarrow> 'fd fd_env \<Rightarrow> peer_identity \<Rightarrow> 'fd received \<Rightarrow> bool" where
  "carried senv env peer received \<longleftrightarrow>
     (\<forall>packet fds n. se_sendmsg senv packet fds = Ok n \<longrightarrow> delivered env packet fds peer received)"

section \<open>Header lemmas\<close>

lemma slice_drop: "i \<le> j \<Longrightarrow> drop i bs = slice bs i j @ drop j bs"
  by (simp add: slice_def) (metis append_take_drop_id drop_drop le_add_diff_inverse2)

lemma length_slice [simp]: "j \<le> length bs \<Longrightarrow> length (slice bs i j) = j - i"
  by (simp add: slice_def)

lemma length_header_encode: "length (fh_instance h) = 16 \<Longrightarrow> length (header_encode h) = 52"
  by (simp add: header_encode_def MAGIC_def)

lemma slice_of_be:
  "length (slice bs i (i + 2)) = 2 \<Longrightarrow> slice bs i (i + 2) = u16_to_be_bytes (u16_from_be_bytes (slice bs i (i + 2)))"
  "length (slice bs i (i + 4)) = 4 \<Longrightarrow> slice bs i (i + 4) = u32_to_be_bytes (u32_from_be_bytes (slice bs i (i + 4)))"
  "length (slice bs i (i + 8)) = 8 \<Longrightarrow> slice bs i (i + 8) = u64_to_be_bytes (u64_from_be_bytes (slice bs i (i + 8)))"
  using be_iffs by blast+

lemma from_to_be [simp]:
  "u16_from_be_bytes (u16_to_be_bytes h) = h"
  "u32_from_be_bytes (u32_to_be_bytes i) = i"
  "u64_from_be_bytes (u64_to_be_bytes l) = l"
  using be_iffs by blast+

lemma header_decode_encode:
  assumes "length (fh_instance h) = 16"
  shows "header_decode (header_encode h @ rest) = Ok h"
  using assms
  by (simp add: header_decode_def header_encode_def slice_def frame_limits)

lemma header_decode_Ok:
  "header_decode bs = Ok h \<longleftrightarrow> length (fh_instance h) = 16 \<and> (\<exists>rest. bs = header_encode h @ rest)"
proof
  assume dec: "header_decode bs = Ok h"
  then have len: "52 \<le> length bs" by (auto simp: header_decode_def frame_limits split: if_splits)
  have checks: "slice bs 0 4 = MAGIC" "u16_from_be_bytes (slice bs 4 6) = VERSION"
    "u16_from_be_bytes (slice bs 18 20) = 0"
    using dec by (auto simp: header_decode_def Let_def split: if_splits)
  have h: "h = \<lparr>fh_message_type = u16_from_be_bytes (slice bs 6 8),
      fh_payload_length = u32_from_be_bytes (slice bs 8 12), fh_flags = u32_from_be_bytes (slice bs 12 16),
      fh_descriptor_count = u16_from_be_bytes (slice bs 16 18), fh_sequence = u64_from_be_bytes (slice bs 20 28),
      fh_instance = slice bs 28 44, fh_generation = u64_from_be_bytes (slice bs 44 52)\<rparr>"
    using dec by (auto simp: header_decode_def Let_def split: if_splits)
  have be: "u16_to_be_bytes (u16_from_be_bytes (slice bs i (i + 2))) = slice bs i (i + 2)"
    "u32_to_be_bytes (u32_from_be_bytes (slice bs i (i + 4))) = slice bs i (i + 4)"
    "u64_to_be_bytes (u64_from_be_bytes (slice bs i (i + 8))) = slice bs i (i + 8)" if "i \<le> 44" for i
    using that len slice_of_be [of bs i] by simp_all
  have "bs = slice bs 0 4 @ slice bs 4 6 @ slice bs 6 8 @ slice bs 8 12 @ slice bs 12 16 @ slice bs 16 18
      @ slice bs 18 20 @ slice bs 20 28 @ slice bs 28 44 @ slice bs 44 52 @ drop 52 bs"
    using slice_drop [of 0 4 bs] slice_drop [of 4 6 bs] slice_drop [of 6 8 bs] slice_drop [of 8 12 bs]
      slice_drop [of 12 16 bs] slice_drop [of 16 18 bs] slice_drop [of 18 20 bs] slice_drop [of 20 28 bs]
      slice_drop [of 28 44 bs] slice_drop [of 44 52 bs]
    by simp
  also have "\<dots> = header_encode h @ drop 52 bs"
    using be(1) [of 4] be(1) [of 6] be(1) [of 16] be(1) [of 18] be(2) [of 8] be(2) [of 12] be(3) [of 20]
      be(3) [of 44] checks
    by (simp add: header_encode_def h)
  finally show "length (fh_instance h) = 16 \<and> (\<exists>rest. bs = header_encode h @ rest)"
    using len h by auto
next
  assume "length (fh_instance h) = 16 \<and> (\<exists>rest. bs = header_encode h @ rest)"
  then show "header_decode bs = Ok h" using header_decode_encode by blast
qed

section \<open>Receive lemmas\<close>

lemma check_packet_sequence:
  "check_packet env ep received = Ok f \<Longrightarrow>
     expected_sequence (ep_last_received_sequence ep) = Ok (fh_sequence (frame_head f))"
  by (auto simp: check_packet_def Let_def split: if_splits)

lemma endpoint_receive_Err: "is_err (snd (endpoint_receive env ep r)) \<Longrightarrow> fst (endpoint_receive env ep r) = ep"
  by (auto simp: endpoint_receive_def split: sum.splits)

lemma expected_sequence_Ok:
  "expected_sequence l = Ok k \<longleftrightarrow> unat k = last_number l + 1 \<and> last_number l + 1 < 2 ^ 64"
proof (cases l)
  case None
  have "(1 = k) = (unat k = 1)" by (auto simp: word_unat_eq_iff)
  with None show ?thesis by (simp add: expected_sequence_def last_number_def)
next
  case (Some p)
  then show ?thesis by (auto simp: expected_sequence_def last_number_def u64_checked_add_Some_iff)
qed

lemma receive_run_sequences:
  "\<exists>n. issues accepted_sequence (snd (run (endpoint_receive env) ep rs))
       = map of_nat [Suc (last_number (ep_last_received_sequence ep))..<Suc n]
     \<and> last_number (ep_last_received_sequence ep) \<le> n \<and> n < 2 ^ 64
     \<and> n = last_number (ep_last_received_sequence (fst (run (endpoint_receive env) ep rs)))"
proof (induction rs arbitrary: ep)
  case Nil
  have "last_number (ep_last_received_sequence ep) < 2 ^ 64"
    using unat_u64_bound by (auto simp: last_number_def split: option.split)
  then show ?case by auto
next
  case (Cons r rs)
  let ?ep1 = "fst (endpoint_receive env ep r)" and ?l = "last_number (ep_last_received_sequence ep)"
  obtain n where n: "issues accepted_sequence (snd (run (endpoint_receive env) ?ep1 rs))
       = map of_nat [Suc (last_number (ep_last_received_sequence ?ep1))..<Suc n]"
    "last_number (ep_last_received_sequence ?ep1) \<le> n" "n < 2 ^ 64"
    "n = last_number (ep_last_received_sequence (fst (run (endpoint_receive env) ?ep1 rs)))"
    using Cons.IH by blast
  show ?case
  proof (cases "snd (endpoint_receive env ep r)")
    case (Inl e)
    then have "?ep1 = ep" using endpoint_receive_Err [of env ep r] by simp
    with n Inl show ?thesis by auto
  next
    case (Inr f)
    then have "expected_sequence (ep_last_received_sequence ep) = Ok (fh_sequence (frame_head f))"
      and ep1: "ep_last_received_sequence ?ep1 = Some (fh_sequence (frame_head f))"
      by (auto simp: endpoint_receive_def dest: check_packet_sequence split: sum.splits)
    then have k: "unat (fh_sequence (frame_head f)) = ?l + 1"
      "last_number (ep_last_received_sequence ?ep1) = ?l + 1"
      by (simp_all add: expected_sequence_Ok last_number_def)
    from arg_cong [OF this(1), of "of_nat :: nat \<Rightarrow> u64"]
    have "fh_sequence (frame_head f) = of_nat (Suc ?l)" by simp
    moreover have "[Suc ?l..<Suc n] = Suc ?l # [Suc (Suc ?l)..<Suc n]"
      using k n(2) by (simp add: upt_conv_Cons)
    ultimately show ?thesis using n k Inr by (intro exI [of _ n]) simp
  qed
qed

section \<open>Send and deliver\<close>

lemma drain_delivered:
  assumes "delivered env packet fds peer received"
  shows "drain_ancillary [] None (rv_ancillary received) = Ok (fds, Some peer)"
  using assms by (auto simp: delivered_def)

lemma ensure_cloexec_ok:
  "\<forall>fd \<in> set fds. is_ok (fe_get_cloexec env fd) \<and> is_ok (fe_set_cloexec env fd) \<Longrightarrow> ensure_cloexec env fds = Ok ()"
proof (induction fds)
  case (Cons fd fds)
  then obtain b u where "fe_get_cloexec env fd = Ok b" "fe_set_cloexec env fd = Ok u"
    by (auto simp: is_ok_iff)
  with Cons show ?case by simp
qed simp

lemma endpoint_send_Ok:
  assumes "endpoint_send env ep mt flags inst gen payload fds = (ep', Ok seqno)"
  shows "length payload \<le> MAX_PAYLOAD_SIZE" and "length fds \<le> MAX_DESCRIPTOR_COUNT"
    and "seqno = ep_next_send_sequence ep"
    and "u64_checked_add seqno 1 = Some (ep_next_send_sequence ep')"
    and "\<exists>n. se_sendmsg env (packet_bytes mt flags inst gen payload (length fds) seqno) fds = Ok n"
    and "ep_last_received_sequence ep' = ep_last_received_sequence ep"
  using assms by (auto simp: endpoint_send_def Let_def split: if_splits option.splits sum.splits)

lemma check_packet_delivered:
  assumes inst: "length inst = 16" and payload: "length payload \<le> MAX_PAYLOAD_SIZE"
    and fds: "length fds \<le> MAX_DESCRIPTOR_COUNT"
    and expected: "expected_sequence (ep_last_received_sequence ep) = Ok seqno"
    and delivered: "delivered env (packet_bytes mt flags inst gen payload (length fds) seqno) fds peer received"
  shows "check_packet env ep received =
    Ok \<lparr>frame_head = \<lparr>fh_message_type = mt, fh_payload_length = of_nat (length payload), fh_flags = flags,
           fh_descriptor_count = of_nat (length fds), fh_sequence = seqno, fh_instance = inst, fh_generation = gen\<rparr>,
        frame_payload = payload, frame_descriptors = fds, frame_peer_identity = peer\<rparr>"
proof -
  let ?h = "\<lparr>fh_message_type = mt, fh_payload_length = of_nat (length payload), fh_flags = flags,
    fh_descriptor_count = of_nat (length fds), fh_sequence = seqno, fh_instance = inst, fh_generation = gen\<rparr>"
  have len: "length (header_encode ?h) = 52" using inst by (simp add: length_header_encode)
  define packet where "packet = header_encode ?h @ payload"
  have packet: "packet_bytes mt flags inst gen payload (length fds) seqno = packet"
    "header_decode packet = Ok ?h" "drop FRAME_HEADER_SIZE packet = payload" "length packet = 52 + length payload"
    "length packet - FRAME_HEADER_SIZE = length payload"
    using inst len by (simp_all add: packet_def packet_bytes_def header_decode_encode FRAME_HEADER_SIZE_def)
  have "rv_bytes received = 52 + length payload" "take (52 + length payload) (rv_buffer received) = packet"
    "\<not> rv_trunc received" "\<not> rv_ctrunc received" "ensure_cloexec env fds = Ok ()"
    using delivered packet by (simp_all add: delivered_def ensure_cloexec_ok)
  moreover have "52 + length payload \<le> MAX_FRAME_SIZE" using payload by (simp add: frame_limits)
  moreover have "unat (of_nat (length fds) :: u16) = length fds" "u32_try_from (length payload) = Some (of_nat (length payload))"
    using fds payload by (simp_all add: unat_of_nat u32_try_from_def frame_limits)
  ultimately show ?thesis
    using fds expected packet(2,3,5) by (simp add: check_packet_def drain_delivered [OF delivered])
qed

lemma drain_ancillary_Ok:
  "drain_ancillary fds cred ms = Ok (fds', cred') \<Longrightarrow>
     length (filter (\<lambda>m. \<exists>c. m = ScmCredentials c) ms) + (if cred = None then 0 else 1)
       = (if cred' = None then 0 else 1)
     \<and> (cred' = cred \<or> (\<exists>c. cred' = Some c \<and> ScmCredentials c \<in> set ms))"
proof (induction fds cred ms rule: drain_ancillary.induct)
  case (3 fds cred c ms)
  then show ?case by (cases cred) auto
qed auto

lemma check_packet_Ok:
  assumes "check_packet env ep rv = Ok f"
  shows "take (rv_bytes rv) (rv_buffer rv) = header_encode (frame_head f) @ frame_payload f"
    and "length (fh_instance (frame_head f)) = 16"
    and "unat (fh_payload_length (frame_head f)) = length (frame_payload f)"
    and "unat (fh_descriptor_count (frame_head f)) = length (frame_descriptors f)"
    and "length (frame_descriptors f) \<le> MAX_DESCRIPTOR_COUNT"
    and "rv_bytes rv \<le> MAX_FRAME_SIZE"
    and "drain_ancillary [] None (rv_ancillary rv) = Ok (frame_descriptors f, Some (frame_peer_identity f))"
proof -
  from assms have dec: "header_decode (take (rv_bytes rv) (rv_buffer rv)) = Ok (frame_head f)"
    and payload: "frame_payload f = drop FRAME_HEADER_SIZE (take (rv_bytes rv) (rv_buffer rv))"
    and len: "u32_try_from (length (frame_payload f)) = Some (fh_payload_length (frame_head f))"
    and rest: "unat (fh_descriptor_count (frame_head f)) = length (frame_descriptors f)"
      "length (frame_descriptors f) \<le> MAX_DESCRIPTOR_COUNT" "rv_bytes rv \<le> MAX_FRAME_SIZE"
      "drain_ancillary [] None (rv_ancillary rv) = Ok (frame_descriptors f, Some (frame_peer_identity f))"
    by (auto simp: check_packet_def Let_def split: if_splits)
  show "length (fh_instance (frame_head f)) = 16" using dec by (simp add: header_decode_Ok)
  with dec payload show "take (rv_bytes rv) (rv_buffer rv) = header_encode (frame_head f) @ frame_payload f"
    by (auto simp: header_decode_Ok length_header_encode FRAME_HEADER_SIZE_def)
  show "unat (fh_payload_length (frame_head f)) = length (frame_payload f)"
    using len by (simp add: u32_try_from_Some)
qed (use assms in \<open>auto simp: check_packet_def Let_def split: if_splits\<close>)

lemma transport_delivery:
  assumes "endpoint_send se sender mt flags inst gen payload fds = (sender', Ok seqno)"
    and "in_sync sender receiver" and "length inst = 16" and "carried se env peer received"
  obtains receiver' f where "endpoint_receive env receiver (Ok received) = (receiver', Ok f)"
    and "fh_message_type (frame_head f) = mt" and "fh_flags (frame_head f) = flags"
    and "fh_instance (frame_head f) = inst" and "fh_generation (frame_head f) = gen"
    and "frame_payload f = payload" and "frame_descriptors f = fds" and "frame_peer_identity f = peer"
    and "in_sync sender' receiver'"
proof -
  note sent = endpoint_send_Ok [OF assms(1)]
  have "expected_sequence (ep_last_received_sequence receiver) = Ok seqno"
    using assms(2) sent(3) by (simp add: in_sync_def)
  moreover have "delivered env (packet_bytes mt flags inst gen payload (length fds) seqno) fds peer received"
    using assms(4) sent(5) by (auto simp: carried_def)
  ultimately show ?thesis
    using check_packet_delivered [OF assms(3) sent(1,2)] sent(4) that
    by (simp add: endpoint_receive_def in_sync_def expected_sequence_def)
qed

section \<open>Properties\<close>

text \<open>
  C22. The frame header is canonical: \<open>decode\<close> returns a header exactly for byte strings that
  start with that header's encoding, and every such header has a 16-byte instance token.
\<close>

theorem frame_header_canonical:
  "header_decode bs = Ok h \<longleftrightarrow> length (fh_instance h) = 16 \<and> (\<exists>rest. bs = header_encode h @ rest)"
  by (rule header_decode_Ok)

text \<open>
  C23. No replay, loss or reordering goes unnoticed: whatever packets arrive at a new endpoint,
  the accepted frames carry the sequences 1, 2, 3 and so on without a gap or a repetition,
  however many packets in between were rejected.
\<close>

theorem transport_sequences_gapless:
  assumes "endpoint_new passcred fd = Ok ep"
  shows "\<exists>n < 2 ^ 64. issues accepted_sequence (snd (run (endpoint_receive env) ep rs)) = map of_nat [1..<Suc n]"
proof -
  have "last_number (ep_last_received_sequence ep) = 0"
    using assms by (auto simp: endpoint_new_def last_number_def)
  with receive_run_sequences [of env ep rs] show ?thesis by auto
qed

text \<open>
  C24. A message sent is the message received: when a send from endpoints in step succeeds and the
  kernel carries to the peer whatever bytes and descriptors the send gave to \<open>sendmsg\<close>, with the
  sender's credentials, the peer's \<open>receive\<close> returns the same type, flags, instance, generation, payload and descriptors, and the endpoints are in
  step again.
\<close>

theorem transport_round_trip:
  assumes "endpoint_send se sender mt flags inst gen payload fds = (sender', Ok seqno)"
    and "in_sync sender receiver" and "length inst = 16" and "carried se env peer received"
  shows "\<exists>receiver' f. endpoint_receive env receiver (Ok received) = (receiver', Ok f)
    \<and> fh_message_type (frame_head f) = mt \<and> fh_flags (frame_head f) = flags
    \<and> fh_instance (frame_head f) = inst \<and> fh_generation (frame_head f) = gen
    \<and> frame_payload f = payload \<and> frame_descriptors f = fds \<and> frame_peer_identity f = peer
    \<and> in_sync sender' receiver'"
  using transport_delivery [OF assms] by metis

text \<open>
  C25. Only complete, self-consistent packets become frames: the bytes of an accepted packet are
  the encoded header followed by the payload, the declared lengths are the actual ones, the bounds
  on frame size and descriptor count hold, and exactly one credentials record came with it.
\<close>

theorem transport_frame_well_formed:
  assumes "endpoint_receive env ep (Ok rv) = (ep', Ok f)"
  shows "take (rv_bytes rv) (rv_buffer rv) = header_encode (frame_head f) @ frame_payload f
    \<and> unat (fh_payload_length (frame_head f)) = length (frame_payload f)
    \<and> unat (fh_descriptor_count (frame_head f)) = length (frame_descriptors f)
    \<and> length (frame_descriptors f) \<le> MAX_DESCRIPTOR_COUNT \<and> rv_bytes rv \<le> MAX_FRAME_SIZE
    \<and> length (filter (\<lambda>m. \<exists>c. m = ScmCredentials c) (rv_ancillary rv)) = 1
    \<and> ScmCredentials (frame_peer_identity f) \<in> set (rv_ancillary rv)"
proof -
  have ok: "check_packet env ep rv = Ok f"
    using assms by (auto simp: endpoint_receive_def split: sum.splits)
  from check_packet_Ok [OF ok] drain_ancillary_Ok [OF check_packet_Ok(7) [OF ok]] show ?thesis by simp
qed

section \<open>Witnesses\<close>

definition example_token :: instance_token where
  "example_token = replicate 16 7"

definition example_endpoint :: "nat seqpacket_endpoint" where
  "example_endpoint = \<lparr>ep_fd = 3, ep_next_send_sequence = 1, ep_last_received_sequence = None\<rparr>"

definition example_peer :: peer_identity where
  "example_peer = \<lparr>peer_pid = 42, peer_uid = 0, peer_gid = 0\<rparr>"

definition example_fd_env :: "nat fd_env" where
  "example_fd_env = \<lparr>fe_get_cloexec = (\<lambda>_. Ok True), fe_set_cloexec = (\<lambda>_. Ok ())\<rparr>"

definition example_send_env :: "nat send_env" where
  "example_send_env = \<lparr>se_push = (\<lambda>_. True), se_sendmsg = (\<lambda>packet fds. Ok (length packet))\<rparr>"

text \<open>A kernel that takes every packet and hands it over with the sender's credentials.\<close>

definition carry :: "bytes \<Rightarrow> nat list \<Rightarrow> peer_identity \<Rightarrow> nat received" where
  "carry packet fds peer = \<lparr>rv_buffer = packet, rv_bytes = length packet, rv_trunc = False, rv_ctrunc = False,
     rv_ancillary = [ScmRights fds, ScmCredentials peer]\<rparr>"

lemma delivered_carry: "delivered example_fd_env packet fds peer (carry packet fds peer)"
  by (simp add: delivered_def carry_def example_fd_env_def)

text \<open>A link that takes one packet only, the one that reaches the peer.\<close>

definition link_env :: "bytes \<Rightarrow> nat list \<Rightarrow> nat send_env" where
  "link_env packet fds = \<lparr>se_push = (\<lambda>_. True),
     se_sendmsg = (\<lambda>p f. if p = packet \<and> f = fds then Ok (length p) else Err 32)\<rparr>"

lemma carried_link: "carried (link_env packet fds) example_fd_env peer (carry packet fds peer)"
  by (auto simp: carried_def link_env_def delivered_carry split: if_splits)

lemma link_send_ok:
  assumes "length payload \<le> MAX_PAYLOAD_SIZE" and "length fds \<le> MAX_DESCRIPTOR_COUNT" and "length inst = 16"
    and "u64_checked_add (ep_next_send_sequence ep) 1 = Some nxt"
    and "packet = packet_bytes mt flags inst gen payload (length fds) (ep_next_send_sequence ep)"
  shows "endpoint_send (link_env packet fds) ep mt flags inst gen payload fds
    = (ep\<lparr>ep_next_send_sequence := nxt\<rparr>, Ok (ep_next_send_sequence ep))"
  using assms
  by (simp add: endpoint_send_def link_env_def u32_try_from_def u16_try_from_def packet_bytes_def
      length_header_encode frame_limits)

lemma example_send_ok:
  assumes "length payload \<le> MAX_PAYLOAD_SIZE" and "length fds \<le> MAX_DESCRIPTOR_COUNT" and "length inst = 16"
    and "u64_checked_add (ep_next_send_sequence ep) 1 = Some nxt"
  shows "endpoint_send example_send_env ep mt flags inst gen payload fds
    = (ep\<lparr>ep_next_send_sequence := nxt\<rparr>, Ok (ep_next_send_sequence ep))"
  using assms
  by (simp add: endpoint_send_def example_send_env_def u32_try_from_def u16_try_from_def packet_bytes_def
      length_header_encode frame_limits)

abbreviation example_bytes :: bytes where
  "example_bytes \<equiv> packet_bytes 256 0 example_token 9 [1, 2, 3] (length [11 :: nat]) 1"

definition example_packet :: "nat received" where
  "example_packet = carry example_bytes [11] example_peer"

lemma length_example_token: "length example_token = 16"
  by (simp add: example_token_def)

lemma example_send:
  "endpoint_send (link_env example_bytes [11]) example_endpoint 256 0 example_token 9 [1, 2, 3] [11]
     = (example_endpoint\<lparr>ep_next_send_sequence := 2\<rparr>, Ok 1)"
  using link_send_ok [of "[1, 2, 3]" "[11]" example_token example_endpoint 2 example_bytes 256 0 9]
  by (simp add: example_endpoint_def frame_limits u64_checked_add_def length_example_token)

lemma example_delivered:
  "delivered example_fd_env example_bytes [11] example_peer example_packet"
  unfolding example_packet_def by (rule delivered_carry)

lemma example_carried: "carried (link_env example_bytes [11]) example_fd_env example_peer example_packet"
  unfolding example_packet_def by (rule carried_link)

lemma example_in_sync: "in_sync example_endpoint example_endpoint"
  by (simp add: in_sync_def expected_sequence_def example_endpoint_def)

theorem transport_round_trip_witness:
  "\<exists>receiver' f. endpoint_receive example_fd_env example_endpoint (Ok example_packet) = (receiver', Ok f)
     \<and> frame_payload f = [1, 2, 3] \<and> frame_descriptors f = [11]"
  using transport_round_trip [OF example_send example_in_sync length_example_token example_carried] by blast

theorem transport_frame_well_formed_witness:
  "\<exists>ep' f. endpoint_receive example_fd_env example_endpoint (Ok example_packet) = (ep', Ok f)
     \<and> length (frame_descriptors f) \<le> MAX_DESCRIPTOR_COUNT
     \<and> ScmCredentials (frame_peer_identity f) \<in> set (rv_ancillary example_packet)"
proof -
  have "check_packet example_fd_env example_endpoint example_packet =
    Ok \<lparr>frame_head = \<lparr>fh_message_type = 256, fh_payload_length = of_nat (length [1, 2, 3 :: u8]), fh_flags = 0,
           fh_descriptor_count = of_nat (length [11 :: nat]), fh_sequence = 1, fh_instance = example_token, fh_generation = 9\<rparr>,
        frame_payload = [1, 2, 3], frame_descriptors = [11], frame_peer_identity = example_peer\<rparr>"
    by (rule check_packet_delivered [OF _ _ _ _ example_delivered])
      (simp_all add: length_example_token frame_limits expected_sequence_def example_endpoint_def)
  then obtain ep' f where "endpoint_receive example_fd_env example_endpoint (Ok example_packet) = (ep', Ok f)"
    by (simp add: endpoint_receive_def)
  with transport_frame_well_formed [OF this] show ?thesis by blast
qed

theorem transport_sequences_gapless_witness:
  "\<exists>n < 2 ^ 64. issues accepted_sequence
     (snd (run (endpoint_receive example_fd_env) example_endpoint [Ok example_packet, Ok example_packet]))
     = map of_nat [1..<Suc n]"
  by (rule transport_sequences_gapless [where passcred = "\<lambda>_. Ok ()" and fd = 3])
    (simp add: endpoint_new_def example_endpoint_def)

end
