(* ===== verification/Utf8.thy ===== *)
theory Utf8
  imports Identity
begin

text \<open>
  UTF-8, as Rust's standard library defines it for \<open>str\<close>: \<open>as_bytes\<close> is the encoding of the
  scalar values and \<open>from_utf8\<close> accepts exactly the well-formed byte sequences, so a decoded
  string has one encoding (no overlong forms, no surrogates).
\<close>

definition is_scalar :: "uchar \<Rightarrow> bool" where
  "is_scalar c \<longleftrightarrow> c < 0xD800 \<or> (0xE000 \<le> c \<and> c < 0x110000)"

definition utf8_char :: "uchar \<Rightarrow> nat list" where
  "utf8_char c =
     (if c < 0x80 then [c]
      else if c < 0x800 then [0xC0 + c div 64, 0x80 + c mod 64]
      else if c < 0x10000 then [0xE0 + c div 4096, 0x80 + c div 64 mod 64, 0x80 + c mod 64]
      else [0xF0 + c div 262144, 0x80 + c div 4096 mod 64, 0x80 + c div 64 mod 64, 0x80 + c mod 64])"

definition as_bytes :: "str \<Rightarrow> bytes" where
  "as_bytes s = map of_nat (concat (map utf8_char s))"

definition continuation :: "nat \<Rightarrow> bool" where
  "continuation b \<longleftrightarrow> 0x80 \<le> b \<and> b < 0xC0"

fun utf8_first :: "nat list \<Rightarrow> (uchar \<times> nat list) option" where
  "utf8_first [] = None"
| "utf8_first (b0 # bs) =
     (if b0 < 0x80 then Some (b0, bs)
      else if b0 < 0xE0 then
        (case bs of
           b1 # rest \<Rightarrow>
             let c = (b0 - 0xC0) * 64 + (b1 - 0x80)
             in if 0xC2 \<le> b0 \<and> continuation b1 then Some (c, rest) else None
         | _ \<Rightarrow> None)
      else if b0 < 0xF0 then
        (case bs of
           b1 # b2 # rest \<Rightarrow>
             let c = (b0 - 0xE0) * 4096 + (b1 - 0x80) * 64 + (b2 - 0x80)
             in if continuation b1 \<and> continuation b2 \<and> 0x800 \<le> c \<and> is_scalar c
                then Some (c, rest) else None
         | _ \<Rightarrow> None)
      else
        (case bs of
           b1 # b2 # b3 # rest \<Rightarrow>
             let c = (b0 - 0xF0) * 262144 + (b1 - 0x80) * 4096 + (b2 - 0x80) * 64 + (b3 - 0x80)
             in if continuation b1 \<and> continuation b2 \<and> continuation b3 \<and> 0x10000 \<le> c \<and> is_scalar c
                then Some (c, rest) else None
         | _ \<Rightarrow> None))"

lemma utf8_first_shorter: "utf8_first ns = Some (c, rest) \<Longrightarrow> length rest < length ns"
  by (cases ns) (auto simp: Let_def split: if_splits list.splits)

function utf8_decode :: "nat list \<Rightarrow> str option" where
  "utf8_decode ns =
     (if ns = [] then Some []
      else case utf8_first ns of
             None \<Rightarrow> None
           | Some (c, rest) \<Rightarrow> map_option (Cons c) (utf8_decode rest))"
  by pat_completeness auto
termination
  by (relation "measure length") (auto dest: utf8_first_shorter)

declare utf8_decode.simps [simp del]

definition from_utf8 :: "bytes \<Rightarrow> str option" where
  "from_utf8 bs = utf8_decode (map unat bs)"

section \<open>Decoding inverts encoding\<close>

lemma utf8_char_bound: "is_scalar c \<Longrightarrow> b \<in> set (utf8_char c) \<Longrightarrow> b < 256"
  by (auto simp: utf8_char_def is_scalar_def split: if_splits)

lemma length_utf8_char: "length (utf8_char c) = utf8_len c"
  by (simp add: utf8_char_def utf8_len_def)

lemma base64_2: "(c :: nat) div 64 * 64 + c mod 64 = c"
  by (rule div_mult_mod_eq)

lemma base64_3: "(c :: nat) div 4096 * 4096 + c div 64 mod 64 * 64 + c mod 64 = c"
proof -
  have "c div 4096 = c div 64 div 64" by (simp add: div_mult2_eq [symmetric])
  then show ?thesis using base64_2 [of c] base64_2 [of "c div 64"] by linarith
qed

lemma base64_4:
  "(c :: nat) div 262144 * 262144 + c div 4096 mod 64 * 4096 + c div 64 mod 64 * 64 + c mod 64 = c"
proof -
  have "c div 262144 = c div 4096 div 64" by (simp add: div_mult2_eq [symmetric])
  then show ?thesis using base64_3 [of c] base64_2 [of "c div 4096"] by linarith
qed

lemma continuation_mod: "continuation (0x80 + c mod 64)"
  by (simp add: continuation_def)

lemma utf8_first_char:
  assumes "is_scalar c"
  shows "utf8_first (utf8_char c @ rest) = Some (c, rest)"
proof -
  consider "c < 0x80" | "0x80 \<le> c" "c < 0x800" | "0x800 \<le> c" "c < 0x10000" | "0x10000 \<le> c" "c < 0x110000"
    using assms unfolding is_scalar_def by linarith
  then show ?thesis
  proof cases
    case 1
    then show ?thesis by (simp add: utf8_char_def)
  next
    case 2
    then have "2 \<le> c div 64" "c div 64 < 32" by (simp_all add: less_eq_div_iff_mult_less_eq div_less_iff_less_mult)
    with 2 continuation_mod [of c] base64_2 [of c] show ?thesis
      by (simp add: utf8_char_def Let_def)
  next
    case 3
    then have "c div 4096 < 16" by (simp add: div_less_iff_less_mult)
    with 3 assms continuation_mod [of c] continuation_mod [of "c div 64"] base64_3 [of c] show ?thesis
      by (simp add: utf8_char_def Let_def)
  next
    case 4
    with assms continuation_mod [of c] continuation_mod [of "c div 64"] continuation_mod [of "c div 4096"]
      base64_4 [of c]
    show ?thesis by (simp add: utf8_char_def Let_def)
  qed
qed

lemma digits64:
  assumes "z < (64 :: nat)"
  shows "(x * 64 + z) div 64 = x" "(x * 64 + z) mod 64 = z"
  using assms by simp_all

lemma utf8_char_2:
  assumes "0xC2 \<le> b0" "b0 < 0xE0" "continuation b1"
  shows "utf8_char ((b0 - 0xC0) * 64 + (b1 - 0x80)) = [b0, b1] \<and> is_scalar ((b0 - 0xC0) * 64 + (b1 - 0x80))"
proof -
  define x y where "x = b0 - 0xC0" and "y = b1 - 0x80"
  have b: "b0 = 0xC0 + x" "b1 = 0x80 + y" "2 \<le> x" "x < 32" "y < 64"
    using assms by (auto simp: continuation_def x_def y_def)
  then show ?thesis by (simp add: utf8_char_def is_scalar_def)
qed

lemma utf8_char_3:
  assumes "0xE0 \<le> b0" "b0 < 0xF0" "continuation b1" "continuation b2"
    and c: "c = (b0 - 0xE0) * 4096 + (b1 - 0x80) * 64 + (b2 - 0x80)" "0x800 \<le> c"
  shows "utf8_char c = [b0, b1, b2]"
proof -
  define x y z where "x = b0 - 0xE0" and "y = b1 - 0x80" and "z = b2 - 0x80"
  have b: "b0 = 0xE0 + x" "b1 = 0x80 + y" "b2 = 0x80 + z" "x < 16" "y < 64" "z < 64"
    using assms by (auto simp: continuation_def x_def y_def z_def)
  have c': "c = (x * 64 + y) * 64 + z" unfolding c(1) b by simp
  have "c div 64 = x * 64 + y" "c mod 64 = z" unfolding c' using digits64 [OF \<open>z < 64\<close>] by blast+
  moreover have "c div 4096 = c div 64 div 64" by (simp add: div_mult2_eq [symmetric])
  ultimately have "c div 64 mod 64 = y" "c div 4096 = x" using digits64 [OF \<open>y < 64\<close>] by simp_all
  moreover have "c < 0x10000" using b unfolding c' by simp
  ultimately show ?thesis using c(2) \<open>c mod 64 = z\<close> b by (simp add: utf8_char_def)
qed

lemma utf8_char_4:
  assumes "0xF0 \<le> b0" "continuation b1" "continuation b2" "continuation b3"
    and c: "c = (b0 - 0xF0) * 262144 + (b1 - 0x80) * 4096 + (b2 - 0x80) * 64 + (b3 - 0x80)" "0x10000 \<le> c"
  shows "utf8_char c = [b0, b1, b2, b3]"
proof -
  define x y z t where "x = b0 - 0xF0" and "y = b1 - 0x80" and "z = b2 - 0x80" and "t = b3 - 0x80"
  have b: "b0 = 0xF0 + x" "b1 = 0x80 + y" "b2 = 0x80 + z" "b3 = 0x80 + t" "y < 64" "z < 64" "t < 64"
    using assms by (auto simp: continuation_def x_def y_def z_def t_def)
  have c': "c = ((x * 64 + y) * 64 + z) * 64 + t" unfolding c(1) b by simp
  have "c div 64 = (x * 64 + y) * 64 + z" "c mod 64 = t" unfolding c' using digits64 [OF \<open>t < 64\<close>] by blast+
  moreover have "c div 4096 = c div 64 div 64" "c div 262144 = c div 64 div 64 div 64"
    by (simp_all add: div_mult2_eq [symmetric])
  ultimately have "c div 64 mod 64 = z" "c div 4096 = x * 64 + y" "c div 262144 = (x * 64 + y) div 64"
    by (simp_all only: digits64 [OF \<open>z < 64\<close>])
  then have "c div 4096 mod 64 = y" "c div 262144 = x" by (simp_all only: digits64 [OF \<open>y < 64\<close>])
  then show ?thesis using c(2) \<open>c mod 64 = t\<close> \<open>c div 64 mod 64 = z\<close> b by (simp add: utf8_char_def)
qed

lemma utf8_first_sound:
  "utf8_first ns = Some (c, rest) \<Longrightarrow> is_scalar c \<and> ns = utf8_char c @ rest"
proof (cases ns)
  case (Cons b0 bs)
  assume first: "utf8_first ns = Some (c, rest)"
  consider "b0 < 0x80" | "0x80 \<le> b0" "b0 < 0xE0" | "0xE0 \<le> b0" "b0 < 0xF0" | "0xF0 \<le> b0" by linarith
  then show ?thesis
  proof cases
    case 1
    with first Cons show ?thesis by (simp add: utf8_char_def is_scalar_def)
  next
    case 2
    with first Cons utf8_char_2 [of b0] show ?thesis
      by (auto simp: Let_def split: list.splits if_splits)
  next
    case 3
    with first Cons utf8_char_3 [of b0, OF _ _ _ _ refl] show ?thesis
      by (auto simp: Let_def split: list.splits if_splits)
  next
    case 4
    with first Cons utf8_char_4 [of b0, OF _ _ _ _ refl] show ?thesis
      by (auto simp: Let_def split: list.splits if_splits)
  qed
qed simp

lemma utf8_decode_Some:
  "utf8_decode ns = Some s \<longleftrightarrow> list_all is_scalar s \<and> ns = concat (map utf8_char s)"
proof (induction ns arbitrary: s rule: utf8_decode.induct)
  case (1 ns)
  have ne: "utf8_char c \<noteq> []" for c by (simp add: utf8_char_def)
  show ?case
  proof (cases "ns = []")
    case True
    then show ?thesis using ne by (cases s) (auto simp: utf8_decode.simps)
  next
    case False
    show ?thesis
    proof
      assume "utf8_decode ns = Some s"
      then obtain c rest t where "utf8_first ns = Some (c, rest)" "utf8_decode rest = Some t" "s = c # t"
        using False by (subst (asm) utf8_decode.simps) (auto split: option.splits)
      with 1 [OF False this(1) refl, of t] utf8_first_sound [OF this(1)]
      show "list_all is_scalar s \<and> ns = concat (map utf8_char s)" by simp
    next
      assume s: "list_all is_scalar s \<and> ns = concat (map utf8_char s)"
      then obtain c t where t: "s = c # t" using False by (cases s) auto
      with s have first: "utf8_first ns = Some (c, concat (map utf8_char t))" by (simp add: utf8_first_char)
      with 1 [OF False this refl, of t] s t False show "utf8_decode ns = Some s"
        by (subst utf8_decode.simps) simp
    qed
  qed
qed

lemma map_unat_iff:
  "\<forall>n \<in> set ns. n < 256 \<Longrightarrow> map unat (bs :: bytes) = ns \<longleftrightarrow> bs = map of_nat ns"
proof (induction ns arbitrary: bs)
  case (Cons n ns)
  then show ?case by (cases bs) (auto simp: unat_of_nat)
qed simp

lemma from_utf8_iff: "from_utf8 bs = Some s \<longleftrightarrow> list_all is_scalar s \<and> bs = as_bytes s"
proof (cases "list_all is_scalar s")
  case True
  then have "\<forall>n \<in> set (concat (map utf8_char s)). n < 256"
    using utf8_char_bound by (auto simp: list_all_iff)
  from map_unat_iff [OF this, of bs] True show ?thesis
    by (simp add: from_utf8_def utf8_decode_Some as_bytes_def)
next
  case False
  then show ?thesis by (simp add: from_utf8_def utf8_decode_Some)
qed

lemma length_as_bytes: "length (as_bytes s) = str_len s"
  by (simp add: as_bytes_def str_len_def length_concat length_utf8_char comp_def)

lemma from_utf8_as_bytes: "list_all is_scalar s \<Longrightarrow> from_utf8 (as_bytes s) = Some s"
  by (simp add: from_utf8_iff)

end
