(* ===== verification/Launch.thy ===== *)
theory Launch
  imports Transport Utf8
begin

text \<open>
  The worker launch metadata (\<open>crates/oxiroute-supervisor-process/src/lib.rs\<close> and
  \<open>launcher.rs\<close>): the bounds on a worker's arguments and environment, their hexadecimal encoding
  into the launcher's argument vector, and the launcher's decoder. An \<open>OsString\<close> is its bytes. Of
  the \<open>Command\<close> that the source builds, the program and the arguments are modelled.
\<close>

unbundle bit_operations_syntax

type_synonym os_string = bytes
type_synonym worker_environment = "(os_string \<times> os_string) list"

definition MAX_WORKER_ARGUMENTS :: usize where "MAX_WORKER_ARGUMENTS = 128"
definition MAX_WORKER_ENVIRONMENT :: usize where "MAX_WORKER_ENVIRONMENT = 128"
definition MAX_WORKER_METADATA_ITEM_BYTES :: usize where "MAX_WORKER_METADATA_ITEM_BYTES = 4 * 1024"
definition MAX_WORKER_METADATA_BYTES :: usize where "MAX_WORKER_METADATA_BYTES = 64 * 1024"
definition WORKER_METADATA_VERSION :: os_string where "WORKER_METADATA_VERSION = [118, 50]"

lemmas launch_limits = MAX_WORKER_ARGUMENTS_def MAX_WORKER_ENVIRONMENT_def MAX_WORKER_METADATA_ITEM_BYTES_def
  MAX_WORKER_METADATA_BYTES_def WORKER_METADATA_VERSION_def

datatype metadata_error =
    TooManyArguments usize usize
  | TooManyEnvironmentEntries usize usize
  | ItemTooLarge usize usize
  | MetadataTooLarge usize usize
  | InvalidEnvironmentOrArgument

record worker_metadata =
  md_arguments :: "os_string list"
  md_environment :: worker_environment

fun metadata_total :: "usize \<Rightarrow> os_string list \<Rightarrow> (metadata_error, usize) result" where
  "metadata_total n [] = Ok n"
| "metadata_total n (item # items) =
     (if length item > MAX_WORKER_METADATA_ITEM_BYTES
      then Err (ItemTooLarge (length item) MAX_WORKER_METADATA_ITEM_BYTES)
      else metadata_total (usize_saturating_add n (length item)) items)"

definition metadata_items :: "os_string list \<Rightarrow> worker_environment \<Rightarrow> os_string list" where
  "metadata_items arguments environment = arguments @ concat (map (\<lambda>(key, item). [key, item]) environment)"

definition metadata_new ::
  "os_string list \<Rightarrow> worker_environment \<Rightarrow> (metadata_error, worker_metadata) result" where
  "metadata_new arguments environment =
     (if length arguments > MAX_WORKER_ARGUMENTS
        then Err (TooManyArguments (length arguments) MAX_WORKER_ARGUMENTS)
      else if length environment > MAX_WORKER_ENVIRONMENT
        then Err (TooManyEnvironmentEntries (length environment) MAX_WORKER_ENVIRONMENT)
      else
        try_bind (metadata_total 0 (metadata_items arguments environment)) (\<lambda>n.
        if n > MAX_WORKER_METADATA_BYTES then Err (MetadataTooLarge n MAX_WORKER_METADATA_BYTES)
        else if list_ex (\<lambda>(key, _). key = [] \<or> 0 \<in> set key \<or> 61 \<in> set key) environment
            \<or> list_ex (\<lambda>(_, item). 0 \<in> set item) environment
            \<or> list_ex (\<lambda>item. 0 \<in> set item) arguments
          then Err InvalidEnvironmentOrArgument
        else Ok \<lparr>md_arguments = arguments, md_environment = environment\<rparr>))"

section \<open>The launcher's argument vector\<close>

definition HEX_DIGITS :: bytes where
  "HEX_DIGITS = [48, 49, 50, 51, 52, 53, 54, 55, 56, 57, 97, 98, 99, 100, 101, 102]"

definition encode_hex :: "bytes \<Rightarrow> os_string" where
  "encode_hex bs =
     concat (map (\<lambda>b. [HEX_DIGITS ! unat (drop_bit 4 b), HEX_DIGITS ! unat (b AND 0x0f)]) bs)"

text \<open>\<open>usize::to_string\<close>.\<close>

fun usize_to_string :: "usize \<Rightarrow> bytes" where
  "usize_to_string n =
     (if n < 10 then [48 + of_nat n] else usize_to_string (n div 10) @ [48 + of_nat (n mod 10)])"

declare usize_to_string.simps [simp del]

record worker_command =
  cmd_program :: path
  cmd_args :: "os_string list"
  cmd_env :: worker_environment
  cmd_require_cgroup_containment :: bool

definition command_arg :: "worker_command \<Rightarrow> os_string \<Rightarrow> worker_command" where
  "command_arg c argument = c\<lparr>cmd_args := cmd_args c @ [argument]\<rparr>"

definition command_env :: "worker_command \<Rightarrow> os_string \<Rightarrow> os_string \<Rightarrow> worker_command" where
  "command_env c key item = c\<lparr>cmd_env := cmd_env c @ [(key, item)]\<rparr>"

definition command_inherit_env :: "(os_string \<Rightarrow> os_string option) \<Rightarrow> worker_command \<Rightarrow> os_string \<Rightarrow> worker_command" where
  "command_inherit_env var_os c key =
     (case var_os key of Some item \<Rightarrow> c\<lparr>cmd_env := cmd_env c @ [(key, item)]\<rparr> | None \<Rightarrow> c)"

definition command_require_cgroup_containment :: "worker_command \<Rightarrow> worker_command" where
  "command_require_cgroup_containment c = c\<lparr>cmd_require_cgroup_containment := True\<rparr>"

definition cgroup_arguments :: "path option \<Rightarrow> (metadata_error, os_string list) result" where
  "cgroup_arguments cgroup_path =
     (case cgroup_path of
        None \<Rightarrow> Ok []
      | Some bs \<Rightarrow>
          if length bs > MAX_WORKER_METADATA_ITEM_BYTES
            then Err (ItemTooLarge (length bs) MAX_WORKER_METADATA_ITEM_BYTES)
          else if 0 \<in> set bs then Err InvalidEnvironmentOrArgument
          else Ok [encode_hex bs])"

record launcher_command =
  lc_program :: path
  lc_args :: "os_string list"

definition into_launcher_command ::
  "worker_command \<Rightarrow> path \<Rightarrow> path option \<Rightarrow> (metadata_error, launcher_command) result" where
  "into_launcher_command c launcher cgroup_path =
     try_bind (metadata_new (cmd_args c) (cmd_env c)) (\<lambda>metadata.
     try_bind (cgroup_arguments cgroup_path) (\<lambda>cgroup.
     Ok \<lparr>lc_program = launcher,
         lc_args =
           [cmd_program c, WORKER_METADATA_VERSION, if cgroup_path \<noteq> None then [49] else [48]]
           @ cgroup
           @ [usize_to_string (length (md_arguments metadata))]
           @ map encode_hex (md_arguments metadata)
           @ [usize_to_string (length (md_environment metadata))]
           @ concat (map (\<lambda>(key, item). [encode_hex key, encode_hex item]) (md_environment metadata))\<rparr>))"

section \<open>The launcher's decoder\<close>

datatype launcher_error = LauncherText string | LauncherMetadata metadata_error

record launcher_metadata =
  lm_worker :: worker_metadata
  lm_cgroup_path :: "os_string option"

type_synonym 'a decoding = "os_string list \<Rightarrow> os_string list \<times> (launcher_error, 'a) result"

definition next_argument :: "os_string list \<Rightarrow> os_string list \<times> os_string option" where
  "next_argument encoded = (case encoded of [] \<Rightarrow> ([], None) | item # rest \<Rightarrow> (rest, Some item))"

fun parse_digits :: "usize \<Rightarrow> bytes \<Rightarrow> usize option" where
  "parse_digits acc [] = Some acc"
| "parse_digits acc (b # bs) =
     (if 48 \<le> b \<and> b \<le> 57 \<and> acc * 10 + unat (b - 48) \<le> usize_max
      then parse_digits (acc * 10 + unat (b - 48)) bs else None)"

text \<open>\<open>str::parse::<usize>\<close>: one leading plus sign is allowed, the empty string is not.\<close>

definition parse_usize :: "bytes \<Rightarrow> usize option" where
  "parse_usize bs =
     (case bs of
        [] \<Rightarrow> None
      | b # rest \<Rightarrow> if b = 43 then (if rest = [] then None else parse_digits 0 rest) else parse_digits 0 bs)"

definition parse_count :: "os_string option \<Rightarrow> string \<Rightarrow> usize \<Rightarrow> (launcher_error, usize) result" where
  "parse_count encoded label maximum =
     try_bind
       (ok_or (LauncherText (''missing or invalid '' @ label @ '' count''))
         (Option.bind encoded (\<lambda>bs. if from_utf8 bs = None then None else parse_usize bs)))
       (\<lambda>count. if count > maximum then Err (LauncherText (label @ '' count exceeds bound'')) else Ok count)"

definition decode_nibble :: "u8 \<Rightarrow> (launcher_error, u8) result" where
  "decode_nibble byte =
     (if 48 \<le> byte \<and> byte \<le> 57 then Ok (byte - 48)
      else if 97 \<le> byte \<and> byte \<le> 102 then Ok (byte - 97 + 10)
      else Err (LauncherText ''worker metadata is not lowercase hexadecimal''))"

fun decode_pairs :: "bytes \<Rightarrow> (launcher_error, bytes) result" where
  "decode_pairs (a # b # rest) =
     try_bind (decode_nibble a) (\<lambda>high.
     try_bind (decode_nibble b) (\<lambda>low.
     try_bind (decode_pairs rest) (\<lambda>decoded. Ok ((push_bit 4 high OR low) # decoded))))"
| "decode_pairs _ = Ok []"

definition decode_item :: "os_string option \<Rightarrow> (launcher_error, os_string) result" where
  "decode_item encoded =
     (case encoded of
        None \<Rightarrow> Err (LauncherText ''missing worker metadata item'')
      | Some bs \<Rightarrow>
          if length bs mod 2 \<noteq> 0 \<or> length bs div 2 > MAX_WORKER_METADATA_ITEM_BYTES
          then Err (LauncherText ''invalid or oversized worker metadata item'')
          else decode_pairs bs)"

definition next_item :: "os_string decoding" where
  "next_item encoded = (let (rest, item) = next_argument encoded in (rest, decode_item item))"

fun decode_arguments :: "nat \<Rightarrow> os_string list decoding" where
  "decode_arguments 0 encoded = (encoded, Ok [])"
| "decode_arguments (Suc n) encoded =
     seq_bind (next_item encoded) (\<lambda>encoded item.
     seq_bind (decode_arguments n encoded) (\<lambda>encoded items. (encoded, Ok (item # items))))"

fun decode_environment :: "nat \<Rightarrow> worker_environment decoding" where
  "decode_environment 0 encoded = (encoded, Ok [])"
| "decode_environment (Suc n) encoded =
     seq_bind (next_item encoded) (\<lambda>encoded key.
     seq_bind (next_item encoded) (\<lambda>encoded item.
     seq_bind (decode_environment n encoded) (\<lambda>encoded entries. (encoded, Ok ((key, item) # entries)))))"

definition is_absolute :: "path \<Rightarrow> bool" where
  "is_absolute p \<longleftrightarrow> p \<noteq> [] \<and> hd p = 47"

definition decode_version :: "unit decoding" where
  "decode_version encoded =
     (let (rest, version) = next_argument encoded in
      (rest,
       case version of
         Some v \<Rightarrow> if v = WORKER_METADATA_VERSION then Ok () else Err (LauncherText ''unsupported worker metadata version'')
       | None \<Rightarrow> Err (LauncherText ''missing worker metadata version'')))"

definition decode_cgroup :: "os_string option decoding" where
  "decode_cgroup encoded =
     (let (rest, flag) = next_argument encoded in
      case flag of
        Some v \<Rightarrow>
          if v = [48] then (rest, Ok None)
          else if v = [49] then
            seq_bind (next_item rest) (\<lambda>rest path.
              (rest, if is_absolute path then Ok (Some path)
                     else Err (LauncherText ''worker cgroup path is not absolute'')))
          else (rest, Err (LauncherText ''invalid worker cgroup metadata''))
      | None \<Rightarrow> (rest, Err (LauncherText ''missing worker cgroup metadata'')))"

definition next_count :: "string \<Rightarrow> usize \<Rightarrow> usize decoding" where
  "next_count label maximum encoded =
     (let (rest, item) = next_argument encoded in (rest, parse_count item label maximum))"

definition decode_metadata :: "launcher_metadata decoding" where
  "decode_metadata encoded =
     seq_bind (decode_version encoded) (\<lambda>encoded _.
     seq_bind (decode_cgroup encoded) (\<lambda>encoded cgroup_path.
     seq_bind (next_count ''argument'' MAX_WORKER_ARGUMENTS encoded) (\<lambda>encoded argument_count.
     seq_bind (decode_arguments argument_count encoded) (\<lambda>encoded arguments.
     seq_bind (next_count ''environment entry'' MAX_WORKER_ENVIRONMENT encoded) (\<lambda>encoded environment_count.
     seq_bind (decode_environment environment_count encoded) (\<lambda>encoded environment.
     seq_bind (encoded, map_err LauncherMetadata (metadata_new arguments environment)) (\<lambda>encoded metadata.
     (let (rest, trailing) = next_argument encoded in
      (rest,
       if trailing \<noteq> None then Err (LauncherText ''trailing launcher metadata'')
       else Ok \<lparr>lm_worker = metadata, lm_cgroup_path = cgroup_path\<rparr>)))))))))"

section \<open>Hexadecimal and decimal\<close>

lemma decode_nibble_digit: "n < 16 \<Longrightarrow> decode_nibble (HEX_DIGITS ! n) = Ok (of_nat n)"
proof -
  have "list_all (\<lambda>n. decode_nibble (HEX_DIGITS ! n) = Ok (of_nat n)) [0..<16]"
    by (simp add: upt_rec decode_nibble_def HEX_DIGITS_def)
  then show "n < 16 \<Longrightarrow> ?thesis" by (simp add: list_all_iff)
qed

lemma low_nibble: "(b :: u8) AND 0x0f = take_bit 4 b"
proof -
  have "(0x0f :: u8) = mask 4" by (simp add: mask_eq_exp_minus_1)
  then show ?thesis by (simp only: take_bit_eq_mask)
qed

lemma nibbles: "push_bit 4 (drop_bit 4 b) OR (b AND 0x0f) = (b :: u8)"
  unfolding low_nibble
  by (rule bit_word_eqI) (auto simp: bit_or_iff bit_push_bit_iff bit_drop_bit_eq bit_take_bit_iff not_le)

lemma nibble_bounds: "unat (drop_bit 4 (b :: u8)) < 16" "unat (b AND 0x0f) < 16"
proof -
  have "unat b < 256" using unsigned_less [of b] by simp
  then show "unat (drop_bit 4 b) < 16"
    by (simp add: drop_bit_eq_div unat_div less_mult_imp_div_less)
  show "unat (b AND 0x0f) < 16"
    unfolding low_nibble unsigned_take_bit_eq using take_bit_nat_less_exp [of 4 "unat b"] by simp
qed

lemma decode_pairs_encode_hex: "decode_pairs (encode_hex bs) = Ok bs"
proof (induction bs)
  case (Cons b bs)
  then show ?case
    using nibble_bounds [of b] by (simp add: encode_hex_def decode_nibble_digit nibbles)
qed (simp add: encode_hex_def)

lemma length_encode_hex: "length (encode_hex bs) = 2 * length bs"
  by (induction bs) (simp_all add: encode_hex_def)

lemma decode_item_encode_hex:
  "length bs \<le> MAX_WORKER_METADATA_ITEM_BYTES \<Longrightarrow> decode_item (Some (encode_hex bs)) = Ok bs"
  by (simp add: decode_item_def length_encode_hex decode_pairs_encode_hex)

lemma parse_digits_append:
  "parse_digits acc (xs @ ys) = Option.bind (parse_digits acc xs) (\<lambda>acc. parse_digits acc ys)"
  by (induction xs arbitrary: acc) auto

lemma digit_of_nat:
  assumes "d < 10"
  shows "48 \<le> (48 + of_nat d :: u8)" "(48 + of_nat d :: u8) \<le> 57" "unat (48 + of_nat d - 48 :: u8) = d"
    "(48 + of_nat d :: u8) \<noteq> 43"
proof -
  have "list_all (\<lambda>d. 48 \<le> (48 + of_nat d :: u8) \<and> (48 + of_nat d :: u8) \<le> 57
      \<and> unat (48 + of_nat d - 48 :: u8) = d \<and> (48 + of_nat d :: u8) \<noteq> 43) [0..<10]"
    by (simp add: upt_rec)
  with assms show "48 \<le> (48 + of_nat d :: u8)" "(48 + of_nat d :: u8) \<le> 57" "unat (48 + of_nat d - 48 :: u8) = d"
    "(48 + of_nat d :: u8) \<noteq> 43"
    by (simp_all add: list_all_iff)
qed

lemma parse_digits_to_string: "n \<le> usize_max \<Longrightarrow> parse_digits 0 (usize_to_string n) = Some n"
proof (induction n rule: usize_to_string.induct)
  case (1 n)
  show ?case
  proof (cases "n < 10")
    case True
    then show ?thesis using 1(2) digit_of_nat [OF True] by (simp add: usize_to_string.simps [of n])
  next
    case False
    have "parse_digits 0 (usize_to_string (n div 10)) = Some (n div 10)"
      using 1 False by (simp add: div_le_dividend le_trans)
    moreover have "n div 10 * 10 + n mod 10 = n" by simp
    ultimately show ?thesis
      using 1(2) False digit_of_nat [of "n mod 10"]
      by (simp add: usize_to_string.simps [of n] parse_digits_append)
  qed
qed

lemma usize_to_string_digits: "b \<in> set (usize_to_string n) \<Longrightarrow> 48 \<le> b \<and> b \<le> 57"
proof (induction n rule: usize_to_string.induct)
  case (1 n)
  then show ?case
    using digit_of_nat [of n] digit_of_nat [of "n mod 10"]
    by (auto simp: usize_to_string.simps [of n] split: if_splits)
qed

lemma usize_to_string_not_Nil: "usize_to_string n \<noteq> []"
  by (subst usize_to_string.simps) simp

lemma from_utf8_ascii:
  assumes "\<forall>b \<in> set bs. b < 128"
  shows "from_utf8 bs \<noteq> None"
proof -
  have ascii: "unat b < 128" if "b \<in> set bs" for b
    using assms that by (auto simp: word_less_nat_alt)
  have "as_bytes (map unat bs) = bs \<and> list_all is_scalar (map unat bs)"
    using ascii by (induction bs) (force simp: as_bytes_def utf8_char_def is_scalar_def)+
  then show ?thesis using from_utf8_iff [of bs "map unat bs"] by simp
qed

lemma parse_count_to_string:
  assumes "n \<le> maximum" and "maximum \<le> usize_max"
  shows "parse_count (Some (usize_to_string n)) label maximum = Ok n"
proof -
  obtain b rest where cons: "usize_to_string n = b # rest"
    using usize_to_string_not_Nil by (cases "usize_to_string n") auto
  then have "b \<noteq> 43" using usize_to_string_digits [of b n] by auto
  then have "parse_usize (usize_to_string n) = Some n"
    using parse_digits_to_string [of n] assms cons by (simp add: parse_usize_def)
  moreover have "from_utf8 (usize_to_string n) \<noteq> None"
  proof (rule from_utf8_ascii)
    show "\<forall>b \<in> set (usize_to_string n). b < 128"
    proof
      fix b assume "b \<in> set (usize_to_string n)"
      then have "b \<le> 57" using usize_to_string_digits by blast
      also have "(57 :: u8) < 128" by simp
      finally show "b < 128" .
    qed
  qed
  ultimately show ?thesis using assms by (simp add: parse_count_def)
qed

section \<open>Decoding what was encoded\<close>

lemma next_item_encode_hex:
  "length bs \<le> MAX_WORKER_METADATA_ITEM_BYTES \<Longrightarrow> next_item (encode_hex bs # rest) = (rest, Ok bs)"
  by (simp add: next_item_def next_argument_def decode_item_encode_hex)

lemma next_count_to_string:
  "n \<le> maximum \<Longrightarrow> maximum \<le> usize_max \<Longrightarrow>
     next_count label maximum (usize_to_string n # rest) = (rest, Ok n)"
  by (simp add: next_count_def next_argument_def parse_count_to_string)

lemma decode_arguments_encode:
  "list_all (\<lambda>item. length item \<le> MAX_WORKER_METADATA_ITEM_BYTES) items \<Longrightarrow>
     decode_arguments (length items) (map encode_hex items @ rest) = (rest, Ok items)"
  by (induction items) (simp_all add: next_item_encode_hex)

lemma decode_environment_encode:
  "list_all (\<lambda>(key, item). length key \<le> MAX_WORKER_METADATA_ITEM_BYTES \<and> length item \<le> MAX_WORKER_METADATA_ITEM_BYTES)
     entries \<Longrightarrow>
   decode_environment (length entries)
     (concat (map (\<lambda>(key, item). [encode_hex key, encode_hex item]) entries) @ rest) = (rest, Ok entries)"
  by (induction entries) (auto simp: next_item_encode_hex)

lemma metadata_total_Ok:
  "n \<le> usize_max \<Longrightarrow> metadata_total n items = Ok t \<longleftrightarrow>
     list_all (\<lambda>item. length item \<le> MAX_WORKER_METADATA_ITEM_BYTES) items
     \<and> t = min (n + sum_list (map length items)) usize_max"
proof (induction items arbitrary: n)
  case (Cons item items)
  have "min (n + length item) usize_max \<le> usize_max" by simp
  from Cons.IH [OF this] Cons.prems show ?case
    by (auto simp: usize_saturating_add_def not_less add.assoc min_add_distrib_left min.assoc)
qed auto

text \<open>What the checks of \<open>WorkerMetadata::new\<close> amount to.\<close>

definition metadata_bounded :: "os_string list \<Rightarrow> worker_environment \<Rightarrow> bool" where
  "metadata_bounded arguments environment \<longleftrightarrow>
     length arguments \<le> MAX_WORKER_ARGUMENTS \<and> length environment \<le> MAX_WORKER_ENVIRONMENT
     \<and> list_all (\<lambda>item. length item \<le> MAX_WORKER_METADATA_ITEM_BYTES) (metadata_items arguments environment)
     \<and> sum_list (map length (metadata_items arguments environment)) \<le> MAX_WORKER_METADATA_BYTES
     \<and> list_all (\<lambda>item. 0 \<notin> set item) (metadata_items arguments environment)
     \<and> list_all (\<lambda>(key, _). key \<noteq> [] \<and> 61 \<notin> set key) environment"

lemma list_all_metadata_items:
  "list_all P (metadata_items arguments environment) \<longleftrightarrow>
     list_all P arguments \<and> list_all (\<lambda>(key, item). P key \<and> P item) environment"
  by (auto simp: metadata_items_def list_all_iff)

lemma metadata_new_Ok:
  "metadata_new arguments environment = Ok m \<longleftrightarrow>
     m = \<lparr>md_arguments = arguments, md_environment = environment\<rparr> \<and> metadata_bounded arguments environment"
proof -
  have "MAX_WORKER_METADATA_BYTES < usize_max" by (simp add: launch_limits usize_max_def)
  then have total: "metadata_total 0 (metadata_items arguments environment) = Ok t \<and> t \<le> MAX_WORKER_METADATA_BYTES
      \<longleftrightarrow> list_all (\<lambda>item. length item \<le> MAX_WORKER_METADATA_ITEM_BYTES) (metadata_items arguments environment)
        \<and> t = sum_list (map length (metadata_items arguments environment)) \<and> t \<le> MAX_WORKER_METADATA_BYTES" for t
    by (auto simp: metadata_total_Ok min_def)
  have clean: "list_ex (\<lambda>(key, _). key = [] \<or> 0 \<in> set key \<or> 61 \<in> set key) environment
        \<or> list_ex (\<lambda>(_, item). 0 \<in> set item) environment \<or> list_ex (\<lambda>item. 0 \<in> set item) arguments
      \<longleftrightarrow> \<not> (list_all (\<lambda>(key, item). key \<noteq> [] \<and> 61 \<notin> set key) environment
        \<and> list_all (\<lambda>item. 0 \<notin> set item) (metadata_items arguments environment))"
    unfolding list_all_metadata_items by (auto simp: list_ex_iff list_all_iff)
  have "metadata_new arguments environment = Ok m \<longleftrightarrow>
      m = \<lparr>md_arguments = arguments, md_environment = environment\<rparr>
      \<and> length arguments \<le> MAX_WORKER_ARGUMENTS \<and> length environment \<le> MAX_WORKER_ENVIRONMENT
      \<and> (\<exists>t. metadata_total 0 (metadata_items arguments environment) = Ok t \<and> t \<le> MAX_WORKER_METADATA_BYTES)
      \<and> list_all (\<lambda>(key, item). key \<noteq> [] \<and> 61 \<notin> set key) environment
      \<and> list_all (\<lambda>item. 0 \<notin> set item) (metadata_items arguments environment)"
    unfolding metadata_new_def clean
    by (cases "metadata_total 0 (metadata_items arguments environment)") (auto simp: not_less)
  then show ?thesis
    unfolding total metadata_bounded_def by (auto simp: list_all_iff)
qed

lemma bounded_items:
  assumes "metadata_bounded arguments environment"
  shows "list_all (\<lambda>item. length item \<le> MAX_WORKER_METADATA_ITEM_BYTES) arguments"
    and "list_all (\<lambda>(key, item). length key \<le> MAX_WORKER_METADATA_ITEM_BYTES
      \<and> length item \<le> MAX_WORKER_METADATA_ITEM_BYTES) environment"
  using assms by (simp_all add: metadata_bounded_def list_all_metadata_items)

section \<open>Properties\<close>

text \<open>
  C28. The launcher starts what the master configured: whenever a command's arguments, environment
  and (absolute) cgroup path are accepted, the launcher's argument vector starts with the program
  and the launcher decodes the rest to exactly those arguments, entries and path.
\<close>

theorem launcher_decodes_command:
  assumes "into_launcher_command c launcher cgroup_path = Ok lc"
    and "pred_option is_absolute cgroup_path"
  shows "\<exists>rest. lc_args lc = cmd_program c # rest
    \<and> decode_metadata rest = ([], Ok \<lparr>lm_worker = \<lparr>md_arguments = cmd_args c, md_environment = cmd_env c\<rparr>,
        lm_cgroup_path = cgroup_path\<rparr>)"
proof -
  obtain cgroup where b: "metadata_bounded (cmd_args c) (cmd_env c)" and g: "cgroup_arguments cgroup_path = Ok cgroup"
    and lc: "lc_args lc = [cmd_program c, WORKER_METADATA_VERSION, if cgroup_path \<noteq> None then [49] else [48]] @ cgroup
      @ [usize_to_string (length (cmd_args c))] @ map encode_hex (cmd_args c)
      @ [usize_to_string (length (cmd_env c))]
      @ concat (map (\<lambda>(key, item). [encode_hex key, encode_hex item]) (cmd_env c))"
    using assms(1) by (auto simp: into_launcher_command_def metadata_new_Ok)
  have group: "decode_cgroup ((if cgroup_path \<noteq> None then [49] else [48]) # cgroup @ rest) = (rest, Ok cgroup_path)" for rest
    using g assms(2)
    by (cases cgroup_path) (auto simp: decode_cgroup_def next_argument_def cgroup_arguments_def
        next_item_encode_hex not_less split: if_splits)
  have counts: "length (cmd_args c) \<le> MAX_WORKER_ARGUMENTS" "length (cmd_env c) \<le> MAX_WORKER_ENVIRONMENT"
    "MAX_WORKER_ARGUMENTS \<le> usize_max" "MAX_WORKER_ENVIRONMENT \<le> usize_max"
    using b by (simp_all add: metadata_bounded_def launch_limits usize_max_def)
  have env: "decode_environment (length (cmd_env c))
      (concat (map (\<lambda>(key, item). [encode_hex key, encode_hex item]) (cmd_env c))) = ([], Ok (cmd_env c))"
    using decode_environment_encode [OF bounded_items(2) [OF b], of "[]"] by simp
  have "metadata_new (cmd_args c) (cmd_env c) = Ok \<lparr>md_arguments = cmd_args c, md_environment = cmd_env c\<rparr>"
    using b by (simp add: metadata_new_Ok)
  then show ?thesis
    using group counts
    by (simp add: lc decode_metadata_def decode_version_def next_argument_def next_count_to_string
        decode_arguments_encode [OF bounded_items(1) [OF b]] env)
qed

section \<open>Witness\<close>

definition example_command :: worker_command where
  "example_command = \<lparr>cmd_program = [47, 119], cmd_args = [[255]], cmd_env = [([75], [254])],
     cmd_require_cgroup_containment = False\<rparr>"

lemma example_launch:
  "into_launcher_command example_command [47, 108] (Some [47, 99])
     = Ok \<lparr>lc_program = [47, 108], lc_args = [[47, 119], [118, 50], [49], [50, 102, 54, 51], [49], [102, 102], [49],
         [52, 98], [102, 101]]\<rparr>"
proof -
  have m: "metadata_new [[255]] [([75], [254])] = Ok \<lparr>md_arguments = [[255]], md_environment = [([75], [254])]\<rparr>"
    by (simp add: metadata_new_Ok metadata_bounded_def metadata_items_def launch_limits)
  then show ?thesis
    by (simp add: into_launcher_command_def example_command_def cgroup_arguments_def launch_limits
        usize_to_string.simps encode_hex_def HEX_DIGITS_def drop_bit_eq_div)
qed

theorem launcher_decodes_command_witness:
  "into_launcher_command example_command [47, 108] (Some [47, 99])
     = Ok \<lparr>lc_program = [47, 108], lc_args = [[47, 119], [118, 50], [49], [50, 102, 54, 51], [49], [102, 102], [49],
         [52, 98], [102, 101]]\<rparr>
   \<and> decode_metadata [[118, 50], [49], [50, 102, 54, 51], [49], [102, 102], [49], [52, 98], [102, 101]]
     = ([], Ok \<lparr>lm_worker = \<lparr>md_arguments = [[255]], md_environment = [([75], [254])]\<rparr>, lm_cgroup_path = Some [47, 99]\<rparr>)"
  using example_launch launcher_decodes_command [OF example_launch]
  by (auto simp: is_absolute_def example_command_def)

end
