(* ===== verification/Channel.thy ===== *)
theory Channel
  imports Launch
begin

text \<open>
  Authentication on the supervision channel (\<open>crates/oxiroute-supervisor-process/src/lib.rs\<close>):
  the prefix of protocol version and spawn nonce that every payload carries, the check of each
  received frame against the peer's process, instance, generation, protocol and nonce, and the
  parent's check of the worker's first frame. Process identifiers the kernel reports
  (\<open>getpgid\<close>, the parent in \<open>/proc\<close>) and the raw numbers that are one (\<open>Pid::from_raw\<close>) are
  parameters.
\<close>

definition AUTH_PREFIX_SIZE :: usize where "AUTH_PREFIX_SIZE = 34"
definition CHALLENGE :: message_type where "CHALLENGE = 0xff00"
definition READY :: message_type where "READY = 0xff01"

type_synonym handshake_nonce = bytes

record worker_identity =
  wi_instance :: instance_token
  wi_generation :: generation_id
  wi_protocol :: u16

datatype channel_error =
    ChannelIo errno
  | ChannelTransport transport_error
  | WorkerGroupExited int
  | ChannelClosed
  | CredentialMismatch int int
  | InstanceMismatch
  | GenerationMismatch
  | ProtocolMismatch
  | NonceMismatch
  | InvalidAuthPayload

datatype handshake_error =
    AlreadyAdopted
  | MultipleThreads
  | HandshakeIo errno
  | HandshakeDescriptor errno
  | HandshakeTransport transport_error
  | UnexpectedHandshakeMessage
  | HandshakeInstanceMismatch
  | HandshakeGenerationMismatch
  | UnexpectedHandshakeDescriptors
  | InvalidHandshakePayload
  | HandshakeProtocolMismatch u16 u16
  | UnexpectedHandshakePayload

datatype cgroup_probe_status = ProbeReady | Unsupported | Unavailable | ReadOnly | MissingControllers | NotDelegated

datatype spawn_error =
    CgroupContainmentUnavailable cgroup_probe_status
  | CgroupContainmentSetupFailed
  | SpawnIo errno
  | SpawnTransport transport_error
  | SpawnMetadata metadata_error
  | HandshakeTimeout
  | EarlyExit int
  | InvalidChildPid
  | WorkerProcessGroupMismatch int int
  | WorkerParentMismatch int u32
  | SpawnUnexpectedMessage
  | SpawnInstanceMismatch
  | SpawnGenerationMismatch generation_id generation_id
  | SpawnUnexpectedDescriptors
  | SpawnInvalidPayload
  | SpawnProtocolMismatch u16 u16
  | SpawnNonceMismatch

datatype 'fd authenticated_frame = AuthenticatedFrame (af_frame: "'fd frame")

definition af_header :: "'fd authenticated_frame \<Rightarrow> frame_header" where
  "af_header a = frame_head (af_frame a)"

definition af_payload :: "'fd authenticated_frame \<Rightarrow> bytes" where
  "af_payload a = drop AUTH_PREFIX_SIZE (frame_payload (af_frame a))"

definition af_descriptors :: "'fd authenticated_frame \<Rightarrow> 'fd list" where
  "af_descriptors a = frame_descriptors (af_frame a)"

definition authenticated_payload :: "u16 \<Rightarrow> handshake_nonce \<Rightarrow> bytes \<Rightarrow> bytes" where
  "authenticated_payload protocol nonce payload = u16_to_be_bytes protocol @ nonce @ payload"

definition parse_authenticated_payload ::
  "bytes \<Rightarrow> (handshake_error, u16 \<times> handshake_nonce \<times> bytes) result" where
  "parse_authenticated_payload payload =
     (if length payload < AUTH_PREFIX_SIZE then Err InvalidHandshakePayload
      else Ok (u16_from_be_bytes (take 2 payload), slice payload 2 AUTH_PREFIX_SIZE,
               drop AUTH_PREFIX_SIZE payload))"

definition authenticate_frame ::
  "'fd frame \<Rightarrow> int \<Rightarrow> worker_identity \<Rightarrow> handshake_nonce
    \<Rightarrow> (channel_error, 'fd authenticated_frame) result" where
  "authenticate_frame frame expected_pid identity nonce =
     (if peer_pid (frame_peer_identity frame) \<noteq> expected_pid
        then Err (CredentialMismatch expected_pid (peer_pid (frame_peer_identity frame)))
      else if fh_instance (frame_head frame) \<noteq> wi_instance identity then Err InstanceMismatch
      else if fh_generation (frame_head frame) \<noteq> wi_generation identity then Err GenerationMismatch
      else
        let payload = frame_payload frame
        in if length payload < AUTH_PREFIX_SIZE then Err InvalidAuthPayload
           else if u16_from_be_bytes (take 2 payload) \<noteq> wi_protocol identity then Err ProtocolMismatch
           else if slice payload 2 AUTH_PREFIX_SIZE \<noteq> nonce then Err NonceMismatch
           else Ok (AuthenticatedFrame frame))"

section \<open>The worker's endpoint\<close>

record 'fd worker_endpoint =
  we_endpoint :: "'fd seqpacket_endpoint"
  we_expected_parent_pid :: int
  we_identity :: worker_identity
  we_nonce :: handshake_nonce

definition worker_send ::
  "'fd send_env \<Rightarrow> 'fd worker_endpoint \<Rightarrow> message_type \<Rightarrow> frame_flags \<Rightarrow> bytes \<Rightarrow> 'fd list
    \<Rightarrow> 'fd worker_endpoint \<times> (transport_error, sequence) result" where
  "worker_send env we mt flags payload fds =
     (let (ep, res) = endpoint_send env (we_endpoint we) mt flags (wi_instance (we_identity we))
            (wi_generation (we_identity we))
            (authenticated_payload (wi_protocol (we_identity we)) (we_nonce we) payload) fds
      in (we\<lparr>we_endpoint := ep\<rparr>, res))"

definition worker_receive ::
  "'fd fd_env \<Rightarrow> 'fd worker_endpoint \<Rightarrow> (errno, 'fd received) result
    \<Rightarrow> 'fd worker_endpoint \<times> (channel_error, 'fd authenticated_frame) result" where
  "worker_receive env we recvmsg =
     (let (ep, res) = endpoint_receive env (we_endpoint we) recvmsg
      in (we\<lparr>we_endpoint := ep\<rparr>,
          try_bind (map_err ChannelTransport res) (\<lambda>frame.
            authenticate_frame frame (we_expected_parent_pid we) (we_identity we) (we_nonce we))))"

text \<open>The challenge part of \<open>adopt_at_process_entry\<close>, after standard input was adopted as the
  endpoint: the first frame gives the nonce and the parent's process, and \<open>READY\<close> answers it.\<close>

definition worker_handshake ::
  "'fd fd_env \<Rightarrow> 'fd send_env \<Rightarrow> 'fd seqpacket_endpoint \<Rightarrow> worker_identity \<Rightarrow> (errno, 'fd received) result
    \<Rightarrow> (handshake_error, 'fd worker_endpoint) result" where
  "worker_handshake fenv senv endpoint identity recvmsg =
     (let (ep, res) = endpoint_receive fenv endpoint recvmsg in
      try_bind (map_err HandshakeTransport res) (\<lambda>challenge.
      if fh_message_type (frame_head challenge) \<noteq> CHALLENGE then Err UnexpectedHandshakeMessage
      else if fh_instance (frame_head challenge) \<noteq> wi_instance identity then Err HandshakeInstanceMismatch
      else if fh_generation (frame_head challenge) \<noteq> wi_generation identity then Err HandshakeGenerationMismatch
      else if frame_descriptors challenge \<noteq> [] then Err UnexpectedHandshakeDescriptors
      else
        try_bind (parse_authenticated_payload (frame_payload challenge)) (\<lambda>(protocol, nonce, payload).
        if protocol \<noteq> wi_protocol identity then Err (HandshakeProtocolMismatch (wi_protocol identity) protocol)
        else if payload \<noteq> [] then Err UnexpectedHandshakePayload
        else
          let (ep', sent) = endpoint_send senv ep READY 0 (wi_instance identity) (wi_generation identity)
                (authenticated_payload protocol nonce []) [] in
          try_bind (map_err HandshakeTransport sent) (\<lambda>_.
            Ok \<lparr>we_endpoint = ep', we_expected_parent_pid = peer_pid (frame_peer_identity challenge),
                we_identity = identity, we_nonce = nonce\<rparr>))))"

text \<open>The parent's check of the \<open>READY\<close> frame.\<close>

definition verify_startup_ready ::
  "(int \<Rightarrow> int option) \<Rightarrow> (int \<Rightarrow> (errno, int) result) \<Rightarrow> (int \<Rightarrow> (errno, u32) result) \<Rightarrow> 'fd frame \<Rightarrow> u32 \<Rightarrow> int
    \<Rightarrow> worker_identity \<Rightarrow> handshake_nonce \<Rightarrow> (spawn_error, int) result" where
  "verify_startup_ready pid_from_raw getpgid process_parent_pid frame launcher_pid pgid identity nonce =
     (case pid_from_raw (peer_pid (frame_peer_identity frame)) of
        None \<Rightarrow> Err InvalidChildPid
      | Some worker_pid \<Rightarrow>
        try_bind (map_err SpawnIo (getpgid worker_pid)) (\<lambda>group.
        if group \<noteq> pgid then Err (WorkerProcessGroupMismatch worker_pid pgid)
        else
          try_bind (map_err SpawnIo (process_parent_pid worker_pid)) (\<lambda>parent.
          if parent \<noteq> launcher_pid then Err (WorkerParentMismatch worker_pid launcher_pid)
          else if fh_message_type (frame_head frame) \<noteq> READY then Err SpawnUnexpectedMessage
          else if fh_instance (frame_head frame) \<noteq> wi_instance identity then Err SpawnInstanceMismatch
          else if fh_generation (frame_head frame) \<noteq> wi_generation identity
            then Err (SpawnGenerationMismatch (wi_generation identity) (fh_generation (frame_head frame)))
          else if frame_descriptors frame \<noteq> [] then Err SpawnUnexpectedDescriptors
          else
            (case parse_authenticated_payload (frame_payload frame) of
               Err _ \<Rightarrow> Err SpawnInvalidPayload
             | Ok (protocol, received_nonce, payload) \<Rightarrow>
                 if protocol \<noteq> wi_protocol identity
                   then Err (SpawnProtocolMismatch (wi_protocol identity) protocol)
                 else if received_nonce \<noteq> nonce then Err SpawnNonceMismatch
                 else if payload \<noteq> [] then Err SpawnInvalidPayload
                 else Ok worker_pid))))"

section \<open>Lemmas\<close>

lemma slice_auth_prefix:
  assumes "length nonce = 32"
  shows "length (authenticated_payload protocol nonce payload) \<ge> AUTH_PREFIX_SIZE"
    and "take 2 (authenticated_payload protocol nonce payload) = u16_to_be_bytes protocol"
    and "slice (authenticated_payload protocol nonce payload) 2 AUTH_PREFIX_SIZE = nonce"
    and "drop AUTH_PREFIX_SIZE (authenticated_payload protocol nonce payload) = payload"
  using assms by (simp_all add: authenticated_payload_def AUTH_PREFIX_SIZE_def slice_def)

lemma parse_authenticated:
  "length nonce = 32 \<Longrightarrow>
     parse_authenticated_payload (authenticated_payload protocol nonce payload) = Ok (protocol, nonce, payload)"
  using slice_auth_prefix [of nonce protocol payload]
  by (simp add: parse_authenticated_payload_def)

lemma auth_prefix_split:
  assumes "AUTH_PREFIX_SIZE \<le> length payload"
  shows "payload = authenticated_payload (u16_from_be_bytes (take 2 payload))
      (slice payload 2 AUTH_PREFIX_SIZE) (drop AUTH_PREFIX_SIZE payload)"
    and "length (slice payload 2 AUTH_PREFIX_SIZE) = 32"
proof -
  have len: "34 \<le> length payload" using assms by (simp add: AUTH_PREFIX_SIZE_def)
  have "payload = slice payload 0 2 @ slice payload 2 34 @ drop 34 payload"
    using slice_drop [of 0 2 payload] slice_drop [of 2 34 payload] by simp
  moreover have "u16_to_be_bytes (u16_from_be_bytes (slice payload 0 2)) = slice payload 0 2"
    using len be_iffs(1) [of "slice payload 0 2" "u16_from_be_bytes (slice payload 0 2)"] by simp
  moreover have "take 2 payload = slice payload 0 2" by (simp add: slice_def)
  ultimately show "payload = authenticated_payload (u16_from_be_bytes (take 2 payload))
      (slice payload 2 AUTH_PREFIX_SIZE) (drop AUTH_PREFIX_SIZE payload)"
    by (simp add: authenticated_payload_def AUTH_PREFIX_SIZE_def)
  show "length (slice payload 2 AUTH_PREFIX_SIZE) = 32" using len by (simp add: AUTH_PREFIX_SIZE_def)
qed

lemma authenticate_frame_Ok:
  assumes "length nonce = 32"
  shows "authenticate_frame f pid identity nonce = Ok a \<longleftrightarrow>
    a = AuthenticatedFrame f \<and> peer_pid (frame_peer_identity f) = pid
    \<and> fh_instance (frame_head f) = wi_instance identity \<and> fh_generation (frame_head f) = wi_generation identity
    \<and> frame_payload f = authenticated_payload (wi_protocol identity) nonce (af_payload (AuthenticatedFrame f))"
proof -
  have "AUTH_PREFIX_SIZE \<le> length (frame_payload f) \<and> u16_from_be_bytes (take 2 (frame_payload f)) = wi_protocol identity
      \<and> slice (frame_payload f) 2 AUTH_PREFIX_SIZE = nonce
    \<longleftrightarrow> frame_payload f = authenticated_payload (wi_protocol identity) nonce (drop AUTH_PREFIX_SIZE (frame_payload f))"
    using auth_prefix_split [of "frame_payload f"] slice_auth_prefix [OF assms]
    by (metis from_to_be(1))
  then show ?thesis
    by (auto simp: authenticate_frame_def af_payload_def Let_def not_less)
qed

text \<open>A handshake that succeeds on a well-formed challenge sent \<open>READY\<close> with the challenge's nonce.\<close>

lemma worker_handshake_Ok:
  assumes "worker_handshake fenv wenv child identity (Ok challenge) = Ok we"
    and "endpoint_receive fenv child (Ok challenge) = (child1, Ok f)"
    and "frame_payload f = authenticated_payload protocol nonce []" and "length nonce = 32"
  shows "\<exists>ep' k. endpoint_send wenv child1 READY 0 (wi_instance identity) (wi_generation identity)
      (authenticated_payload protocol nonce []) [] = (ep', Ok k)
    \<and> we = \<lparr>we_endpoint = ep', we_expected_parent_pid = peer_pid (frame_peer_identity f),
        we_identity = identity, we_nonce = nonce\<rparr>"
  using assms(1-3) parse_authenticated [OF assms(4)]
  by (auto simp: worker_handshake_def split: if_splits prod.splits sum.splits)

section \<open>Properties\<close>

text \<open>
  C26. A frame is authenticated exactly when the kernel names the expected process as its sender,
  it carries the expected instance and generation, and its payload starts with the agreed protocol
  version and the spawn nonce; what follows that prefix is the payload handed on.
\<close>

theorem authenticate_frame_exact:
  assumes "length nonce = 32"
  shows "authenticate_frame f pid identity nonce = Ok a \<longleftrightarrow>
    a = AuthenticatedFrame f \<and> peer_pid (frame_peer_identity f) = pid
    \<and> fh_instance (frame_head f) = wi_instance identity \<and> fh_generation (frame_head f) = wi_generation identity
    \<and> frame_payload f = authenticated_payload (wi_protocol identity) nonce (af_payload a)"
  using authenticate_frame_Ok [OF assms, of f pid identity a] by auto

text \<open>
  C27. The spawn handshake agrees on the nonce: when the kernel carries to the worker whatever the
  parent's challenge gave to \<open>sendmsg\<close> and the worker's handshake succeeds, the worker holds the
  parent's nonce and process identifier, and whatever packet the worker's handshake gave to its own
  \<open>sendmsg\<close>, carried to the parent with the credentials of a direct child of the launcher in the
  pinned group, is received and passes the parent's check, with the endpoints in step again.
\<close>

theorem spawn_handshake_agrees:
  assumes "length nonce = 32" and "length (wi_instance identity) = 16"
    and "endpoint_send penv parent CHALLENGE 0 (wi_instance identity) (wi_generation identity)
           (authenticated_payload (wi_protocol identity) nonce []) [] = (parent1, Ok seqno)"
    and "in_sync parent child" and "in_sync child parent"
    and "carried penv fenv parent_peer challenge"
    and "worker_handshake fenv wenv child identity (Ok challenge) = Ok we"
    and "carried wenv fenv' worker_peer answer"
    and "pid_from_raw (peer_pid worker_peer) = Some worker_pid"
    and "getpgid worker_pid = Ok pgid" and "process_parent_pid worker_pid = Ok launcher_pid"
  shows "we_nonce we = nonce \<and> we_expected_parent_pid we = peer_pid parent_peer
    \<and> (\<exists>parent2 ready. endpoint_receive fenv' parent1 (Ok answer) = (parent2, Ok ready)
        \<and> verify_startup_ready pid_from_raw getpgid process_parent_pid ready launcher_pid pgid identity nonce
          = Ok worker_pid
        \<and> in_sync (we_endpoint we) parent2)"
proof -
  obtain child1 f where f: "endpoint_receive fenv child (Ok challenge) = (child1, Ok f)"
    "fh_message_type (frame_head f) = CHALLENGE" "fh_instance (frame_head f) = wi_instance identity"
    "fh_generation (frame_head f) = wi_generation identity" "frame_descriptors f = []"
    "frame_payload f = authenticated_payload (wi_protocol identity) nonce []" "frame_peer_identity f = parent_peer"
    "in_sync parent1 child1"
    using transport_delivery [OF assms(3,4,2,6)] by metis
  obtain ep' k where sent: "endpoint_send wenv child1 READY 0 (wi_instance identity) (wi_generation identity)
      (authenticated_payload (wi_protocol identity) nonce []) [] = (ep', Ok k)"
    and we: "we = \<lparr>we_endpoint = ep', we_expected_parent_pid = peer_pid parent_peer,
      we_identity = identity, we_nonce = nonce\<rparr>"
    using worker_handshake_Ok [OF assms(7) f(1) f(6) assms(1)] f(7) by metis
  have "ep_next_send_sequence child1 = ep_next_send_sequence child"
    using f(1) by (auto simp: endpoint_receive_def split: sum.splits)
  then have "in_sync child1 parent1"
    using assms(5) endpoint_send_Ok(6) [OF assms(3)] by (simp add: in_sync_def)
  from transport_delivery [OF sent this assms(2,8)]
  obtain parent2 ready where r: "endpoint_receive fenv' parent1 (Ok answer) = (parent2, Ok ready)"
    "fh_message_type (frame_head ready) = READY" "fh_instance (frame_head ready) = wi_instance identity"
    "fh_generation (frame_head ready) = wi_generation identity" "frame_descriptors ready = []"
    "frame_payload ready = authenticated_payload (wi_protocol identity) nonce []"
    "frame_peer_identity ready = worker_peer" "in_sync ep' parent2"
    by metis
  have "verify_startup_ready pid_from_raw getpgid process_parent_pid ready launcher_pid pgid identity nonce
      = Ok worker_pid"
    using r assms(9-11) by (simp add: verify_startup_ready_def parse_authenticated [OF assms(1)])
  with we r(1,8) show ?thesis by simp
qed

section \<open>Witnesses\<close>

definition example_nonce :: handshake_nonce where
  "example_nonce = replicate 32 5"

definition example_identity :: worker_identity where
  "example_identity = \<lparr>wi_instance = example_token, wi_generation = 9, wi_protocol = 2\<rparr>"

abbreviation example_prefix :: bytes where
  "example_prefix \<equiv> authenticated_payload (wi_protocol example_identity) example_nonce []"

abbreviation example_control :: "message_type \<Rightarrow> bytes" where
  "example_control mt \<equiv> packet_bytes mt 0 example_token 9 example_prefix 0 1"

definition example_challenge :: "nat received" where
  "example_challenge = carry (example_control CHALLENGE) [] example_peer"

definition example_answer :: "nat received" where
  "example_answer = carry (example_control READY) []
     \<lparr>peer_pid = 77, peer_uid = 0, peer_gid = 0\<rparr>"

lemma length_example_nonce: "length example_nonce = 32"
  by (simp add: example_nonce_def)

lemma length_example_prefix: "length example_prefix \<le> MAX_PAYLOAD_SIZE"
  by (simp add: authenticated_payload_def length_example_nonce frame_limits)

definition example_challenge_frame :: "nat frame" where
  "example_challenge_frame =
     \<lparr>frame_head = \<lparr>fh_message_type = CHALLENGE, fh_payload_length = of_nat (length example_prefix), fh_flags = 0,
        fh_descriptor_count = of_nat (length ([] :: nat list)), fh_sequence = 1, fh_instance = example_token,
        fh_generation = 9\<rparr>,
      frame_payload = example_prefix, frame_descriptors = [], frame_peer_identity = example_peer\<rparr>"

lemma example_challenge_received:
  "endpoint_receive example_fd_env example_endpoint (Ok example_challenge)
     = (example_endpoint\<lparr>ep_last_received_sequence := Some 1\<rparr>, Ok example_challenge_frame)"
proof -
  have "delivered example_fd_env (packet_bytes CHALLENGE 0 example_token 9 example_prefix (length ([] :: nat list)) 1)
      [] example_peer example_challenge"
    unfolding example_challenge_def list.size by (rule delivered_carry)
  from check_packet_delivered [OF length_example_token length_example_prefix _ _ this, of example_endpoint]
  show ?thesis
    by (simp add: endpoint_receive_def example_challenge_frame_def expected_sequence_def example_endpoint_def)
qed

definition example_worker :: "nat worker_endpoint" where
  "example_worker = \<lparr>we_endpoint = example_endpoint\<lparr>ep_last_received_sequence := Some 1, ep_next_send_sequence := 2\<rparr>,
     we_expected_parent_pid = 42, we_identity = example_identity, we_nonce = example_nonce\<rparr>"

lemma example_control_send:
  assumes "ep_next_send_sequence ep = 1"
  shows "endpoint_send (link_env (example_control mt) []) ep mt 0 (wi_instance example_identity)
      (wi_generation example_identity) example_prefix [] = (ep\<lparr>ep_next_send_sequence := 2\<rparr>, Ok 1)"
  using assms link_send_ok [OF length_example_prefix _ length_example_token, of "[]" ep 2 "example_control mt" mt 0 9]
  by (simp add: u64_checked_add_def example_identity_def)

lemma example_handshake:
  "worker_handshake example_fd_env (link_env (example_control READY) []) example_endpoint example_identity
     (Ok example_challenge) = Ok example_worker"
proof -
  let ?ep = "example_endpoint\<lparr>ep_last_received_sequence := Some 1\<rparr>"
  have "endpoint_send (link_env (example_control READY) []) ?ep READY 0 example_token 9 example_prefix []
      = (?ep\<lparr>ep_next_send_sequence := 2\<rparr>, Ok 1)"
    using example_control_send [of ?ep READY] by (simp add: example_endpoint_def example_identity_def)
  then show ?thesis
    by (simp add: worker_handshake_def example_challenge_received example_challenge_frame_def
        parse_authenticated [OF length_example_nonce] example_identity_def example_worker_def example_peer_def)
qed

theorem spawn_handshake_agrees_witness:
  "we_nonce example_worker = example_nonce
   \<and> (\<exists>parent2 ready. endpoint_receive example_fd_env (example_endpoint\<lparr>ep_next_send_sequence := 2\<rparr>) (Ok example_answer)
        = (parent2, Ok ready)
      \<and> verify_startup_ready Some (\<lambda>_. Ok 70) (\<lambda>_. Ok 70) ready 70 70 example_identity example_nonce = Ok 77)"
proof -
  have send: "endpoint_send (link_env (example_control CHALLENGE) []) example_endpoint CHALLENGE 0
      (wi_instance example_identity) (wi_generation example_identity) example_prefix []
      = (example_endpoint\<lparr>ep_next_send_sequence := 2\<rparr>, Ok 1)"
    by (rule example_control_send) (simp add: example_endpoint_def)
  have inst: "length (wi_instance example_identity) = 16"
    by (simp add: example_identity_def length_example_token)
  have there: "carried (link_env (example_control CHALLENGE) []) example_fd_env example_peer example_challenge"
    and reply: "carried (link_env (example_control READY) []) example_fd_env
      \<lparr>peer_pid = 77, peer_uid = 0, peer_gid = 0\<rparr> example_answer"
    unfolding example_challenge_def example_answer_def by (rule carried_link)+
  show ?thesis
    using spawn_handshake_agrees [OF length_example_nonce inst send example_in_sync example_in_sync there
        example_handshake reply, of Some 77 "\<lambda>_. Ok 70" 70 "\<lambda>_. Ok 70" 70]
    by auto
qed

theorem authenticate_frame_exact_witness:
  "authenticate_frame example_challenge_frame 42 example_identity example_nonce
     = Ok (AuthenticatedFrame example_challenge_frame)"
  using authenticate_frame_exact [OF length_example_nonce, of example_challenge_frame 42 example_identity
      "AuthenticatedFrame example_challenge_frame"]
  by (simp add: example_challenge_frame_def example_peer_def example_identity_def af_payload_def
      slice_auth_prefix [OF length_example_nonce])

end
