(* ===== verification/Status.thy ===== *)
theory Status
  imports Channel Utf8
begin

text \<open>
  Worker status observations on the wire (\<open>crates/oxiroute-supervisor-master/src/status.rs\<close>):
  the status a worker reports, its bounded binary encoding and the master's decoder. Each part of
  a status has its image, the exact bytes of its encoding, and an interpretation of the codec
  contract.
\<close>

unbundle bit_operations_syntax

definition CONTROL_PROTOCOL_VERSION :: u16 where "CONTROL_PROTOCOL_VERSION = 2"
definition STATUS_MESSAGE :: message_type where "STATUS_MESSAGE = 0x181"
definition MAX_STATUS_BYTES :: usize where "MAX_STATUS_BYTES = 60 * 1024"
definition MAX_STATUS_LISTENERS :: usize where "MAX_STATUS_LISTENERS = 64"
definition MAX_STATUS_EVENTS :: usize where "MAX_STATUS_EVENTS = 64"
definition MAX_STATUS_STRING_BYTES :: usize where "MAX_STATUS_STRING_BYTES = 1024"
definition STATUS_FORMAT_VERSION :: u16 where "STATUS_FORMAT_VERSION = 1"

lemmas status_limits = CONTROL_PROTOCOL_VERSION_def STATUS_MESSAGE_def MAX_STATUS_BYTES_def
  MAX_STATUS_LISTENERS_def MAX_STATUS_EVENTS_def MAX_STATUS_STRING_BYTES_def STATUS_FORMAT_VERSION_def

datatype worker_lifecycle =
  WorkerStarting | WorkerReady | WorkerActive | WorkerQuiescing | WorkerDraining | WorkerReactivating
  | WorkerStopping | WorkerFailed

datatype listener_state = ListenerConfigured | ListenerListening | ListenerStopped | ListenerFailed

datatype administrative_state = AdminReady | AdminDrain | AdminMaintenance

record worker_metrics =
  m_accepted_connections :: u64
  m_rejected_connections :: u64
  m_active_connections :: u64
  m_bytes_received :: u64
  m_bytes_sent :: u64

record listener_status =
  l_name :: str
  l_protocol :: str
  l_bind :: str
  l_administrative_state :: administrative_state
  l_state :: listener_state
  l_accepted_connections :: u64
  l_rejected_connections :: u64
  l_active_connections :: u64
  l_bytes_received :: u64
  l_bytes_sent :: u64

record generation_status =
  g_disk_revision :: "str option"
  g_candidate_revision :: "str option"
  g_active_revision :: "str option"
  g_previous_revision :: "str option"
  g_quarantined_revision :: "str option"
  g_active_accepting :: bool
  g_degraded :: bool
  g_last_failure :: "str option"
  g_prepares :: u64
  g_activations :: u64
  g_failures :: u64
  g_rollbacks :: u64

record event_record =
  e_cursor :: u64
  e_timestamp_unix_ms :: "u64 option"
  e_event :: str
  e_outcome :: str
  e_revision :: "str option"
  e_certificate :: "str option"
  e_correlation_id :: "str option"
  e_source :: "str option"
  e_operation :: "str option"

record worker_status =
  s_sequence :: u64
  s_generation_id :: generation_id
  s_lifecycle :: worker_lifecycle
  s_administrative_state :: administrative_state
  s_accepting :: bool
  s_runtime_started :: bool
  s_runtime_failed :: bool
  s_drained :: bool
  s_generation :: generation_status
  s_metrics :: "worker_metrics option"
  s_listeners :: "listener_status list"
  s_degraded :: bool
  s_degradation :: "str option"
  s_event_cursor :: u64
  s_event_cursor_lost :: bool
  s_events :: "event_record list"

datatype status_error =
    StatusUnexpectedMessage u16
  | StatusUnexpectedDescriptors
  | StatusTooLarge usize
  | StatusVersionMismatch u16 u16
  | StatusInvalidPayload
  | StatusStringTooLong usize
  | CollectionTooLong string
  | StatusAllocation

definition status_wire :: "status_error wire_protocol" where
  "status_wire = \<lparr>wire_invalid = StatusInvalidPayload,
     wire_too_large = (\<lambda>actual maximum. StatusTooLarge maximum), wire_allocation = StatusAllocation\<rparr>"

section \<open>Tags\<close>

fun encode_lifecycle :: "worker_lifecycle \<Rightarrow> u8" where
  "encode_lifecycle WorkerStarting = 1"
| "encode_lifecycle WorkerReady = 2"
| "encode_lifecycle WorkerActive = 3"
| "encode_lifecycle WorkerQuiescing = 4"
| "encode_lifecycle WorkerDraining = 5"
| "encode_lifecycle WorkerReactivating = 6"
| "encode_lifecycle WorkerStopping = 7"
| "encode_lifecycle WorkerFailed = 8"

definition decode_lifecycle :: "u8 \<Rightarrow> (status_error, worker_lifecycle) result" where
  "decode_lifecycle v =
     (if v = 1 then Ok WorkerStarting
      else if v = 2 then Ok WorkerReady
      else if v = 3 then Ok WorkerActive
      else if v = 4 then Ok WorkerQuiescing
      else if v = 5 then Ok WorkerDraining
      else if v = 6 then Ok WorkerReactivating
      else if v = 7 then Ok WorkerStopping
      else if v = 8 then Ok WorkerFailed
      else Err StatusInvalidPayload)"

fun encode_listener_state :: "listener_state \<Rightarrow> u8" where
  "encode_listener_state ListenerConfigured = 0"
| "encode_listener_state ListenerListening = 1"
| "encode_listener_state ListenerStopped = 2"
| "encode_listener_state ListenerFailed = 3"

definition decode_listener_state :: "u8 \<Rightarrow> (status_error, listener_state) result" where
  "decode_listener_state v =
     (if v = 0 then Ok ListenerConfigured
      else if v = 1 then Ok ListenerListening
      else if v = 2 then Ok ListenerStopped
      else if v = 3 then Ok ListenerFailed
      else Err StatusInvalidPayload)"

fun encode_administrative_state :: "administrative_state \<Rightarrow> u8" where
  "encode_administrative_state AdminReady = 0"
| "encode_administrative_state AdminDrain = 1"
| "encode_administrative_state AdminMaintenance = 2"

definition decode_administrative_state :: "u8 \<Rightarrow> (status_error, administrative_state) result" where
  "decode_administrative_state v =
     (if v = 0 then Ok AdminReady
      else if v = 1 then Ok AdminDrain
      else if v = 2 then Ok AdminMaintenance
      else Err StatusInvalidPayload)"

definition bit_of :: "bool \<Rightarrow> u8" where
  "bit_of b = (if b then 1 else 0)"

definition status_flags :: "worker_status \<Rightarrow> u8" where
  "status_flags s =
     bit_of (s_accepting s) OR push_bit 1 (bit_of (s_runtime_started s))
     OR push_bit 2 (bit_of (s_runtime_failed s)) OR push_bit 3 (bit_of (s_drained s))
     OR push_bit 4 (bit_of (s_degraded s))"

section \<open>Encoder\<close>

definition writer_string :: "str \<Rightarrow> status_error writing" where
  "writer_string v =
     (if str_len v > MAX_STATUS_STRING_BYTES then write_fail (StatusStringTooLong MAX_STATUS_STRING_BYTES)
      else
        (case u16_try_from (str_len v) of
           None \<Rightarrow> write_fail (StatusStringTooLong MAX_STATUS_STRING_BYTES)
         | Some n \<Rightarrow> write_all [writer_u16 n, writer_bytes (as_bytes v)]))"

definition writer_optional_string :: "str option \<Rightarrow> status_error writing" where
  "writer_optional_string v =
     (case v of
        Some s \<Rightarrow> write_all [writer_u8 1, writer_string s]
      | None \<Rightarrow> writer_u8 0)"

definition encode_generation :: "generation_status \<Rightarrow> status_error writing" where
  "encode_generation g =
     write_all
      (map writer_optional_string
        [g_disk_revision g, g_candidate_revision g, g_active_revision g, g_previous_revision g,
         g_quarantined_revision g]
       @ [writer_u8 (bit_of (g_active_accepting g)),
          writer_u8 (bit_of (g_degraded g)),
          writer_optional_string (g_last_failure g),
          writer_u64 (g_prepares g),
          writer_u64 (g_activations g),
          writer_u64 (g_failures g),
          writer_u64 (g_rollbacks g)])"

definition encode_timestamp :: "u64 option \<Rightarrow> status_error writing" where
  "encode_timestamp ts =
     (case ts of Some t \<Rightarrow> write_all [writer_u8 1, writer_u64 t] | None \<Rightarrow> writer_u8 0)"

definition encode_event :: "event_record \<Rightarrow> status_error writing" where
  "encode_event e =
     (if e_cursor e = 0 then write_fail StatusInvalidPayload
      else write_all
        [writer_u64 (e_cursor e),
         encode_timestamp (e_timestamp_unix_ms e),
         writer_string (e_event e),
         writer_string (e_outcome e),
         writer_optional_string (e_revision e),
         writer_optional_string (e_certificate e),
         writer_optional_string (e_correlation_id e),
         writer_optional_string (e_source e),
         writer_optional_string (e_operation e)])"

definition encode_metrics :: "worker_metrics option \<Rightarrow> status_error writing" where
  "encode_metrics metrics =
     (case metrics of
        Some m \<Rightarrow> write_all
          [writer_u8 1,
           writer_u64 (m_accepted_connections m),
           writer_u64 (m_rejected_connections m),
           writer_u64 (m_active_connections m),
           writer_u64 (m_bytes_received m),
           writer_u64 (m_bytes_sent m)]
      | None \<Rightarrow> writer_u8 0)"

definition encode_listener :: "listener_status \<Rightarrow> status_error writing" where
  "encode_listener l = write_all
     [writer_string (l_name l),
      writer_string (l_protocol l),
      writer_string (l_bind l),
      writer_u8 (encode_administrative_state (l_administrative_state l)),
      writer_u8 (encode_listener_state (l_state l)),
      writer_u64 (l_accepted_connections l),
      writer_u64 (l_rejected_connections l),
      writer_u64 (l_active_connections l),
      writer_u64 (l_bytes_received l),
      writer_u64 (l_bytes_sent l)]"

definition encode_degradation :: "str option \<Rightarrow> status_error writing" where
  "encode_degradation d =
     write_all (writer_u8 (bit_of (d \<noteq> None)) # (case d of Some s \<Rightarrow> [writer_string s] | None \<Rightarrow> []))"

definition encode_status_body :: "worker_status \<Rightarrow> status_error writing" where
  "encode_status_body s = write_all
     [writer_u16 STATUS_FORMAT_VERSION,
      writer_u16 CONTROL_PROTOCOL_VERSION,
      writer_u64 (s_sequence s),
      writer_u64 (s_generation_id s),
      writer_u8 (encode_lifecycle (s_lifecycle s)),
      writer_u8 (status_flags s),
      writer_u8 (encode_administrative_state (s_administrative_state s)),
      encode_generation (s_generation s),
      encode_metrics (s_metrics s),
      writer_count StatusInvalidPayload (length (s_listeners s)),
      write_all (map encode_listener (s_listeners s)),
      encode_degradation (s_degradation s),
      writer_u64 (s_event_cursor s),
      writer_u8 (bit_of (s_event_cursor_lost s)),
      writer_count StatusInvalidPayload (length (s_events s)),
      write_all (map encode_event (s_events s))]"

definition encode_status :: "usize \<Rightarrow> worker_status \<Rightarrow> (status_error, bytes) result" where
  "encode_status limit s =
     (if s_sequence s = 0 \<or> length (s_listeners s) > MAX_STATUS_LISTENERS then Err StatusInvalidPayload
      else if length (s_events s) > MAX_STATUS_EVENTS then Err (CollectionTooLong ''events'')
      else
        (case encode_status_body s (writer_new status_wire limit MAX_STATUS_BYTES) of
           (w, Ok _) \<Rightarrow> Ok (writer_finish w)
         | (_, Err e) \<Rightarrow> Err e))"

section \<open>Decoder\<close>

definition reader_flag :: "(status_error, bool) reading" where
  "reader_flag = read_bind reader_u8 (\<lambda>v.
     if v = 0 then read_ok False else if v = 1 then read_ok True else read_fail StatusInvalidPayload)"

definition reader_string :: "(status_error, str) reading" where
  "reader_string = read_bind reader_u16 (\<lambda>n.
     if unat n > MAX_STATUS_STRING_BYTES then read_fail (StatusStringTooLong MAX_STATUS_STRING_BYTES)
     else read_bind (reader_bytes (unat n)) (\<lambda>bs.
       read_result (ok_or StatusInvalidPayload (from_utf8 bs))))"

definition reader_optional_string :: "(status_error, str option) reading" where
  "reader_optional_string = read_bind reader_u8 (\<lambda>v.
     if v = 0 then read_ok None
     else if v = 1 then read_bind reader_string (\<lambda>s. read_ok (Some s))
     else read_fail StatusInvalidPayload)"

definition decode_generation :: "(status_error, generation_status) reading" where
  "decode_generation =
     read_bind reader_optional_string (\<lambda>disk.
     read_bind reader_optional_string (\<lambda>candidate.
     read_bind reader_optional_string (\<lambda>active.
     read_bind reader_optional_string (\<lambda>previous.
     read_bind reader_optional_string (\<lambda>quarantined.
     read_bind reader_flag (\<lambda>accepting.
     read_bind reader_flag (\<lambda>degraded.
     read_bind reader_optional_string (\<lambda>last_failure.
     read_bind reader_u64 (\<lambda>prepares.
     read_bind reader_u64 (\<lambda>activations.
     read_bind reader_u64 (\<lambda>failures.
     read_bind reader_u64 (\<lambda>rollbacks.
     read_ok \<lparr>g_disk_revision = disk, g_candidate_revision = candidate, g_active_revision = active,
       g_previous_revision = previous, g_quarantined_revision = quarantined,
       g_active_accepting = accepting, g_degraded = degraded, g_last_failure = last_failure,
       g_prepares = prepares, g_activations = activations, g_failures = failures,
       g_rollbacks = rollbacks\<rparr>))))))))))))"

definition decode_timestamp :: "(status_error, u64 option) reading" where
  "decode_timestamp = read_bind reader_u8 (\<lambda>v.
     if v = 0 then read_ok None
     else if v = 1 then read_bind reader_u64 (\<lambda>t. read_ok (Some t))
     else read_fail StatusInvalidPayload)"

definition decode_event :: "(status_error, event_record) reading" where
  "decode_event =
     read_bind reader_u64 (\<lambda>cursor.
     if cursor = 0 then read_fail StatusInvalidPayload
     else
       read_bind decode_timestamp (\<lambda>timestamp.
       read_bind reader_string (\<lambda>event.
       read_bind reader_string (\<lambda>outcome.
       read_bind reader_optional_string (\<lambda>revision.
       read_bind reader_optional_string (\<lambda>certificate.
       read_bind reader_optional_string (\<lambda>correlation_id.
       read_bind reader_optional_string (\<lambda>source.
       read_bind reader_optional_string (\<lambda>operation.
       read_ok \<lparr>e_cursor = cursor, e_timestamp_unix_ms = timestamp, e_event = event, e_outcome = outcome,
         e_revision = revision, e_certificate = certificate, e_correlation_id = correlation_id,
         e_source = source, e_operation = operation\<rparr>)))))))))"

definition decode_metrics :: "(status_error, worker_metrics option) reading" where
  "decode_metrics = read_bind reader_u8 (\<lambda>v.
     if v = 0 then read_ok None
     else if v = 1 then
       read_bind reader_u64 (\<lambda>accepted.
       read_bind reader_u64 (\<lambda>rejected.
       read_bind reader_u64 (\<lambda>active.
       read_bind reader_u64 (\<lambda>received.
       read_bind reader_u64 (\<lambda>sent.
       read_ok (Some \<lparr>m_accepted_connections = accepted, m_rejected_connections = rejected,
         m_active_connections = active, m_bytes_received = received, m_bytes_sent = sent\<rparr>))))))
     else read_fail StatusInvalidPayload)"

definition decode_listener :: "(status_error, listener_status) reading" where
  "decode_listener =
     read_bind reader_string (\<lambda>name.
     read_bind reader_string (\<lambda>protocol.
     read_bind reader_string (\<lambda>bind.
     read_bind reader_u8 (\<lambda>administrative_tag.
     read_bind (read_result (decode_administrative_state administrative_tag)) (\<lambda>administrative.
     read_bind reader_u8 (\<lambda>state_tag.
     read_bind (read_result (decode_listener_state state_tag)) (\<lambda>state.
     read_bind reader_u64 (\<lambda>accepted.
     read_bind reader_u64 (\<lambda>rejected.
     read_bind reader_u64 (\<lambda>active.
     read_bind reader_u64 (\<lambda>received.
     read_bind reader_u64 (\<lambda>sent.
     read_ok \<lparr>l_name = name, l_protocol = protocol, l_bind = bind, l_administrative_state = administrative,
       l_state = state, l_accepted_connections = accepted, l_rejected_connections = rejected,
       l_active_connections = active, l_bytes_received = received, l_bytes_sent = sent\<rparr>))))))))))))"

text \<open>\<open>try_reserve_exact\<close> of the decoder's vectors is the parameter \<open>reserve\<close>.\<close>

definition cursors_increase :: "event_record list \<Rightarrow> bool" where
  "cursors_increase events = list_all (\<lambda>(a, b). e_cursor a < e_cursor b) (zip events (tl events))"

definition decode_status_body ::
  "(usize \<Rightarrow> bool) \<Rightarrow> generation_id \<Rightarrow> (status_error, worker_status) reading" where
  "decode_status_body reserve header_generation =
     read_bind reader_u16 (\<lambda>format_version.
     if format_version \<noteq> STATUS_FORMAT_VERSION
       then read_fail (StatusVersionMismatch STATUS_FORMAT_VERSION format_version)
     else
     read_bind reader_u16 (\<lambda>protocol_version.
     if protocol_version \<noteq> CONTROL_PROTOCOL_VERSION
       then read_fail (StatusVersionMismatch CONTROL_PROTOCOL_VERSION protocol_version)
     else
     read_bind reader_u64 (\<lambda>seqno.
     if seqno = 0 then read_fail StatusInvalidPayload
     else
     read_bind reader_u64 (\<lambda>generation_id.
     if generation_id \<noteq> header_generation then read_fail StatusInvalidPayload
     else
     read_bind reader_u8 (\<lambda>lifecycle_tag.
     read_bind (read_result (decode_lifecycle lifecycle_tag)) (\<lambda>lifecycle.
     read_bind reader_u8 (\<lambda>flags.
     if flags AND NOT 0x1f \<noteq> 0 then read_fail StatusInvalidPayload
     else
     read_bind reader_u8 (\<lambda>administrative_tag.
     read_bind (read_result (decode_administrative_state administrative_tag)) (\<lambda>administrative.
     read_bind decode_generation (\<lambda>generation.
     read_bind decode_metrics (\<lambda>metrics.
     read_bind reader_u16 (\<lambda>listener_count.
     if unat listener_count > MAX_STATUS_LISTENERS then read_fail (CollectionTooLong ''listeners'')
     else if \<not> reserve (unat listener_count) then read_fail StatusAllocation
     else
     read_bind (read_many (unat listener_count) decode_listener) (\<lambda>listeners.
     read_bind reader_optional_string (\<lambda>degradation.
     read_bind reader_u64 (\<lambda>event_cursor.
     read_bind reader_flag (\<lambda>event_cursor_lost.
     read_bind reader_u16 (\<lambda>event_count.
     if unat event_count > MAX_STATUS_EVENTS then read_fail (CollectionTooLong ''events'')
     else if \<not> reserve (unat event_count) then read_fail StatusAllocation
     else
     read_bind (read_many (unat event_count) decode_event) (\<lambda>events.
     if \<not> cursors_increase events then read_fail StatusInvalidPayload
     else if events \<noteq> [] \<and> e_cursor (last events) > event_cursor then read_fail StatusInvalidPayload
     else
     read_ok \<lparr>s_sequence = seqno, s_generation_id = generation_id, s_lifecycle = lifecycle,
       s_administrative_state = administrative, s_accepting = (flags AND 0x01 \<noteq> 0),
       s_runtime_started = (flags AND 0x02 \<noteq> 0), s_runtime_failed = (flags AND 0x04 \<noteq> 0),
       s_drained = (flags AND 0x08 \<noteq> 0), s_generation = generation, s_metrics = metrics,
       s_listeners = listeners, s_degraded = (flags AND 0x10 \<noteq> 0), s_degradation = degradation,
       s_event_cursor = event_cursor, s_event_cursor_lost = event_cursor_lost,
       s_events = events\<rparr>))))))))))))))))))"

definition decode_status ::
  "(usize \<Rightarrow> bool) \<Rightarrow> 'fd authenticated_frame \<Rightarrow> (status_error, worker_status) result" where
  "decode_status reserve frame =
     (if fh_message_type (af_header frame) \<noteq> STATUS_MESSAGE
        then Err (StatusUnexpectedMessage (fh_message_type (af_header frame)))
      else if af_descriptors frame \<noteq> [] then Err StatusUnexpectedDescriptors
      else if length (af_payload frame) > MAX_STATUS_BYTES then Err (StatusTooLarge MAX_STATUS_BYTES)
      else
        let (r, res) = decode_status_body reserve (fh_generation (af_header frame))
              (reader_new status_wire (af_payload frame))
        in try_bind res (\<lambda>s. try_bind (reader_finish r) (\<lambda>_. Ok s)))"

section \<open>Images\<close>

definition string_image :: "str \<Rightarrow> bytes" where
  "string_image s = u16_to_be_bytes (of_nat (str_len s)) @ as_bytes s"

definition string_short :: "str \<Rightarrow> bool" where
  "string_short s \<longleftrightarrow> str_len s \<le> MAX_STATUS_STRING_BYTES"

definition string_valid :: "str \<Rightarrow> bool" where
  "string_valid s \<longleftrightarrow> string_short s \<and> list_all is_scalar s"

abbreviation ostring_image :: "str option \<Rightarrow> bytes" where "ostring_image \<equiv> optional_image string_image"

definition flag_image :: "bool \<Rightarrow> bytes" where "flag_image b = u8_to_be_bytes (bit_of b)"

definition generation_image :: "generation_status \<Rightarrow> bytes" where
  "generation_image g =
     ostring_image (g_disk_revision g) @ ostring_image (g_candidate_revision g)
     @ ostring_image (g_active_revision g) @ ostring_image (g_previous_revision g)
     @ ostring_image (g_quarantined_revision g) @ flag_image (g_active_accepting g)
     @ flag_image (g_degraded g) @ ostring_image (g_last_failure g) @ u64_to_be_bytes (g_prepares g)
     @ u64_to_be_bytes (g_activations g) @ u64_to_be_bytes (g_failures g) @ u64_to_be_bytes (g_rollbacks g)"

definition generation_all :: "(str \<Rightarrow> bool) \<Rightarrow> generation_status \<Rightarrow> bool" where
  "generation_all P g \<longleftrightarrow> pred_option P (g_disk_revision g) \<and> pred_option P (g_candidate_revision g)
     \<and> pred_option P (g_active_revision g) \<and> pred_option P (g_previous_revision g)
     \<and> pred_option P (g_quarantined_revision g) \<and> pred_option P (g_last_failure g)"

definition event_image :: "event_record \<Rightarrow> bytes" where
  "event_image e =
     u64_to_be_bytes (e_cursor e) @ optional_image u64_to_be_bytes (e_timestamp_unix_ms e)
     @ string_image (e_event e) @ string_image (e_outcome e) @ ostring_image (e_revision e)
     @ ostring_image (e_certificate e) @ ostring_image (e_correlation_id e) @ ostring_image (e_source e)
     @ ostring_image (e_operation e)"

definition event_all :: "(str \<Rightarrow> bool) \<Rightarrow> event_record \<Rightarrow> bool" where
  "event_all P e \<longleftrightarrow> e_cursor e \<noteq> 0 \<and> P (e_event e) \<and> P (e_outcome e) \<and> pred_option P (e_revision e)
     \<and> pred_option P (e_certificate e) \<and> pred_option P (e_correlation_id e) \<and> pred_option P (e_source e)
     \<and> pred_option P (e_operation e)"

definition metrics_image :: "worker_metrics \<Rightarrow> bytes" where
  "metrics_image m =
     u64_to_be_bytes (m_accepted_connections m) @ u64_to_be_bytes (m_rejected_connections m)
     @ u64_to_be_bytes (m_active_connections m) @ u64_to_be_bytes (m_bytes_received m)
     @ u64_to_be_bytes (m_bytes_sent m)"

definition listener_image :: "listener_status \<Rightarrow> bytes" where
  "listener_image l =
     string_image (l_name l) @ string_image (l_protocol l) @ string_image (l_bind l)
     @ u8_to_be_bytes (encode_administrative_state (l_administrative_state l))
     @ u8_to_be_bytes (encode_listener_state (l_state l))
     @ u64_to_be_bytes (l_accepted_connections l) @ u64_to_be_bytes (l_rejected_connections l)
     @ u64_to_be_bytes (l_active_connections l) @ u64_to_be_bytes (l_bytes_received l)
     @ u64_to_be_bytes (l_bytes_sent l)"

definition listener_all :: "(str \<Rightarrow> bool) \<Rightarrow> listener_status \<Rightarrow> bool" where
  "listener_all P l \<longleftrightarrow> P (l_name l) \<and> P (l_protocol l) \<and> P (l_bind l)"

section \<open>Codecs\<close>

lemma tags_iff:
  "decode_lifecycle v = Ok lc \<longleftrightarrow> v = encode_lifecycle lc"
  "decode_listener_state v = Ok ls \<longleftrightarrow> v = encode_listener_state ls"
  "decode_administrative_state v = Ok ad \<longleftrightarrow> v = encode_administrative_state ad"
proof -
  show "decode_lifecycle v = Ok lc \<longleftrightarrow> v = encode_lifecycle lc"
    by (cases lc) (auto simp: decode_lifecycle_def)
  show "decode_listener_state v = Ok ls \<longleftrightarrow> v = encode_listener_state ls"
    by (cases ls) (auto simp: decode_listener_state_def)
  show "decode_administrative_state v = Ok ad \<longleftrightarrow> v = encode_administrative_state ad"
    by (cases ad) (auto simp: decode_administrative_state_def)
qed

lemma writer_string_Ok: "writer_string s w = (w', Ok ()) \<longleftrightarrow> string_short s \<and> appends w (string_image s) w'"
  by (auto simp: writer_string_def string_short_def string_image_def u16_try_from_def status_limits wire_put
      appends_append simp del: write_all.simps)

lemma reader_string_Ok: "reader_string r = (r', Ok s) \<longleftrightarrow> string_valid s \<and> consumes r (string_image s) r'"
proof -
  have "reader_string r = (r', Ok s) \<longleftrightarrow> (\<exists>n :: u16. (string_valid s
      \<and> (\<exists>r1. consumes r (u16_to_be_bytes n) r1 \<and> consumes r1 (as_bytes s) r')) \<and> str_len s = unat n)"
    unfolding reader_string_def wire_get ok_or_eq_Ok from_utf8_iff string_valid_def string_short_def not_less
    by (auto simp: length_as_bytes) metis
  also have "\<dots> \<longleftrightarrow> string_valid s \<and> consumes r (string_image s) r'"
    unfolding ex_u16_length string_image_def consumes_append
    by (auto simp: string_valid_def string_short_def status_limits)
  finally show ?thesis .
qed

interpretation wstring: wire_codec writer_string reader_string string_short string_valid string_image
  by unfold_locales (rule putsI getsI, simp add: writer_string_Ok reader_string_Ok | simp add: string_valid_def)+

lemmas [wire_puts] = wstring.put
lemmas [wire_gets] = wstring.get

lemma puts_flag [wire_puts]: "puts (writer_u8 (bit_of b)) True (flag_image b)"
  unfolding flag_image_def by (rule wire_puts)

lemma gets_flag [wire_gets]: "gets reader_flag (\<lambda>b bs. bs = flag_image b)"
  unfolding reader_flag_def
  by (rule gets_cong, (rule wire_gets)+) (auto simp: flag_image_def bit_of_def)

interpretation wostring: wire_codec writer_optional_string reader_optional_string
    "pred_option string_short" "pred_option string_valid" ostring_image
proof unfold_locales
  show "puts (writer_optional_string a) (pred_option string_short a) (ostring_image a)" for a
    unfolding writer_optional_string_def by (rule puts_optional) (rule wire_puts)
  show "gets reader_optional_string (\<lambda>a bs. pred_option string_valid a \<and> bs = ostring_image a)"
    unfolding reader_optional_string_def by (rule gets_optional) (rule wire_gets)
  show "pred_option string_valid a \<Longrightarrow> pred_option string_short a" for a
    by (cases a) (simp_all add: string_valid_def)
qed

lemmas [wire_puts] = wostring.put
lemmas [wire_gets] = wostring.get

interpretation wgeneration: wire_codec encode_generation decode_generation
    "generation_all string_short" "generation_all string_valid" generation_image
proof unfold_locales
  show "puts (encode_generation g) (generation_all string_short g) (generation_image g)" for g
    unfolding encode_generation_def list.map append.simps
    by (rule puts_cong, (rule wire_puts)+) (auto simp: generation_all_def generation_image_def)
  show "gets decode_generation (\<lambda>g bs. generation_all string_valid g \<and> bs = generation_image g)"
    unfolding decode_generation_def
    apply (rule gets_cong, (rule wire_gets)+)
    subgoal for g bs by (cases g) (auto simp: generation_all_def generation_image_def)
    done
  show "generation_all string_valid g \<Longrightarrow> generation_all string_short g" for g
    unfolding generation_all_def using wostring.valid_accepts by blast
qed

lemmas [wire_puts] = wgeneration.put
lemmas [wire_gets] = wgeneration.get

interpretation wevent: wire_codec encode_event decode_event "event_all string_short" "event_all string_valid"
    event_image
proof unfold_locales
  have timestamp: "puts (encode_timestamp t) (pred_option always t) (optional_image u64_to_be_bytes t)" for t
    unfolding encode_timestamp_def by (rule puts_optional) (rule wire_puts)
  have timestamp': "gets decode_timestamp (\<lambda>t bs. pred_option always t \<and> bs = optional_image u64_to_be_bytes t)"
    unfolding decode_timestamp_def by (rule gets_optional) (rule wire_gets)
  show "puts (encode_event e) (event_all string_short e) (event_image e)" for e
    unfolding encode_event_def
    by (rule puts_cong, (rule puts_if wire_puts timestamp)+)
      (auto simp: event_all_def event_image_def option.pred_True)
  show "gets decode_event (\<lambda>e bs. event_all string_valid e \<and> bs = event_image e)"
    unfolding decode_event_def
    apply (rule gets_cong, (rule wire_gets timestamp')+)
    subgoal for e bs by (cases e) (auto simp: event_all_def event_image_def option.pred_True)
    done
  show "event_all string_valid e \<Longrightarrow> event_all string_short e" for e
    unfolding event_all_def using wostring.valid_accepts wstring.valid_accepts by blast
qed

lemma wmetrics: "wire_codec encode_metrics decode_metrics always always (optional_image metrics_image)"
proof unfold_locales
  show "puts (encode_metrics m) True (optional_image metrics_image m)" for m
    unfolding encode_metrics_def
    by (cases m; simp only: option.case) (rule puts_cong, (rule wire_puts)+, auto simp: optional_image_def metrics_image_def)+
  show "gets decode_metrics (\<lambda>m bs. True \<and> bs = optional_image metrics_image m)"
    unfolding decode_metrics_def
    apply (rule gets_cong, (rule wire_gets)+)
    subgoal for m bs by (cases m; cases "the m") (auto simp: optional_image_def metrics_image_def)
    done
qed simp

interpretation wmetrics: wire_codec encode_metrics decode_metrics always always "optional_image metrics_image"
  by (rule wmetrics)

interpretation wlistener: wire_codec encode_listener decode_listener "listener_all string_short"
    "listener_all string_valid" listener_image
proof unfold_locales
  show "puts (encode_listener l) (listener_all string_short l) (listener_image l)" for l
    unfolding encode_listener_def
    by (rule puts_cong, (rule wire_puts)+) (auto simp: listener_all_def listener_image_def)
  show "gets decode_listener (\<lambda>l bs. listener_all string_valid l \<and> bs = listener_image l)"
    unfolding decode_listener_def
    apply (rule gets_cong, (rule wire_gets)+)
    subgoal for l bs by (cases l) (auto simp: listener_all_def listener_image_def tags_iff)
    done
  show "listener_all string_valid l \<Longrightarrow> listener_all string_short l" for l
    unfolding listener_all_def using wstring.valid_accepts by blast
qed

lemmas [wire_puts] = wevent.put wmetrics.put wlistener.put
lemmas [wire_gets] = wevent.get wmetrics.get wlistener.get

section \<open>The status message\<close>

definition status_image_with :: "u8 \<Rightarrow> worker_status \<Rightarrow> bytes" where
  "status_image_with flags s =
     u16_to_be_bytes STATUS_FORMAT_VERSION @ u16_to_be_bytes CONTROL_PROTOCOL_VERSION
     @ u64_to_be_bytes (s_sequence s) @ u64_to_be_bytes (s_generation_id s)
     @ u8_to_be_bytes (encode_lifecycle (s_lifecycle s)) @ u8_to_be_bytes flags
     @ u8_to_be_bytes (encode_administrative_state (s_administrative_state s))
     @ generation_image (s_generation s) @ optional_image metrics_image (s_metrics s)
     @ u16_to_be_bytes (of_nat (length (s_listeners s))) @ concat (map listener_image (s_listeners s))
     @ ostring_image (s_degradation s) @ u64_to_be_bytes (s_event_cursor s)
     @ flag_image (s_event_cursor_lost s)
     @ u16_to_be_bytes (of_nat (length (s_events s))) @ concat (map event_image (s_events s))"

definition status_image :: "worker_status \<Rightarrow> bytes" where
  "status_image s = status_image_with (status_flags s) s"

definition status_all :: "(str \<Rightarrow> bool) \<Rightarrow> worker_status \<Rightarrow> bool" where
  "status_all P s \<longleftrightarrow> generation_all P (s_generation s) \<and> list_all (listener_all P) (s_listeners s)
     \<and> pred_option P (s_degradation s) \<and> list_all (event_all P) (s_events s)"

definition status_sized :: "worker_status \<Rightarrow> bool" where
  "status_sized s \<longleftrightarrow> s_sequence s \<noteq> 0 \<and> length (s_listeners s) \<le> MAX_STATUS_LISTENERS
     \<and> length (s_events s) \<le> MAX_STATUS_EVENTS"

definition events_ordered :: "worker_status \<Rightarrow> bool" where
  "events_ordered s \<longleftrightarrow> sorted_wrt (<) (map e_cursor (s_events s))
     \<and> list_all (\<lambda>e. e_cursor e \<le> s_event_cursor s) (s_events s)"

lemma cursors_increase_iff: "cursors_increase events \<longleftrightarrow> sorted_wrt (<) (map e_cursor events)"
proof (induction events)
  case (Cons e events)
  show ?case
  proof (cases events)
    case es: (Cons e' es)
    have "cursors_increase (e # events) \<longleftrightarrow> e_cursor e < e_cursor e' \<and> cursors_increase events"
      by (simp add: cursors_increase_def es)
    then show ?thesis using Cons.IH by (auto simp: es intro: less_trans)
  qed (simp add: cursors_increase_def)
qed (simp add: cursors_increase_def)

lemma events_ordered_iff:
  "events_ordered s \<longleftrightarrow> cursors_increase (s_events s)
     \<and> \<not> (s_events s \<noteq> [] \<and> e_cursor (last (s_events s)) > s_event_cursor s)"
proof (cases "s_events s" rule: rev_cases)
  case (snoc es e)
  show ?thesis
    by (auto simp: events_ordered_def cursors_increase_iff snoc sorted_wrt_append list_all_iff)
qed (simp add: events_ordered_def cursors_increase_iff)

lemma and_power_nonzero: "(flags :: 'a::len word) AND push_bit n 1 \<noteq> 0 \<longleftrightarrow> bit flags n"
  by (simp add: bit_iff_and_push_bit_not_eq_0)

lemma and_not_mask_zero: "(flags :: 'a :: len word) AND NOT (mask k) = 0 \<longleftrightarrow> (\<forall>n. bit flags n \<longrightarrow> n < k)"
  by (auto simp: bit_eq_iff bit_and_iff bit_not_iff bit_mask_iff dest: bit_imp_le_length)

lemma bit_bit_of: "bit (bit_of b) n \<longleftrightarrow> n = 0 \<and> b"
  by (simp add: bit_of_def bit_1_iff)

lemma bit_push_bit_of: "k < 8 \<Longrightarrow> bit (push_bit k (bit_of b)) n \<longleftrightarrow> n = k \<and> b"
  by (auto simp: bit_push_bit_iff bit_bit_of)

lemma flags_iff:
  fixes flags :: u8
  shows "flags AND NOT 0x1f = 0 \<and> a = (flags AND 0x01 \<noteq> 0) \<and> b = (flags AND 0x02 \<noteq> 0)
      \<and> c = (flags AND 0x04 \<noteq> 0) \<and> d = (flags AND 0x08 \<noteq> 0) \<and> e = (flags AND 0x10 \<noteq> 0)
    \<longleftrightarrow> flags = (bit_of a OR push_bit 1 (bit_of b) OR push_bit 2 (bit_of c) OR push_bit 3 (bit_of d)
        OR push_bit 4 (bit_of e))" (is "?l \<longleftrightarrow> flags = ?f")
proof -
  have f: "bit ?f n \<longleftrightarrow> n = 0 \<and> a \<or> n = 1 \<and> b \<or> n = 2 \<and> c \<or> n = 3 \<and> d \<or> n = 4 \<and> e" for n
    using bit_push_bit_of [of 1 b n] unfolding bit_or_iff bit_bit_of by (simp only: bit_push_bit_of)
  have z: "flags AND NOT 0x1f = 0 \<longleftrightarrow> (\<forall>n. bit flags n \<longrightarrow> n < 5)"
    using and_not_mask_zero [of flags 5] by (simp add: mask_eq_exp_minus_1)
  have t: "flags AND 0x01 \<noteq> 0 \<longleftrightarrow> bit flags 0" "flags AND 0x02 \<noteq> 0 \<longleftrightarrow> bit flags 1"
    "flags AND 0x04 \<noteq> 0 \<longleftrightarrow> bit flags 2" "flags AND 0x08 \<noteq> 0 \<longleftrightarrow> bit flags 3"
    "flags AND 0x10 \<noteq> 0 \<longleftrightarrow> bit flags 4"
    using and_power_nonzero [of flags 0] and_power_nonzero [of flags 1] and_power_nonzero [of flags 2] and_power_nonzero [of flags 3] and_power_nonzero [of flags 4]
    by (simp_all add: push_bit_eq_mult)
  have eq: "flags = ?f \<longleftrightarrow> (\<forall>n. bit flags n \<longleftrightarrow> bit ?f n)"
    by (rule iffI, blast, rule bit_word_eqI, blast)
  have small: "n < 5 \<Longrightarrow> n = 0 \<or> n = 1 \<or> n = 2 \<or> n = 3 \<or> n = 4" for n :: nat by linarith
  show ?thesis
    unfolding z t eq f
  proof (rule iffI)
    assume l: "(\<forall>n. bit flags n \<longrightarrow> n < 5) \<and> a = bit flags 0 \<and> b = bit flags 1 \<and> c = bit flags 2
        \<and> d = bit flags 3 \<and> e = bit flags 4"
    show "\<forall>n. bit flags n \<longleftrightarrow> n = 0 \<and> a \<or> n = 1 \<and> b \<or> n = 2 \<and> c \<or> n = 3 \<and> d \<or> n = 4 \<and> e"
    proof
      fix n
      have "bit flags n \<Longrightarrow> n = 0 \<or> n = 1 \<or> n = 2 \<or> n = 3 \<or> n = 4" using l small by blast
      then show "bit flags n \<longleftrightarrow> n = 0 \<and> a \<or> n = 1 \<and> b \<or> n = 2 \<and> c \<or> n = 3 \<and> d \<or> n = 4 \<and> e"
        using l by metis
    qed
  next
    assume *: "\<forall>n. bit flags n \<longleftrightarrow> n = 0 \<and> a \<or> n = 1 \<and> b \<or> n = 2 \<and> c \<or> n = 3 \<and> d \<or> n = 4 \<and> e"
    show "(\<forall>n. bit flags n \<longrightarrow> n < 5) \<and> a = bit flags 0 \<and> b = bit flags 1 \<and> c = bit flags 2
        \<and> d = bit flags 3 \<and> e = bit flags 4"
      unfolding * [rule_format] by auto
  qed
qed

lemma puts_degradation [wire_puts]: "puts (encode_degradation d) (pred_option string_short d) (ostring_image d)"
proof (cases d)
  case None
  have "puts (write_all [writer_u8 0]) True (ostring_image None)"
    by (rule puts_cong, (rule wire_puts)+) (simp_all add: optional_image_def)
  with None show ?thesis by (simp add: encode_degradation_def bit_of_def del: write_all.simps)
next
  case (Some t)
  have "puts (write_all [writer_u8 1, writer_string t]) (string_short t) (ostring_image (Some t))"
    by (rule puts_cong, (rule wire_puts)+) (simp_all add: optional_image_def)
  with Some show ?thesis by (simp add: encode_degradation_def bit_of_def del: write_all.simps)
qed

lemma puts_status_body:
  "puts (encode_status_body s)
     (length (s_listeners s) < 2 ^ 16 \<and> length (s_events s) < 2 ^ 16 \<and> status_all string_short s) (status_image s)"
  unfolding encode_status_body_def
  by (rule puts_cong, (rule wire_puts wlistener.put_many wevent.put_many)+)
    (auto simp: status_all_def status_image_def status_image_with_def)

definition flags_match :: "u8 \<Rightarrow> worker_status \<Rightarrow> bool" where
  "flags_match flags s \<longleftrightarrow> flags AND NOT 0x1f = 0 \<and> s_accepting s = (flags AND 0x01 \<noteq> 0)
     \<and> s_runtime_started s = (flags AND 0x02 \<noteq> 0) \<and> s_runtime_failed s = (flags AND 0x04 \<noteq> 0)
     \<and> s_drained s = (flags AND 0x08 \<noteq> 0) \<and> s_degraded s = (flags AND 0x10 \<noteq> 0)"

lemma flags_match_iff: "flags_match flags s \<longleftrightarrow> flags = status_flags s"
  unfolding flags_match_def status_flags_def by (rule flags_iff)

lemma gets_status_body:
  "gets (decode_status_body reserve gen)
     (\<lambda>s bs. (status_sized s \<and> s_generation_id s = gen \<and> reserve (length (s_listeners s))
        \<and> reserve (length (s_events s)) \<and> events_ordered s \<and> status_all string_valid s) \<and> bs = status_image s)"
proof -
  have "gets (decode_status_body reserve gen)
     (\<lambda>s bs. \<exists>flags. flags_match flags s \<and> status_sized s \<and> s_generation_id s = gen \<and> reserve (length (s_listeners s))
        \<and> reserve (length (s_events s)) \<and> events_ordered s \<and> status_all string_valid s \<and> bs = status_image_with flags s)"
    unfolding decode_status_body_def
    apply (rule gets_cong, (rule wire_gets)+)
    subgoal for s bs
      unfolding events_ordered_iff status_all_def status_sized_def status_image_with_def flags_match_def
      apply (cases s)
      apply (simp only: prenex worker_status.ext_inject not_not tags_iff length_eq_unat not_less)
      apply (simp add: status_limits del: ex_simps)
      apply (rule arg_cong [where f = Ex], rule ext)
      apply (auto simp: unat_of_nat)
      done
    done
  then show ?thesis
    by (rule gets_cong) (simp add: flags_match_iff status_image_def)
qed

lemma encode_status_Ok:
  "encode_status limit s = Ok bs \<longleftrightarrow> status_sized s \<and> status_all string_short s \<and> bs = status_image s
     \<and> length bs \<le> min MAX_STATUS_BYTES limit"
proof -
  have "writer_ok (writer_new status_wire limit MAX_STATUS_BYTES)"
    by (simp add: writer_ok_def writer_new_def)
  then have body: "encode_status_body s (writer_new status_wire limit MAX_STATUS_BYTES) = (w, Ok ()) \<longleftrightarrow>
      (length (s_listeners s) < 2 ^ 16 \<and> length (s_events s) < 2 ^ 16 \<and> status_all string_short s)
      \<and> appends (writer_new status_wire limit MAX_STATUS_BYTES) (status_image s) w" for w
    using puts_status_body [of s] by (simp add: puts_def)
  have fits: "appends (writer_new status_wire limit MAX_STATUS_BYTES) (status_image s) w \<longleftrightarrow>
      length (status_image s) \<le> min MAX_STATUS_BYTES limit
      \<and> w = (writer_new status_wire limit MAX_STATUS_BYTES)\<lparr>ww_bytes := status_image s\<rparr>" for w
    by (auto simp: appends_def writer_new_def status_limits usize_max_def)
  have "encode_status limit s = Ok bs \<longleftrightarrow> status_sized s
      \<and> (\<exists>w. encode_status_body s (writer_new status_wire limit MAX_STATUS_BYTES) = (w, Ok ()) \<and> bs = writer_finish w)"
    by (auto simp: encode_status_def status_sized_def split: prod.splits sum.splits)
  also have "\<dots> \<longleftrightarrow> status_sized s \<and> status_all string_short s \<and> bs = status_image s
     \<and> length bs \<le> min MAX_STATUS_BYTES limit"
    unfolding body fits
    by (auto simp: writer_finish_def status_sized_def status_limits)
  finally show ?thesis .
qed

lemma decode_status_Ok:
  "decode_status reserve f = Ok s \<longleftrightarrow>
     fh_message_type (af_header f) = STATUS_MESSAGE \<and> af_descriptors f = []
     \<and> length (af_payload f) \<le> MAX_STATUS_BYTES \<and> s_generation_id s = fh_generation (af_header f)
     \<and> status_sized s \<and> reserve (length (s_listeners s)) \<and> reserve (length (s_events s))
     \<and> events_ordered s \<and> status_all string_valid s \<and> af_payload f = status_image s"
proof -
  let ?r = "reader_new status_wire (af_payload f)"
  have ok: "reader_ok ?r" by (simp add: reader_ok_def reader_new_def)
  have body: "decode_status_body reserve gen ?r = (r', Ok s) \<longleftrightarrow>
      (status_sized s \<and> s_generation_id s = gen \<and> reserve (length (s_listeners s)) \<and> reserve (length (s_events s))
        \<and> events_ordered s \<and> status_all string_valid s) \<and> consumes ?r (status_image s) r'" for gen r'
    using gets_status_body [of reserve gen] ok by (simp add: gets_def)
  have all: "length (af_payload f) \<le> MAX_STATUS_BYTES \<Longrightarrow>
      (\<exists>r'. consumes ?r bs r' \<and> reader_finish r' = Ok ()) \<longleftrightarrow> af_payload f = bs" for bs
    by (auto simp: consumes_def reader_new_def reader_finish_def status_limits usize_max_def)
  have "decode_status reserve f = Ok s \<longleftrightarrow> fh_message_type (af_header f) = STATUS_MESSAGE
      \<and> af_descriptors f = [] \<and> length (af_payload f) \<le> MAX_STATUS_BYTES
      \<and> (\<exists>r'. decode_status_body reserve (fh_generation (af_header f)) ?r = (r', Ok s) \<and> reader_finish r' = Ok ())"
    by (auto simp: decode_status_def not_less try_bind_def split: prod.splits sum.splits)
  then show ?thesis unfolding body using all by blast
qed

lemma parts_conj:
  "generation_all (\<lambda>x. P x \<and> Q x) = (\<lambda>g. generation_all P g \<and> generation_all Q g)"
  "listener_all (\<lambda>x. P x \<and> Q x) = (\<lambda>l. listener_all P l \<and> listener_all Q l)"
  "event_all (\<lambda>x. P x \<and> Q x) = (\<lambda>e. event_all P e \<and> event_all Q e)"
  by (rule ext, auto simp: generation_all_def listener_all_def event_all_def pred_option_conj)+

lemma status_all_valid: "status_all string_valid s \<longleftrightarrow> status_all string_short s \<and> status_all (list_all is_scalar) s"
proof -
  have eq: "string_valid = (\<lambda>s. string_short s \<and> list_all is_scalar s)" by (rule ext) (simp add: string_valid_def)
  show ?thesis
    unfolding status_all_def eq parts_conj list_all_conj pred_option_conj by blast
qed

section \<open>Properties\<close>

text \<open>
  C36. The master accepts exactly the status messages a worker can encode: a status is decoded from
  an authenticated frame if and only if the frame is a status message without descriptors for the
  status's generation, its payload is the encoding of that status (at most \<open>MAX_STATUS_BYTES\<close>),
  its event cursors increase up to its own cursor, all its strings are Unicode text and the vectors
  can be allocated.
\<close>

theorem status_decode_exact:
  "decode_status reserve f = Ok s \<longleftrightarrow>
     fh_message_type (af_header f) = STATUS_MESSAGE \<and> af_descriptors f = []
     \<and> fh_generation (af_header f) = s_generation_id s
     \<and> encode_status MAX_STATUS_BYTES s = Ok (af_payload f)
     \<and> events_ordered s \<and> status_all (list_all is_scalar) s
     \<and> reserve (length (s_listeners s)) \<and> reserve (length (s_events s))"
  unfolding decode_status_Ok encode_status_Ok status_all_valid by auto

end
