(* ===== verification/Descriptor.thy ===== *)
theory Descriptor
  imports Transport Tables
begin

text \<open>
  Descriptor manifests (\<open>crates/oxiroute-supervision-unix/src/descriptor.rs\<close>): the typed slots
  a frame must carry, their validation, and the set that owns the received descriptors and gives
  each away once.

  System calls and the socket address type of \<open>rustix\<close> are parameters: the record \<open>kernel\<close>
  holds the calls the code makes, over a kernel state that \<open>fcntl\<close> changes. A path is its bytes.
\<close>

unbundle bit_operations_syntax

type_synonym slot_id = u16
type_synonym capabilities = u16
type_synonym io_error = int

definition CAP_STREAM :: capabilities where "CAP_STREAM = 0x0001"
definition CAP_DATAGRAM :: capabilities where "CAP_DATAGRAM = 0x0002"
definition CAP_QUIC :: capabilities where "CAP_QUIC = 0x0004"
definition CAP_ALL :: capabilities where "CAP_ALL = CAP_STREAM OR CAP_DATAGRAM OR CAP_QUIC"

definition capabilities_contains :: "capabilities \<Rightarrow> capabilities \<Rightarrow> bool" where
  "capabilities_contains c required \<longleftrightarrow> c AND required = required"

definition capabilities_from_bits :: "u16 \<Rightarrow> capabilities option" where
  "capabilities_from_bits bits = (if bits AND NOT CAP_ALL = 0 then Some bits else None)"

definition capabilities_union :: "capabilities \<Rightarrow> capabilities \<Rightarrow> capabilities" where
  "capabilities_union a b = a OR b"

datatype descriptor_role =
    RoleTraffic str
  | RoleManagement
  | RoleStats u16
  | RoleStatsPage u16
  | RoleState
  | RoleControl

datatype descriptor_kind = TcpListener | UnixListener | DatagramListener | QuicListener | Opaque

definition kind_capability :: "descriptor_kind \<Rightarrow> capabilities" where
  "kind_capability k =
     (case k of
        TcpListener \<Rightarrow> CAP_STREAM
      | UnixListener \<Rightarrow> CAP_STREAM
      | DatagramListener \<Rightarrow> CAP_DATAGRAM
      | QuicListener \<Rightarrow> CAP_QUIC
      | Opaque \<Rightarrow> 0)"

datatype socket_addr =
    V4 (v4_octets: bytes) (v4_port: u16)
  | V6 (v6_octets: bytes) (v6_port: u16) (v6_flowinfo: u32) (v6_scope_id: u32)

datatype bind_identity = Tcp socket_addr | UnixPath path | UnixAbstract bytes

record descriptor_slot =
  slot_ident :: slot_id
  slot_role :: descriptor_role
  slot_kind :: descriptor_kind
  slot_bind :: "bind_identity option"
  slot_mode :: "u16 option"

datatype descriptor_manifest = DescriptorManifest (manifest_slots: "descriptor_slot list")

datatype descriptor_error =
    ManifestTooLarge usize usize
  | DuplicateSlot slot_id
  | IncompatibleBind slot_id
  | IncompatibleMode slot_id
  | CardinalityMismatch usize usize
  | UnknownSlot slot_id
  | AlreadyConsumed slot_id
  | NotSocket slot_id
  | NotStream slot_id
  | NotDatagram slot_id
  | NotListening slot_id
  | NonblockingUnavailable slot_id
  | CloexecUnavailable slot_id
  | WrongAddressFamily slot_id
  | BindMismatch slot_id
  | ModeMismatch slot_id
  | InspectPath slot_id io_error
  | Inspect slot_id errno

section \<open>Manifest\<close>

fun bind_compatible :: "descriptor_kind \<Rightarrow> bind_identity option \<Rightarrow> bool" where
  "bind_compatible _ None = True"
| "bind_compatible TcpListener (Some (Tcp _)) = True"
| "bind_compatible DatagramListener (Some (Tcp _)) = True"
| "bind_compatible QuicListener (Some (Tcp _)) = True"
| "bind_compatible UnixListener (Some (UnixPath _)) = True"
| "bind_compatible UnixListener (Some (UnixAbstract _)) = True"
| "bind_compatible _ _ = False"

fun mode_compatible :: "descriptor_kind \<Rightarrow> bind_identity option \<Rightarrow> bool" where
  "mode_compatible UnixListener (Some (UnixPath _)) = True"
| "mode_compatible _ _ = False"

fun check_slots :: "slot_id set \<Rightarrow> descriptor_slot list \<Rightarrow> (descriptor_error, unit) result" where
  "check_slots ids [] = Ok ()"
| "check_slots ids (slot # slots) =
     (if slot_ident slot \<in> ids then Err (DuplicateSlot (slot_ident slot))
      else if \<not> bind_compatible (slot_kind slot) (slot_bind slot) then Err (IncompatibleBind (slot_ident slot))
      else if slot_mode slot \<noteq> None \<and> \<not> mode_compatible (slot_kind slot) (slot_bind slot)
        then Err (IncompatibleMode (slot_ident slot))
      else check_slots (insert (slot_ident slot) ids) slots)"

definition manifest_new :: "descriptor_slot list \<Rightarrow> (descriptor_error, descriptor_manifest) result" where
  "manifest_new slots =
     (if length slots > MAX_DESCRIPTOR_COUNT
      then Err (ManifestTooLarge (length slots) MAX_DESCRIPTOR_COUNT)
      else try_bind (check_slots {} slots) (\<lambda>_. Ok (DescriptorManifest slots)))"

definition manifest_capabilities :: "descriptor_manifest \<Rightarrow> capabilities" where
  "manifest_capabilities m =
     foldl (\<lambda>all slot. capabilities_union all (kind_capability (slot_kind slot))) 0 (manifest_slots m)"

section \<open>Validation of received descriptors\<close>

datatype socket_type = STREAM | DGRAM | OtherSocketType
datatype address_family = INET | INET6 | UNIX | OtherFamily

record ('k, 'fd, 'addr) kernel =
  k_get_cloexec :: "'k \<Rightarrow> 'fd \<Rightarrow> (errno, bool) result"
  k_set_cloexec :: "'k \<Rightarrow> 'fd \<Rightarrow> 'k \<times> (errno, unit) result"
  k_get_nonblock :: "'k \<Rightarrow> 'fd \<Rightarrow> (errno, bool) result"
  k_set_nonblock :: "'k \<Rightarrow> 'fd \<Rightarrow> 'k \<times> (errno, unit) result"
  k_is_socket :: "'k \<Rightarrow> 'fd \<Rightarrow> (errno, bool) result"
  k_socket_type :: "'k \<Rightarrow> 'fd \<Rightarrow> (errno, socket_type) result"
  k_acceptconn :: "'k \<Rightarrow> 'fd \<Rightarrow> (errno, bool) result"
  k_getsockname :: "'k \<Rightarrow> 'fd \<Rightarrow> (errno, 'addr) result"
  k_family :: "'addr \<Rightarrow> address_family"
  k_socket_addr :: "'addr \<Rightarrow> (errno, socket_addr) result"
  k_unix_addr :: "'addr \<Rightarrow> (errno, path option \<times> bytes option) result"
  k_path_metadata :: "'k \<Rightarrow> path \<Rightarrow> (io_error, bool \<times> u32) result"

definition inspect :: "slot_id \<Rightarrow> (errno, 'a) result \<Rightarrow> (descriptor_error, 'a) result" where
  "inspect slot res = map_err (Inspect slot) res"

definition validate_socket_shape ::
  "('k, 'fd, 'addr) kernel \<Rightarrow> 'k \<Rightarrow> descriptor_slot \<Rightarrow> 'fd \<Rightarrow> (descriptor_error, unit) result" where
  "validate_socket_shape ops k slot fd =
     try_bind (inspect (slot_ident slot) (k_socket_type ops k fd)) (\<lambda>socket_type.
       if slot_kind slot = TcpListener \<or> slot_kind slot = UnixListener then
         if socket_type \<noteq> STREAM then Err (NotStream (slot_ident slot))
         else try_bind (inspect (slot_ident slot) (k_acceptconn ops k fd)) (\<lambda>accepts.
                if accepts then Ok () else Err (NotListening (slot_ident slot)))
       else if socket_type \<noteq> DGRAM then Err (NotDatagram (slot_ident slot))
       else Ok ())"

definition validate_inet_bind ::
  "('k, 'fd, 'addr) kernel \<Rightarrow> descriptor_slot \<Rightarrow> 'addr \<Rightarrow> (descriptor_error, unit) result" where
  "validate_inet_bind ops slot address =
     (if k_family ops address \<noteq> INET \<and> k_family ops address \<noteq> INET6
        then Err (WrongAddressFamily (slot_ident slot))
      else
        (case slot_bind slot of
           Some (Tcp expected) \<Rightarrow>
             try_bind (map_err (Inspect (slot_ident slot)) (k_socket_addr ops address)) (\<lambda>actual.
               if actual \<noteq> expected then Err (BindMismatch (slot_ident slot)) else Ok ())
         | _ \<Rightarrow> Ok ()))"

definition validate_unix_bind ::
  "('k, 'fd, 'addr) kernel \<Rightarrow> 'k \<Rightarrow> descriptor_slot \<Rightarrow> 'addr \<Rightarrow> (descriptor_error, unit) result" where
  "validate_unix_bind ops k slot address =
     (if k_family ops address \<noteq> UNIX then Err (WrongAddressFamily (slot_ident slot))
      else
        try_bind (map_err (Inspect (slot_ident slot)) (k_unix_addr ops address)) (\<lambda>(path_bytes, abstract_name).
        let matches =
          (case slot_bind slot of
             None \<Rightarrow> True
           | Some (UnixPath expected) \<Rightarrow> path_bytes = Some expected
           | Some (UnixAbstract expected) \<Rightarrow> abstract_name = Some expected
           | Some (Tcp _) \<Rightarrow> False)
        in if \<not> matches then Err (BindMismatch (slot_ident slot))
           else
             (case (slot_bind slot, slot_mode slot) of
                (Some (UnixPath path), Some expected) \<Rightarrow>
                  try_bind (map_err (InspectPath (slot_ident slot)) (k_path_metadata ops k path)) (\<lambda>(is_socket, mode).
                    if \<not> is_socket \<or> mode AND 0xFFF \<noteq> ucast expected
                    then Err (ModeMismatch (slot_ident slot)) else Ok ())
              | _ \<Rightarrow> Ok ())))"

definition validate_socket_address ::
  "('k, 'fd, 'addr) kernel \<Rightarrow> 'k \<Rightarrow> descriptor_slot \<Rightarrow> 'addr \<Rightarrow> (descriptor_error, unit) result" where
  "validate_socket_address ops k slot address =
     (if slot_kind slot = UnixListener then validate_unix_bind ops k slot address
      else validate_inet_bind ops slot address)"

definition set_nonblock_unless ::
  "('k, 'fd, 'addr) kernel \<Rightarrow> 'k \<Rightarrow> slot_id \<Rightarrow> 'fd \<Rightarrow> bool \<Rightarrow> 'k \<times> (descriptor_error, unit) result" where
  "set_nonblock_unless ops k slot fd present =
     (if present then (k, Ok ()) else map_prod id (inspect slot) (k_set_nonblock ops k fd))"

definition validate_descriptor ::
  "('k, 'fd, 'addr) kernel \<Rightarrow> 'k \<Rightarrow> descriptor_slot \<Rightarrow> 'fd \<Rightarrow> 'k \<times> (descriptor_error, unit) result" where
  "validate_descriptor ops k slot fd =
     (if slot_kind slot = Opaque then (k, Ok ())
      else
        seq_bind (k, inspect (slot_ident slot) (k_get_nonblock ops k fd)) (\<lambda>k nonblock.
        seq_bind (set_nonblock_unless ops k (slot_ident slot) fd nonblock) (\<lambda>k _.
        (k,
         try_bind (inspect (slot_ident slot) (k_get_nonblock ops k fd)) (\<lambda>nonblock.
         if \<not> nonblock then Err (NonblockingUnavailable (slot_ident slot))
         else
           try_bind (inspect (slot_ident slot) (k_is_socket ops k fd)) (\<lambda>is_socket.
           if \<not> is_socket then Err (NotSocket (slot_ident slot))
           else
             try_bind (validate_socket_shape ops k slot fd) (\<lambda>_.
             try_bind (inspect (slot_ident slot) (k_getsockname ops k fd)) (\<lambda>address.
             validate_socket_address ops k slot address))))))))"

section \<open>Descriptor set\<close>

record 'fd descriptor_entry =
  entry_slot :: descriptor_slot
  entry_descriptor :: "'fd option"

datatype 'fd descriptor_set = DescriptorSet (set_entries: "(slot_id, 'fd descriptor_entry) entries")

definition set_cloexec_unless ::
  "('k, 'fd, 'addr) kernel \<Rightarrow> 'k \<Rightarrow> slot_id \<Rightarrow> 'fd \<Rightarrow> bool \<Rightarrow> 'k \<times> (descriptor_error, unit) result" where
  "set_cloexec_unless ops k slot fd present =
     (if present then (k, Ok ()) else map_prod id (inspect slot) (k_set_cloexec ops k fd))"

fun validate_all ::
  "('k, 'fd, 'addr) kernel \<Rightarrow> 'k \<Rightarrow> (descriptor_slot \<times> 'fd) list
    \<Rightarrow> 'k \<times> (descriptor_error, unit) result" where
  "validate_all ops k [] = (k, Ok ())"
| "validate_all ops k ((slot, fd) # rest) =
     seq_bind (k, inspect (slot_ident slot) (k_get_cloexec ops k fd)) (\<lambda>k cloexec.
     seq_bind (set_cloexec_unless ops k (slot_ident slot) fd cloexec) (\<lambda>k _.
     seq_bind (k, inspect (slot_ident slot) (k_get_cloexec ops k fd)) (\<lambda>k cloexec.
     if \<not> cloexec then (k, Err (CloexecUnavailable (slot_ident slot)))
     else seq_bind (validate_descriptor ops k slot fd) (\<lambda>k _. validate_all ops k rest))))"

definition collect_entries :: "(descriptor_slot \<times> 'fd) list \<Rightarrow> (slot_id, 'fd descriptor_entry) entries" where
  "collect_entries pairs =
     foldl (\<lambda>m (slot, fd). btree_insert m (slot_ident slot) \<lparr>entry_slot = slot, entry_descriptor = Some fd\<rparr>) [] pairs"

definition descriptor_set_new ::
  "('k, 'fd, 'addr) kernel \<Rightarrow> 'k \<Rightarrow> descriptor_manifest \<Rightarrow> 'fd list
    \<Rightarrow> 'k \<times> (descriptor_error, 'fd descriptor_set) result" where
  "descriptor_set_new ops k manifest descriptors =
     (if length descriptors \<noteq> length (manifest_slots manifest)
      then (k, Err (CardinalityMismatch (length (manifest_slots manifest)) (length descriptors)))
      else
        seq_bind (validate_all ops k (zip (manifest_slots manifest) descriptors)) (\<lambda>k _.
          (k, Ok (DescriptorSet (collect_entries (zip (manifest_slots manifest) descriptors))))))"

definition descriptor_set_slot :: "'fd descriptor_set \<Rightarrow> slot_id \<Rightarrow> descriptor_slot option" where
  "descriptor_set_slot s slot = map_option entry_slot (tab_get (set_entries s) slot)"

definition descriptor_set_role :: "'fd descriptor_set \<Rightarrow> slot_id \<Rightarrow> descriptor_role option" where
  "descriptor_set_role s slot = map_option (slot_role \<circ> entry_slot) (tab_get (set_entries s) slot)"

definition descriptor_set_take ::
  "'fd descriptor_set \<Rightarrow> slot_id \<Rightarrow> 'fd descriptor_set \<times> (descriptor_error, 'fd) result" where
  "descriptor_set_take s slot =
     (case tab_get (set_entries s) slot of
        None \<Rightarrow> (s, Err (UnknownSlot slot))
      | Some entry \<Rightarrow>
          (DescriptorSet (btree_insert (set_entries s) slot (entry\<lparr>entry_descriptor := None\<rparr>)),
           ok_or (AlreadyConsumed slot) (entry_descriptor entry)))"

definition descriptor_set_remaining :: "'fd descriptor_set \<Rightarrow> usize" where
  "descriptor_set_remaining s =
     length (filter (\<lambda>(_, entry). entry_descriptor entry \<noteq> None) (set_entries s))"

section \<open>Specification\<close>

text \<open>What a slot may say: an Internet address belongs to a TCP, datagram or QUIC listener, a Unix
  name to a Unix listener, and a file mode to a Unix listener that is bound to a path.\<close>

definition slot_ok :: "descriptor_slot \<Rightarrow> bool" where
  "slot_ok slot \<longleftrightarrow>
     (case slot_bind slot of
        None \<Rightarrow> True
      | Some (Tcp _) \<Rightarrow> slot_kind slot \<in> {TcpListener, DatagramListener, QuicListener}
      | Some (UnixPath _) \<Rightarrow> slot_kind slot = UnixListener
      | Some (UnixAbstract _) \<Rightarrow> slot_kind slot = UnixListener)
     \<and> (case slot_mode slot of
        None \<Rightarrow> True
      | Some _ \<Rightarrow> slot_kind slot = UnixListener
          \<and> (case slot_bind slot of Some (UnixPath _) \<Rightarrow> True | _ \<Rightarrow> False))"

text \<open>What a slot says of its descriptor, in terms of what the kernel answers: a listening stream
  socket or a datagram socket, of the slot's address family, with the slot's address, and for a
  path with a mode a socket file with these permission bits.\<close>

definition bound_as_declared :: "('k, 'fd, 'addr) kernel \<Rightarrow> 'k \<Rightarrow> descriptor_slot \<Rightarrow> 'addr \<Rightarrow> bool" where
  "bound_as_declared ops k slot address \<longleftrightarrow>
     (if slot_kind slot = UnixListener then k_family ops address = UNIX else k_family ops address \<in> {INET, INET6})
     \<and> (case slot_bind slot of
        None \<Rightarrow> True
      | Some (Tcp a) \<Rightarrow> k_socket_addr ops address = Ok a
      | Some (UnixPath p) \<Rightarrow> (case k_unix_addr ops address of Ok (path, _) \<Rightarrow> path = Some p | Err _ \<Rightarrow> False)
          \<and> (case slot_mode slot of
               None \<Rightarrow> True
             | Some mode \<Rightarrow>
                 (case k_path_metadata ops k p of
                    Ok (is_socket, bits) \<Rightarrow> is_socket \<and> bits AND 0xFFF = ucast mode
                  | Err _ \<Rightarrow> False))
      | Some (UnixAbstract n) \<Rightarrow> (case k_unix_addr ops address of Ok (_, name) \<Rightarrow> name = Some n | Err _ \<Rightarrow> False))"

definition socket_as_declared :: "('k, 'fd, 'addr) kernel \<Rightarrow> 'k \<Rightarrow> descriptor_slot \<Rightarrow> 'fd \<Rightarrow> bool" where
  "socket_as_declared ops k slot fd \<longleftrightarrow>
     k_is_socket ops k fd = Ok True
     \<and> (if slot_kind slot \<in> {TcpListener, UnixListener}
        then k_socket_type ops k fd = Ok STREAM \<and> k_acceptconn ops k fd = Ok True
        else k_socket_type ops k fd = Ok DGRAM)
     \<and> (case k_getsockname ops k fd of Ok address \<Rightarrow> bound_as_declared ops k slot address | Err _ \<Rightarrow> False)"

text \<open>What the \<open>j\<close>-th of a sequence of takes must return.\<close>

definition expected_take ::
  "slot_id list \<Rightarrow> 'fd list \<Rightarrow> slot_id list \<Rightarrow> nat \<Rightarrow> (descriptor_error, 'fd) result" where
  "expected_take ids fds ts j =
     (case map_of (zip ids fds) (ts ! j) of
        None \<Rightarrow> Err (UnknownSlot (ts ! j))
      | Some fd \<Rightarrow> if ts ! j \<in> set (take j ts) then Err (AlreadyConsumed (ts ! j)) else Ok fd)"

definition pair_of :: "(descriptor_slot \<times> 'fd) list \<Rightarrow> slot_id \<Rightarrow> (descriptor_slot \<times> 'fd) option" where
  "pair_of pairs = map_of (map (\<lambda>(slot, fd). (slot_ident slot, slot, fd)) pairs)"

text \<open>The state of a set after the slots of \<open>taken\<close> were taken from it.\<close>

definition holds_except :: "(descriptor_slot \<times> 'fd) list \<Rightarrow> slot_id set \<Rightarrow> 'fd descriptor_set \<Rightarrow> bool" where
  "holds_except pairs taken s \<longleftrightarrow> btree_wf (set_entries s) \<and> (\<forall>i. tab_get (set_entries s) i =
     map_option (\<lambda>(slot, fd). \<lparr>entry_slot = slot, entry_descriptor = (if i \<in> taken then None else Some fd)\<rparr>)
       (pair_of pairs i))"

text \<open>What the code relies on of \<open>fcntl\<close>: setting a flag on one descriptor clears no flag.\<close>

definition flags_persist :: "('k, 'fd, 'addr) kernel \<Rightarrow> bool" where
  "flags_persist ops \<longleftrightarrow> (\<forall>k fd fd'.
     (k_get_cloexec ops k fd = Ok True \<longrightarrow>
        k_get_cloexec ops (fst (k_set_cloexec ops k fd')) fd = Ok True
        \<and> k_get_cloexec ops (fst (k_set_nonblock ops k fd')) fd = Ok True)
     \<and> (k_get_nonblock ops k fd = Ok True \<longrightarrow>
        k_get_nonblock ops (fst (k_set_cloexec ops k fd')) fd = Ok True
        \<and> k_get_nonblock ops (fst (k_set_nonblock ops k fd')) fd = Ok True))"

text \<open>Setting a flag changes no socket: neither its type, nor its name, nor a file.\<close>

definition same_sockets :: "('k, 'fd, 'addr) kernel \<Rightarrow> 'k \<Rightarrow> 'k \<Rightarrow> bool" where
  "same_sockets ops k k' \<longleftrightarrow> k_is_socket ops k' = k_is_socket ops k \<and> k_socket_type ops k' = k_socket_type ops k
     \<and> k_acceptconn ops k' = k_acceptconn ops k \<and> k_getsockname ops k' = k_getsockname ops k
     \<and> k_path_metadata ops k' = k_path_metadata ops k"

definition only_flags :: "('k, 'fd, 'addr) kernel \<Rightarrow> bool" where
  "only_flags ops \<longleftrightarrow> (\<forall>k fd. same_sockets ops k (fst (k_set_cloexec ops k fd))
     \<and> same_sockets ops k (fst (k_set_nonblock ops k fd)))"

section \<open>Lemmas\<close>

lemma slot_ok_iff:
  "slot_ok slot \<longleftrightarrow> bind_compatible (slot_kind slot) (slot_bind slot)
     \<and> (slot_mode slot \<noteq> None \<longrightarrow> mode_compatible (slot_kind slot) (slot_bind slot))"
  by (cases "slot_kind slot"; cases "slot_bind slot"; cases "the (slot_bind slot)"; cases "slot_mode slot")
    (simp_all add: slot_ok_def)

lemma check_slots_Ok:
  "check_slots ids slots = Ok () \<longleftrightarrow>
     distinct (map slot_ident slots) \<and> ids \<inter> slot_ident ` set slots = {} \<and> list_all slot_ok slots"
  by (induction slots arbitrary: ids) (auto simp: slot_ok_iff)

lemma manifest_new_Ok:
  "manifest_new slots = Ok m \<longleftrightarrow> m = DescriptorManifest slots \<and> length slots \<le> MAX_DESCRIPTOR_COUNT
     \<and> distinct (map slot_ident slots) \<and> list_all slot_ok slots"
  using check_slots_Ok [of "{}" slots] by (auto simp: manifest_new_def)

lemma pair_of_simps:
  "pair_of [] i = None"
  "pair_of ((slot, fd) # pairs) i = (if i = slot_ident slot then Some (slot, fd) else pair_of pairs i)"
  by (auto simp: pair_of_def)

lemma pair_of_absent: "slot_ident slot \<notin> set (map (slot_ident \<circ> fst) pairs) \<Longrightarrow> pair_of pairs (slot_ident slot) = None"
  by (induction pairs) (auto simp: pair_of_simps)

abbreviation add_entry ::
  "(slot_id, 'fd descriptor_entry) entries \<Rightarrow> descriptor_slot \<times> 'fd \<Rightarrow> (slot_id, 'fd descriptor_entry) entries" where
  "add_entry \<equiv> \<lambda>m (slot, fd). btree_insert m (slot_ident slot) \<lparr>entry_slot = slot, entry_descriptor = Some fd\<rparr>"

lemma collect_entries_get:
  assumes "distinct (map (slot_ident \<circ> fst) pairs)" and "btree_wf m"
  shows "btree_wf (foldl add_entry m pairs) \<and>
    (\<forall>i. tab_get (foldl add_entry m pairs) i =
      (case pair_of pairs i of
         None \<Rightarrow> tab_get m i | Some (slot, fd) \<Rightarrow> Some \<lparr>entry_slot = slot, entry_descriptor = Some fd\<rparr>))"
  using assms
proof (induction pairs arbitrary: m)
  case (Cons p pairs)
  obtain slot fd where p: "p = (slot, fd)" by (cases p)
  have wf: "btree_wf (add_entry m p)" using Cons.prems by (simp add: p btree.wf_put)
  have "distinct (map (slot_ident \<circ> fst) pairs)" using Cons.prems by (simp add: comp_def)
  note IH = Cons.IH [OF this wf]
  have absent: "pair_of pairs (slot_ident slot) = None"
    by (rule pair_of_absent) (use Cons.prems p in simp)
  have "tab_get (foldl add_entry m (p # pairs)) i =
      (case pair_of (p # pairs) i of
         None \<Rightarrow> tab_get m i | Some (slot, fd) \<Rightarrow> Some \<lparr>entry_slot = slot, entry_descriptor = Some fd\<rparr>)" for i
    using IH Cons.prems absent by (cases "i = slot_ident slot") (simp_all add: p pair_of_simps btree.get_put split: option.split)
  with IH show ?case by simp
qed (simp add: pair_of_simps)

lemma holds_collect:
  assumes "distinct (map (slot_ident \<circ> fst) pairs)"
  shows "holds_except pairs {} (DescriptorSet (collect_entries pairs))"
proof -
  have "btree_wf []" by (simp add: btree_wf_def)
  note get = collect_entries_get [OF assms this]
  show ?thesis
    using get by (simp add: holds_except_def collect_entries_def tab_get_def split: option.split)
qed

lemma holds_take:
  assumes "holds_except pairs taken s"
  shows "holds_except pairs (insert i taken) (fst (descriptor_set_take s i))"
    and "snd (descriptor_set_take s i) =
      (case pair_of pairs i of
         None \<Rightarrow> Err (UnknownSlot i)
       | Some (slot, fd) \<Rightarrow> if i \<in> taken then Err (AlreadyConsumed i) else Ok fd)"
proof -
  have wf: "btree_wf (set_entries s)" using assms by (simp add: holds_except_def)
  show "holds_except pairs (insert i taken) (fst (descriptor_set_take s i))"
  proof (cases "pair_of pairs i")
    case None
    have "tab_get (set_entries s) j = map_option (\<lambda>(slot, fd).
        \<lparr>entry_slot = slot, entry_descriptor = (if j \<in> insert i taken then None else Some fd)\<rparr>) (pair_of pairs j)" for j
      using assms None by (cases "j = i") (simp_all add: holds_except_def)
    with None assms show ?thesis
      by (simp add: holds_except_def descriptor_set_take_def)
  next
    case (Some p)
    obtain slot fd where p: "p = (slot, fd)" by (cases p)
    have get: "tab_get (set_entries s) j = map_option (\<lambda>(slot, fd).
        \<lparr>entry_slot = slot, entry_descriptor = (if j \<in> taken then None else Some fd)\<rparr>) (pair_of pairs j)" for j
      using assms by (simp add: holds_except_def)
    have "tab_get (set_entries (fst (descriptor_set_take s i))) j = map_option (\<lambda>(slot, fd).
        \<lparr>entry_slot = slot, entry_descriptor = (if j \<in> insert i taken then None else Some fd)\<rparr>) (pair_of pairs j)" for j
      using Some by (cases "j = i") (simp_all add: descriptor_set_take_def get p btree.get_put [OF wf])
    moreover have "btree_wf (set_entries (fst (descriptor_set_take s i)))"
      using Some wf by (simp add: descriptor_set_take_def get p btree.wf_put)
    ultimately show ?thesis by (simp add: holds_except_def)
  qed
  show "snd (descriptor_set_take s i) =
      (case pair_of pairs i of
         None \<Rightarrow> Err (UnknownSlot i)
       | Some (slot, fd) \<Rightarrow> if i \<in> taken then Err (AlreadyConsumed i) else Ok fd)"
    using assms by (auto simp: holds_except_def descriptor_set_take_def split: option.split)
qed

fun take_results ::
  "(descriptor_slot \<times> 'fd) list \<Rightarrow> slot_id set \<Rightarrow> slot_id list \<Rightarrow> (descriptor_error, 'fd) result list" where
  "take_results pairs taken [] = []"
| "take_results pairs taken (t # ts) =
     (case pair_of pairs t of
        None \<Rightarrow> Err (UnknownSlot t)
      | Some (slot, fd) \<Rightarrow> if t \<in> taken then Err (AlreadyConsumed t) else Ok fd)
     # take_results pairs (insert t taken) ts"

lemma takes_run:
  "holds_except pairs taken s \<Longrightarrow>
     holds_except pairs (taken \<union> set ts) (fst (run descriptor_set_take s ts))
     \<and> snd (run descriptor_set_take s ts) = take_results pairs taken ts"
proof (induction ts arbitrary: taken s)
  case (Cons t ts)
  from Cons.IH [OF holds_take(1) [OF Cons.prems, of t]] holds_take(2) [OF Cons.prems, of t]
  show ?case by simp
qed simp

lemma length_take_results [simp]: "length (take_results pairs taken ts) = length ts"
  by (induction ts arbitrary: taken) auto

lemma take_results_nth:
  "j < length ts \<Longrightarrow> take_results pairs taken ts ! j =
     (case pair_of pairs (ts ! j) of
        None \<Rightarrow> Err (UnknownSlot (ts ! j))
      | Some (slot, fd) \<Rightarrow> if ts ! j \<in> taken \<union> set (take j ts) then Err (AlreadyConsumed (ts ! j)) else Ok fd)"
proof (induction ts arbitrary: taken j)
  case (Cons t ts)
  then show ?case by (cases j) (simp_all split: option.split)
qed simp

lemma map_of_pairs:
  "length slots = length fds \<Longrightarrow>
     pair_of (zip slots fds) i = Some (slot, fd)
     \<Longrightarrow> map_of (zip (map slot_ident slots) fds) i = Some fd"
  by (induction slots fds rule: list_induct2) (auto simp: pair_of_def split: if_splits)

lemma map_of_pairs_None:
  "length slots = length fds \<Longrightarrow>
     pair_of (zip slots fds) i = None
     \<longleftrightarrow> map_of (zip (map slot_ident slots) fds) i = None"
  by (induction slots fds rule: list_induct2) (auto simp: pair_of_def)

lemma descriptor_set_new_Ok:
  assumes "descriptor_set_new ops k m fds = (k', Ok s)"
  shows "length fds = length (manifest_slots m)"
    and "s = DescriptorSet (collect_entries (zip (manifest_slots m) fds))"
    and "validate_all ops k (zip (manifest_slots m) fds) = (k', Ok ())"
  using assms
  by (auto simp: descriptor_set_new_def seq_bind_Ok split: if_splits)

lemma take_results_expected:
  assumes "length slots = length fds"
  shows "take_results (zip slots fds) {} ts = map (expected_take (map slot_ident slots) fds ts) [0..<length ts]"
proof (rule nth_equalityI)
  fix j assume "j < length (take_results (zip slots fds) {} ts)"
  then show "take_results (zip slots fds) {} ts ! j = map (expected_take (map slot_ident slots) fds ts) [0..<length ts] ! j"
    using map_of_pairs [OF assms, of "ts ! j"] map_of_pairs_None [OF assms, of "ts ! j"]
    by (auto simp: take_results_nth expected_take_def split: option.split)
qed simp

section \<open>Validation lemmas\<close>

lemma validate_socket_shape_Ok:
  "validate_socket_shape ops k slot fd = Ok () \<Longrightarrow>
     if slot_kind slot \<in> {TcpListener, UnixListener}
     then k_socket_type ops k fd = Ok STREAM \<and> k_acceptconn ops k fd = Ok True
     else k_socket_type ops k fd = Ok DGRAM"
  by (auto simp: validate_socket_shape_def inspect_def split: if_splits)

lemma validate_inet_bind_Ok:
  assumes "slot_ok slot" and "slot_kind slot \<noteq> UnixListener" and "validate_inet_bind ops slot address = Ok ()"
  shows "bound_as_declared ops k slot address"
  using assms
  by (auto simp: bound_as_declared_def validate_inet_bind_def slot_ok_def
      split: option.splits bind_identity.splits if_splits)

lemma validate_unix_bind_Ok:
  assumes "slot_ok slot" and "slot_kind slot = UnixListener" and "validate_unix_bind ops k slot address = Ok ()"
  shows "bound_as_declared ops k slot address"
  using assms
  by (auto simp: bound_as_declared_def validate_unix_bind_def slot_ok_def Let_def
      split: option.splits bind_identity.splits if_splits prod.splits)

lemma validate_socket_address_Ok:
  "slot_ok slot \<Longrightarrow> validate_socket_address ops k slot address = Ok () \<Longrightarrow> bound_as_declared ops k slot address"
  by (cases "slot_kind slot = UnixListener")
    (simp_all add: validate_socket_address_def validate_unix_bind_Ok validate_inet_bind_Ok)

lemma socket_as_declared_same:
  assumes "same_sockets ops k k'" and "socket_as_declared ops k slot fd"
  shows "socket_as_declared ops k' slot fd"
proof -
  have bound: "bound_as_declared ops k' slot = bound_as_declared ops k slot"
    using assms(1) by (intro ext) (simp only: same_sockets_def bound_as_declared_def)
  show ?thesis using assms unfolding socket_as_declared_def bound same_sockets_def by simp
qed

lemma same_sockets_refl: "same_sockets ops k k"
  by (simp add: same_sockets_def)

lemma same_sockets_trans: "same_sockets ops k k1 \<Longrightarrow> same_sockets ops k1 k2 \<Longrightarrow> same_sockets ops k k2"
  by (simp add: same_sockets_def)

lemma validate_descriptor_Ok:
  assumes "validate_descriptor ops k slot fd = (k', Ok ())" and "slot_kind slot \<noteq> Opaque"
    and "slot_ok slot"
  shows "k_get_nonblock ops k' fd = Ok True \<and> socket_as_declared ops k' slot fd"
proof -
  obtain address where ok: "k_get_nonblock ops k' fd = Ok True" "k_is_socket ops k' fd = Ok True"
    "validate_socket_shape ops k' slot fd = Ok ()" "k_getsockname ops k' fd = Ok address"
    "validate_socket_address ops k' slot address = Ok ()"
    using assms(1,2) by (auto simp: validate_descriptor_def seq_bind_Ok inspect_def split: if_splits)
  from ok(5) have "bound_as_declared ops k' slot address" by (rule validate_socket_address_Ok [OF assms(3)])
  with ok validate_socket_shape_Ok [OF ok(3)] show ?thesis by (simp add: socket_as_declared_def)
qed

lemma set_unless_state:
  "fst (set_cloexec_unless ops k i fd b) = (if b then k else fst (k_set_cloexec ops k fd))"
  "fst (set_nonblock_unless ops k i fd b) = (if b then k else fst (k_set_nonblock ops k fd))"
  by (simp_all add: set_cloexec_unless_def set_nonblock_unless_def)

lemma validate_descriptor_state:
  "fst (validate_descriptor ops k slot fd) = k \<or> fst (validate_descriptor ops k slot fd) = fst (k_set_nonblock ops k fd)"
proof (cases "slot_kind slot = Opaque")
  case False
  show ?thesis
  proof (cases "k_get_nonblock ops k fd")
    case (Inl e)
    with False show ?thesis by (simp add: validate_descriptor_def inspect_def)
  next
    case (Inr b)
    obtain k1 res where 1: "set_nonblock_unless ops k (slot_ident slot) fd b = (k1, res)" by fastforce
    then have "k1 = k \<or> k1 = fst (k_set_nonblock ops k fd)"
      using set_unless_state(2) [of ops k "slot_ident slot" fd b] by auto
    with False Inr 1 show ?thesis by (cases res) (simp_all add: validate_descriptor_def inspect_def)
  qed
qed (simp add: validate_descriptor_def)

lemma flags_persist_validate:
  assumes "flags_persist ops"
  shows "k_get_cloexec ops k fd' = Ok True \<Longrightarrow> k_get_cloexec ops (fst (validate_descriptor ops k slot fd)) fd' = Ok True"
    and "k_get_nonblock ops k fd' = Ok True \<Longrightarrow> k_get_nonblock ops (fst (validate_descriptor ops k slot fd)) fd' = Ok True"
    and "k_get_cloexec ops k fd' = Ok True \<Longrightarrow> k_get_cloexec ops (fst (set_cloexec_unless ops k i fd b)) fd' = Ok True"
    and "k_get_nonblock ops k fd' = Ok True \<Longrightarrow> k_get_nonblock ops (fst (set_cloexec_unless ops k i fd b)) fd' = Ok True"
  using assms validate_descriptor_state [of ops k slot fd]
  unfolding flags_persist_def set_unless_state by metis+

lemma only_flags_validate:
  assumes "only_flags ops"
  shows "same_sockets ops k (fst (validate_descriptor ops k slot fd))"
    and "same_sockets ops k (fst (set_cloexec_unless ops k i fd b))"
  using assms validate_descriptor_state [of ops k slot fd] same_sockets_refl
  unfolding only_flags_def set_unless_state by metis+

text \<open>The steps of one iteration of the validation loop.\<close>

lemma validate_all_Cons_Ok:
  assumes "validate_all ops k ((slot, fd) # rest) = (k', Ok ())"
  obtains b k1 k2 where "set_cloexec_unless ops k (slot_ident slot) fd b = (k1, Ok ())"
    and "k_get_cloexec ops k1 fd = Ok True"
    and "validate_descriptor ops k1 slot fd = (k2, Ok ())"
    and "validate_all ops k2 rest = (k', Ok ())"
proof -
  obtain b k1 where 1: "k_get_cloexec ops k fd = Ok b" "set_cloexec_unless ops k (slot_ident slot) fd b = (k1, Ok ())"
    using assms by (auto simp: seq_bind_Ok inspect_def)
  obtain c where 2: "k_get_cloexec ops k1 fd = Ok c" using assms 1 by (auto simp: seq_bind_Ok inspect_def)
  have c: "c = True" using assms 1 2 by (cases c) (simp_all add: inspect_def)
  obtain k2 where "validate_descriptor ops k1 slot fd = (k2, Ok ())" "validate_all ops k2 rest = (k', Ok ())"
    using assms 1 2 c by (auto simp: seq_bind_Ok inspect_def)
  with 1 2 c that show ?thesis by blast
qed

lemma validate_all_flags:
  assumes "flags_persist ops"
  shows "validate_all ops k pairs = (k', Ok ()) \<Longrightarrow>
    (k_get_cloexec ops k fd = Ok True \<longrightarrow> k_get_cloexec ops k' fd = Ok True)
    \<and> (k_get_nonblock ops k fd = Ok True \<longrightarrow> k_get_nonblock ops k' fd = Ok True)"
proof (induction pairs arbitrary: k)
  case (Cons p pairs)
  obtain slot d where p: "p = (slot, d)" by (cases p)
  obtain b k1 k2 where s: "set_cloexec_unless ops k (slot_ident slot) d b = (k1, Ok ())"
    "validate_descriptor ops k1 slot d = (k2, Ok ())" "validate_all ops k2 pairs = (k', Ok ())"
    using Cons.prems unfolding p by (rule validate_all_Cons_Ok)
  from Cons.IH [OF s(3)] flags_persist_validate(1,2) [OF assms, of k1 fd slot d]
    flags_persist_validate(3,4) [OF assms, of k fd "slot_ident slot" d b] s(1,2)
  show ?case by auto
qed simp

lemma validate_all_sockets:
  assumes "only_flags ops"
  shows "validate_all ops k pairs = (k', Ok ()) \<Longrightarrow> same_sockets ops k k'"
proof (induction pairs arbitrary: k)
  case (Cons p pairs)
  obtain slot d where p: "p = (slot, d)" by (cases p)
  obtain b k1 k2 where s: "set_cloexec_unless ops k (slot_ident slot) d b = (k1, Ok ())"
    "validate_descriptor ops k1 slot d = (k2, Ok ())" "validate_all ops k2 pairs = (k', Ok ())"
    using Cons.prems unfolding p by (rule validate_all_Cons_Ok)
  have "same_sockets ops k k1" "same_sockets ops k1 k2"
    using only_flags_validate [OF assms] s(1,2) by (metis fst_conv)+
  with Cons.IH [OF s(3)] show ?case by (blast intro: same_sockets_trans)
qed (simp add: same_sockets_refl)

lemma validate_all_Ok:
  assumes "flags_persist ops" and "only_flags ops" and "slot_ok slot"
    and "validate_all ops k pairs = (k', Ok ())" and "(slot, fd) \<in> set pairs"
  shows "k_get_cloexec ops k' fd = Ok True
    \<and> (slot_kind slot \<noteq> Opaque \<longrightarrow> k_get_nonblock ops k' fd = Ok True \<and> socket_as_declared ops k' slot fd)"
  using assms(4,5)
proof (induction pairs arbitrary: k)
  case (Cons p pairs)
  obtain slot' d where p: "p = (slot', d)" by (cases p)
  obtain b k1 k2 where s: "k_get_cloexec ops k1 d = Ok True"
    "validate_descriptor ops k1 slot' d = (k2, Ok ())" "validate_all ops k2 pairs = (k', Ok ())"
    using Cons.prems(1) unfolding p by (rule validate_all_Cons_Ok)
  show ?case
  proof (cases "(slot, fd) = p")
    case False
    with Cons.prems(2) Cons.IH [OF s(3)] show ?thesis by simp
  next
    case True
    then have eq: "slot' = slot" "d = fd" using p by simp_all
    have "k_get_cloexec ops k2 fd = Ok True"
      using flags_persist_validate(1) [OF assms(1), of k1 fd slot fd] s(1,2) by (simp add: eq)
    then have "k_get_cloexec ops k' fd = Ok True" using validate_all_flags [OF assms(1) s(3)] by blast
    moreover have "k_get_nonblock ops k' fd = Ok True \<and> socket_as_declared ops k' slot fd" if "slot_kind slot \<noteq> Opaque"
      using validate_descriptor_Ok [OF s(2)] that assms(3) validate_all_flags [OF assms(1) s(3), of fd]
        socket_as_declared_same [OF validate_all_sockets [OF assms(2) s(3)]] by (simp add: eq)
    ultimately show ?thesis by blast
  qed
qed simp

lemma kind_capability_bits: "kind_capability k AND NOT CAP_ALL = 0"
  by (cases k) (simp_all add: kind_capability_def CAP_ALL_def CAP_STREAM_def CAP_DATAGRAM_def CAP_QUIC_def)

lemma foldl_capabilities:
  "c AND NOT CAP_ALL = 0 \<Longrightarrow>
     foldl (\<lambda>all slot. capabilities_union all (kind_capability (slot_kind slot))) c slots AND NOT CAP_ALL = 0"
  by (induction slots arbitrary: c)
    (simp_all add: capabilities_union_def bit.conj_disj_distrib2 kind_capability_bits)

lemma manifest_capabilities_bits: "capabilities_from_bits (manifest_capabilities m) = Some (manifest_capabilities m)"
  by (simp add: capabilities_from_bits_def manifest_capabilities_def foldl_capabilities)

lemma capabilities_contains_iff: "capabilities_contains c x \<longleftrightarrow> (\<forall>n. bit x n \<longrightarrow> bit c n)"
proof
  assume "capabilities_contains c x"
  then show "\<forall>n. bit x n \<longrightarrow> bit c n" by (metis bit_and_iff capabilities_contains_def)
next
  assume "\<forall>n. bit x n \<longrightarrow> bit c n"
  then show "capabilities_contains c x"
    unfolding capabilities_contains_def by (intro bit_word_eqI) (auto simp: bit_simps)
qed

lemma foldl_contains:
  "capabilities_contains c x \<or> (\<exists>slot \<in> set slots. x = kind_capability (slot_kind slot)) \<Longrightarrow>
     capabilities_contains (foldl (\<lambda>all slot. capabilities_union all (kind_capability (slot_kind slot))) c slots) x"
proof (induction slots arbitrary: c)
  case (Cons slot slots)
  have "capabilities_contains (capabilities_union c y) x" if "capabilities_contains c x \<or> x = y" for y
    using that by (auto simp: capabilities_contains_iff capabilities_union_def bit_simps)
  with Cons show ?case by (simp, metis)
qed simp

section \<open>Properties\<close>

text \<open>
  C37. \<open>DescriptorManifest::new\<close> accepts a list of slots exactly when it has at most 64 slots
  with pairwise distinct identifiers, every bind identity fits its descriptor kind and a mode is
  given only for a filesystem Unix listener; the manifest keeps the slots in order, and its
  capabilities include those of each slot and none outside the protocol.
\<close>

theorem manifest_new_exact:
  "(manifest_new slots = Ok m \<longleftrightarrow> m = DescriptorManifest slots \<and> length slots \<le> MAX_DESCRIPTOR_COUNT
     \<and> distinct (map slot_ident slots) \<and> list_all slot_ok slots)
   \<and> list_all (\<lambda>slot. capabilities_contains (manifest_capabilities m) (kind_capability (slot_kind slot))) (manifest_slots m)
   \<and> capabilities_from_bits (manifest_capabilities m) = Some (manifest_capabilities m)"
  using foldl_contains [of 0 _ "manifest_slots m"] manifest_capabilities_bits [of m]
  by (simp add: manifest_new_Ok list_all_iff manifest_capabilities_def) blast

text \<open>
  C38. Each descriptor is given away exactly once: in any sequence of takes on a new descriptor
  set, the first take of a slot returns the descriptor that stood at the slot's position in the
  manifest, every later take of it and every take of an unknown slot is an error, and no other
  slot is affected.
\<close>

theorem descriptor_take_once:
  assumes "manifest_new slots = Ok m" and "descriptor_set_new ops k m fds = (k', Ok s)"
  shows "snd (run descriptor_set_take s ts) = map (expected_take (map slot_ident slots) fds ts) [0..<length ts]"
proof -
  have m: "manifest_slots m = slots" "distinct (map slot_ident slots)" using assms(1) by (auto simp: manifest_new_Ok)
  note new = descriptor_set_new_Ok [OF assms(2)]
  have "map (slot_ident \<circ> fst) (zip slots fds) = map slot_ident slots"
    using new(1) m(1) by (metis map_fst_zip map_map)
  then have "holds_except (zip slots fds) {} s"
    using holds_collect [of "zip slots fds"] m new(2) by simp
  then have "snd (run descriptor_set_take s ts) = take_results (zip slots fds) {} ts"
    using takes_run by blast
  then show ?thesis using take_results_expected [of slots fds ts] new(1) m(1) by simp
qed

text \<open>
  C39. A descriptor set is only built from validated descriptors: when \<open>new\<close> succeeds on a
  manifest, and since setting a flag with \<open>fcntl\<close> clears no flag and changes no socket, every
  received descriptor is close-on-exec at the end, and every listener slot's descriptor is
  nonblocking and a socket of the slot's type (a stream socket that accepts connections, or a
  datagram socket) and address family, bound to the slot's address, path or abstract name, and
  where the slot has a mode the path is a socket file with these permission bits.
\<close>

theorem descriptor_set_validated:
  assumes "flags_persist ops" and "only_flags ops"
    and "manifest_new slots = Ok m" and "descriptor_set_new ops k m fds = (k', Ok s)"
    and "(slot, fd) \<in> set (zip slots fds)"
  shows "length fds = length slots \<and> k_get_cloexec ops k' fd = Ok True
    \<and> (slot_kind slot \<noteq> Opaque \<longrightarrow> k_get_nonblock ops k' fd = Ok True \<and> socket_as_declared ops k' slot fd)"
proof -
  have m: "manifest_slots m = slots" "list_all slot_ok slots" using assms(3) by (auto simp: manifest_new_Ok)
  then have "slot_ok slot" using assms(5) by (auto simp: list_all_iff dest: set_zip_leftD)
  with descriptor_set_new_Ok [OF assms(4)] validate_all_Ok [OF assms(1,2) _ _ assms(5)] m(1) show ?thesis by auto
qed

section \<open>Witnesses\<close>

text \<open>A kernel whose state is the sets of descriptors with each flag; descriptor \<open>n\<close> is a
  listening stream socket bound to 127.0.0.1 port \<open>n\<close>.\<close>

definition example_kernel :: "(nat set \<times> nat set, nat, nat) kernel" where
  "example_kernel = \<lparr>
     k_get_cloexec = (\<lambda>k fd. Ok (fd \<in> fst k)),
     k_set_cloexec = (\<lambda>k fd. (map_prod (insert fd) id k, Ok ())),
     k_get_nonblock = (\<lambda>k fd. Ok (fd \<in> snd k)),
     k_set_nonblock = (\<lambda>k fd. (map_prod id (insert fd) k, Ok ())),
     k_is_socket = (\<lambda>_ _. Ok True),
     k_socket_type = (\<lambda>_ _. Ok STREAM),
     k_acceptconn = (\<lambda>_ _. Ok True),
     k_getsockname = (\<lambda>_ fd. Ok fd),
     k_family = (\<lambda>_. INET),
     k_socket_addr = (\<lambda>a. Ok (V4 [127, 0, 0, 1] (of_nat a))),
     k_unix_addr = (\<lambda>_. Err 22),
     k_path_metadata = (\<lambda>_ _. Err 2)\<rparr>"

definition example_slot :: "slot_id \<Rightarrow> u16 \<Rightarrow> descriptor_slot" where
  "example_slot i port = \<lparr>slot_ident = i, slot_role = RoleManagement, slot_kind = TcpListener,
     slot_bind = Some (Tcp (V4 [127, 0, 0, 1] port)), slot_mode = None\<rparr>"

definition example_manifest :: descriptor_manifest where
  "example_manifest = DescriptorManifest [example_slot 7 80, example_slot 9 90]"

lemma example_manifest_new: "manifest_new [example_slot 7 80, example_slot 9 90] = Ok example_manifest"
  by (simp add: manifest_new_Ok example_manifest_def example_slot_def slot_ok_def MAX_DESCRIPTOR_COUNT_def)

lemma example_set_new:
  "descriptor_set_new example_kernel ({}, {}) example_manifest [80, 90] =
     (({90, 80}, {90, 80}),
      Ok (DescriptorSet (collect_entries (zip (manifest_slots example_manifest) [80, 90]))))"
  by (simp add: descriptor_set_new_def example_manifest_def example_kernel_def example_slot_def inspect_def
      set_cloexec_unless_def set_nonblock_unless_def validate_descriptor_def validate_socket_shape_def
      validate_socket_address_def validate_inet_bind_def)

lemma example_flags_persist: "flags_persist example_kernel"
  by (simp add: flags_persist_def example_kernel_def)

theorem descriptor_take_once_witness:
  "snd (run descriptor_set_take
      (DescriptorSet (collect_entries (zip (manifest_slots example_manifest) [80, 90 :: nat]))) [9, 9, 3])
   = [Ok 90, Err (AlreadyConsumed 9), Err (UnknownSlot 3)]"
  using descriptor_take_once [OF example_manifest_new example_set_new, of "[9, 9, 3]"]
  by (simp add: expected_take_def example_slot_def upt_rec)

lemma example_only_flags: "only_flags example_kernel"
  by (simp add: only_flags_def same_sockets_def example_kernel_def)

theorem descriptor_set_validated_witness:
  "k_get_cloexec example_kernel ({90, 80}, {90, 80}) 90 = Ok True
   \<and> k_get_nonblock example_kernel ({90, 80}, {90, 80}) 90 = Ok True
   \<and> socket_as_declared example_kernel ({90, 80}, {90, 80}) (example_slot 9 90) 90"
proof -
  have "(example_slot 9 90, 90) \<in> set (zip [example_slot 7 80, example_slot 9 90] [80, 90])" by simp
  from descriptor_set_validated [OF example_flags_persist example_only_flags example_manifest_new example_set_new this]
  show ?thesis by (simp add: example_slot_def)
qed

end
