(* ===== verification/Control.thy ===== *)
theory Control
  imports Status Descriptor
begin

text \<open>
  The control protocol between master and worker
  (\<open>crates/oxiroute-supervisor-master/src/protocol.rs\<close>): requests with their correlation identity,
  the adoption request with its descriptor manifest, acknowledgements, and the worker's access to
  them over its authenticated endpoint. The debug assertions of the source are not modelled.
\<close>

definition MAX_MANIFEST_BYTES :: usize where "MAX_MANIFEST_BYTES = 16 * 1024"
definition DESCRIPTOR_MANIFEST_VERSION :: u16 where "DESCRIPTOR_MANIFEST_VERSION = 1"
definition SUPPORTED_DESCRIPTOR_CAPABILITIES :: capabilities where "SUPPORTED_DESCRIPTOR_CAPABILITIES = CAP_ALL"
definition ADOPT :: message_type where "ADOPT = 0x100"
definition QUIESCE :: message_type where "QUIESCE = 0x101"
definition ACTIVATE :: message_type where "ACTIVATE = 0x102"
definition DRAIN :: message_type where "DRAIN = 0x103"
definition REACTIVATE :: message_type where "REACTIVATE = 0x104"
definition SHUTDOWN :: message_type where "SHUTDOWN = 0x105"
definition ACK :: message_type where "ACK = 0x180"
definition PREFIX_SIZE :: usize where "PREFIX_SIZE = 10"
definition ACK_SIZE :: usize where "ACK_SIZE = 12"

lemmas control_limits = MAX_MANIFEST_BYTES_def DESCRIPTOR_MANIFEST_VERSION_def PREFIX_SIZE_def ACK_SIZE_def
  CONTROL_PROTOCOL_VERSION_def MAX_DESCRIPTOR_COUNT_def

lemmas control_messages = ADOPT_def QUIESCE_def ACTIVATE_def DRAIN_def REACTIVATE_def SHUTDOWN_def ACK_def
  STATUS_MESSAGE_def

datatype control_error =
    ControlChannel channel_error
  | ControlTransport transport_error
  | ControlDescriptor descriptor_error
  | VersionMismatch u16 u16
  | ManifestVersionMismatch u16 u16
  | UnsupportedCapabilities u16 u16
  | UnexpectedMessage u16
  | UnknownPhase u8
  | InvalidPayload
  | EncodedManifestTooLarge usize usize
  | Allocation
  | UnexpectedDescriptors
  | ControlStatus status_error

definition control_wire :: "control_error wire_protocol" where
  "control_wire = \<lparr>wire_invalid = InvalidPayload, wire_too_large = EncodedManifestTooLarge,
     wire_allocation = Allocation\<rparr>"

datatype control_phase = AdoptListeners | Quiesce | Activate | Drain | Reactivate | Shutdown

fun phase_tag :: "control_phase \<Rightarrow> u8" where
  "phase_tag AdoptListeners = 1"
| "phase_tag Quiesce = 2"
| "phase_tag Activate = 3"
| "phase_tag Drain = 4"
| "phase_tag Reactivate = 5"
| "phase_tag Shutdown = 6"

definition phase_from_tag :: "u8 \<Rightarrow> (control_error, control_phase) result" where
  "phase_from_tag tag =
     (if tag = 1 then Ok AdoptListeners
      else if tag = 2 then Ok Quiesce
      else if tag = 3 then Ok Activate
      else if tag = 4 then Ok Drain
      else if tag = 5 then Ok Reactivate
      else if tag = 6 then Ok Shutdown
      else Err (UnknownPhase tag))"

fun phase_message_type :: "control_phase \<Rightarrow> message_type" where
  "phase_message_type AdoptListeners = ADOPT"
| "phase_message_type Quiesce = QUIESCE"
| "phase_message_type Activate = ACTIVATE"
| "phase_message_type Drain = DRAIN"
| "phase_message_type Reactivate = REACTIVATE"
| "phase_message_type Shutdown = SHUTDOWN"

definition phase_from_message_type :: "message_type \<Rightarrow> (control_error, control_phase) result" where
  "phase_from_message_type mt =
     (if mt = ADOPT then Ok AdoptListeners
      else if mt = QUIESCE then Ok Quiesce
      else if mt = ACTIVATE then Ok Activate
      else if mt = DRAIN then Ok Drain
      else if mt = REACTIVATE then Ok Reactivate
      else if mt = SHUTDOWN then Ok Shutdown
      else Err (UnexpectedMessage mt))"

datatype control_outcome = Accepted | Rejected u8

record 'fd control_request =
  cr_request_id :: u64
  cr_phase :: control_phase
  cr_listeners :: "'fd descriptor_set option"

record control_ack =
  ca_request_id :: u64
  ca_phase :: control_phase
  ca_outcome :: control_outcome

definition take_listeners :: "'fd control_request \<Rightarrow> 'fd control_request \<times> 'fd descriptor_set option" where
  "take_listeners request = (request\<lparr>cr_listeners := None\<rparr>, cr_listeners request)"

section \<open>Encoder\<close>

definition encode_request :: "u64 \<Rightarrow> control_phase \<Rightarrow> bytes" where
  "encode_request request_id phase = u16_to_be_bytes CONTROL_PROTOCOL_VERSION @ u64_to_be_bytes request_id"

fun encode_role :: "descriptor_role \<Rightarrow> control_error writing" where
  "encode_role (RoleTraffic name) = write_all [writer_u8 1, writer_length_prefixed (as_bytes name)]"
| "encode_role RoleManagement = writer_u8 2"
| "encode_role (RoleStats index) = write_all [writer_u8 3, writer_u16 index]"
| "encode_role (RoleStatsPage index) = write_all [writer_u8 4, writer_u16 index]"
| "encode_role RoleState = writer_u8 5"
| "encode_role RoleControl = writer_u8 6"

fun kind_tag :: "descriptor_kind \<Rightarrow> u8" where
  "kind_tag TcpListener = 1"
| "kind_tag UnixListener = 2"
| "kind_tag Opaque = 3"
| "kind_tag DatagramListener = 4"
| "kind_tag QuicListener = 5"

fun encode_bind :: "bind_identity option \<Rightarrow> control_error writing" where
  "encode_bind None = writer_u8 0"
| "encode_bind (Some (Tcp (V4 octets port))) = write_all [writer_u8 1, writer_bytes octets, writer_u16 port]"
| "encode_bind (Some (Tcp (V6 octets port flowinfo scope_id))) =
     write_all [writer_u8 2, writer_bytes octets, writer_u16 port, writer_u32 flowinfo, writer_u32 scope_id]"
| "encode_bind (Some (UnixPath path)) = write_all [writer_u8 3, writer_length_prefixed path]"
| "encode_bind (Some (UnixAbstract name)) = write_all [writer_u8 4, writer_length_prefixed name]"

definition encode_mode :: "u16 option \<Rightarrow> control_error writing" where
  "encode_mode mode = (case mode of Some m \<Rightarrow> write_all [writer_u8 1, writer_u16 m] | None \<Rightarrow> writer_u8 0)"

definition encode_slot :: "descriptor_slot \<Rightarrow> control_error writing" where
  "encode_slot slot = write_all
     [writer_u16 (slot_ident slot),
      encode_role (slot_role slot),
      writer_u8 (kind_tag (slot_kind slot)),
      encode_bind (slot_bind slot),
      encode_mode (slot_mode slot)]"

definition encode_manifest :: "descriptor_manifest \<Rightarrow> control_error writing" where
  "encode_manifest manifest = write_all
     [writer_u16 DESCRIPTOR_MANIFEST_VERSION,
      writer_u16 (manifest_capabilities manifest),
      writer_count InvalidPayload (length (manifest_slots manifest)),
      write_all (map encode_slot (manifest_slots manifest))]"

definition encode_adopt_request :: "usize \<Rightarrow> u64 \<Rightarrow> descriptor_manifest \<Rightarrow> (control_error, bytes) result" where
  "encode_adopt_request limit request_id manifest =
     (case write_all
         [writer_bytes (u16_to_be_bytes CONTROL_PROTOCOL_VERSION),
          writer_bytes (u64_to_be_bytes request_id),
          encode_manifest manifest]
         (writer_new control_wire limit (PREFIX_SIZE + MAX_MANIFEST_BYTES)) of
        (payload, Ok _) \<Rightarrow> Ok (writer_finish payload)
      | (_, Err e) \<Rightarrow> Err e)"

fun outcome_code :: "control_outcome \<Rightarrow> u8" where
  "outcome_code Accepted = 0"
| "outcome_code (Rejected code) = (if code = 0 then 1 else code)"

definition encode_ack :: "u64 \<Rightarrow> control_phase \<Rightarrow> control_outcome \<Rightarrow> bytes" where
  "encode_ack request_id phase outcome =
     u16_to_be_bytes CONTROL_PROTOCOL_VERSION @ u64_to_be_bytes request_id @ [phase_tag phase, outcome_code outcome]"

section \<open>Decoder\<close>

definition check_version :: "bytes \<Rightarrow> (control_error, unit) result" where
  "check_version payload =
     (let actual = u16_from_be_bytes (take 2 payload)
      in if actual = CONTROL_PROTOCOL_VERSION then Ok ()
         else Err (VersionMismatch CONTROL_PROTOCOL_VERSION actual))"

definition decode_ack :: "'fd authenticated_frame \<Rightarrow> (control_error, control_ack) result" where
  "decode_ack frame =
     (if fh_message_type (af_header frame) \<noteq> ACK then Err (UnexpectedMessage (fh_message_type (af_header frame)))
      else if af_descriptors frame \<noteq> [] then Err UnexpectedDescriptors
      else
        let payload = af_payload frame in
        if length payload \<noteq> ACK_SIZE then Err InvalidPayload
        else
          try_bind (check_version payload) (\<lambda>_.
          let outcome = (if payload ! 11 = 0 then Accepted else Rejected (payload ! 11)) in
          try_bind (phase_from_tag (payload ! 10)) (\<lambda>phase.
          Ok \<lparr>ca_request_id = u64_from_be_bytes (slice payload 2 10), ca_phase = phase, ca_outcome = outcome\<rparr>)))"

definition decode_role :: "(control_error, descriptor_role) reading" where
  "decode_role = read_bind reader_u8 (\<lambda>tag.
     if tag = 1 then
       read_bind reader_length_prefixed (\<lambda>bs.
       read_bind (read_result (ok_or InvalidPayload (from_utf8 bs))) (\<lambda>name. read_ok (RoleTraffic name)))
     else if tag = 2 then read_ok RoleManagement
     else if tag = 3 then read_bind reader_u16 (\<lambda>index. read_ok (RoleStats index))
     else if tag = 4 then read_bind reader_u16 (\<lambda>index. read_ok (RoleStatsPage index))
     else if tag = 5 then read_ok RoleState
     else if tag = 6 then read_ok RoleControl
     else read_fail InvalidPayload)"

definition decode_kind :: "(control_error, descriptor_kind) reading" where
  "decode_kind = read_bind reader_u8 (\<lambda>tag.
     if tag = 1 then read_ok TcpListener
     else if tag = 2 then read_ok UnixListener
     else if tag = 3 then read_ok Opaque
     else if tag = 4 then read_ok DatagramListener
     else if tag = 5 then read_ok QuicListener
     else read_fail InvalidPayload)"

definition decode_bind :: "(control_error, bind_identity option) reading" where
  "decode_bind = read_bind reader_u8 (\<lambda>tag.
     if tag = 0 then read_ok None
     else if tag = 1 then
       read_bind (reader_bytes 4) (\<lambda>ip. read_bind reader_u16 (\<lambda>port. read_ok (Some (Tcp (V4 ip port)))))
     else if tag = 2 then
       read_bind (reader_bytes 16) (\<lambda>ip. read_bind reader_u16 (\<lambda>port.
       read_bind reader_u32 (\<lambda>flowinfo. read_bind reader_u32 (\<lambda>scope_id.
       read_ok (Some (Tcp (V6 ip port flowinfo scope_id)))))))
     else if tag = 3 then read_bind reader_length_prefixed (\<lambda>path. read_ok (Some (UnixPath path)))
     else if tag = 4 then read_bind reader_length_prefixed (\<lambda>name. read_ok (Some (UnixAbstract name)))
     else read_fail InvalidPayload)"

definition decode_mode :: "(control_error, u16 option) reading" where
  "decode_mode = read_bind reader_u8 (\<lambda>tag.
     if tag = 0 then read_ok None
     else if tag = 1 then read_bind reader_u16 (\<lambda>mode. read_ok (Some mode))
     else read_fail InvalidPayload)"

definition decode_slot :: "(control_error, descriptor_slot) reading" where
  "decode_slot =
     read_bind reader_u16 (\<lambda>i.
     read_bind decode_role (\<lambda>role.
     read_bind decode_kind (\<lambda>kind.
     read_bind decode_bind (\<lambda>bind.
     read_bind decode_mode (\<lambda>mode.
     read_ok \<lparr>slot_ident = i, slot_role = role, slot_kind = kind, slot_bind = bind, slot_mode = mode\<rparr>)))))"

definition decode_manifest_body ::
  "(usize \<Rightarrow> bool) \<Rightarrow> (control_error, capabilities \<times> descriptor_slot list) reading" where
  "decode_manifest_body reserve =
     read_bind reader_u16 (\<lambda>manifest_version.
     if manifest_version \<noteq> DESCRIPTOR_MANIFEST_VERSION
       then read_fail (ManifestVersionMismatch DESCRIPTOR_MANIFEST_VERSION manifest_version)
     else
     read_bind reader_u16 (\<lambda>encoded_capabilities.
     read_bind (read_result (ok_or (UnsupportedCapabilities encoded_capabilities SUPPORTED_DESCRIPTOR_CAPABILITIES)
         (capabilities_from_bits encoded_capabilities))) (\<lambda>capabilities.
     read_bind reader_u16 (\<lambda>slot_count.
     if unat slot_count > MAX_DESCRIPTOR_COUNT then read_fail InvalidPayload
     else if \<not> reserve (unat slot_count) then read_fail Allocation
     else
     read_bind (read_many (unat slot_count) decode_slot) (\<lambda>slots.
     read_ok (capabilities, slots))))))"

definition decode_manifest :: "(usize \<Rightarrow> bool) \<Rightarrow> bytes \<Rightarrow> (control_error, descriptor_manifest) result" where
  "decode_manifest reserve payload =
     (if length payload > MAX_MANIFEST_BYTES
        then Err (EncodedManifestTooLarge (length payload) MAX_MANIFEST_BYTES)
      else
        let (decoder, res) = decode_manifest_body reserve (reader_new control_wire payload) in
        try_bind res (\<lambda>(capabilities, slots).
        try_bind (reader_finish decoder) (\<lambda>_.
        try_bind (map_err ControlDescriptor (manifest_new slots)) (\<lambda>manifest.
        if manifest_capabilities manifest \<noteq> capabilities then Err InvalidPayload
        else if \<not> capabilities_contains SUPPORTED_DESCRIPTOR_CAPABILITIES capabilities
          then Err (UnsupportedCapabilities capabilities SUPPORTED_DESCRIPTOR_CAPABILITIES)
        else Ok manifest))))"

definition decode_listeners ::
  "('k, 'fd, 'addr) kernel \<Rightarrow> (usize \<Rightarrow> bool) \<Rightarrow> 'k \<Rightarrow> bytes \<Rightarrow> 'fd list
    \<Rightarrow> 'k \<times> (control_error, 'fd descriptor_set option) result" where
  "decode_listeners ops reserve k payload descriptors =
     seq_bind (k, decode_manifest reserve payload) (\<lambda>k manifest.
       map_prod id (\<lambda>res. map_sum ControlDescriptor Some res) (descriptor_set_new ops k manifest descriptors))"

definition decode_request ::
  "('k, 'fd, 'addr) kernel \<Rightarrow> (usize \<Rightarrow> bool) \<Rightarrow> 'k \<Rightarrow> 'fd authenticated_frame
    \<Rightarrow> 'k \<times> (control_error, 'fd control_request) result" where
  "decode_request ops reserve k frame =
     seq_bind (k, phase_from_message_type (fh_message_type (af_header frame))) (\<lambda>k phase.
     let payload = af_payload frame; descriptors = af_descriptors frame in
     if length payload < PREFIX_SIZE then (k, Err InvalidPayload)
     else
       seq_bind (k, check_version payload) (\<lambda>k _.
       let request_id = u64_from_be_bytes (slice payload 2 10) in
       seq_bind
         (if phase = AdoptListeners then decode_listeners ops reserve k (drop PREFIX_SIZE payload) descriptors
          else if length payload \<noteq> PREFIX_SIZE then (k, Err InvalidPayload)
          else if descriptors \<noteq> [] then (k, Err UnexpectedDescriptors)
          else (k, Ok None)) (\<lambda>k listeners.
       (k, Ok \<lparr>cr_request_id = request_id, cr_phase = phase, cr_listeners = listeners\<rparr>))))"

section \<open>The worker's control endpoint\<close>

datatype 'fd worker_control = WorkerControl (wc_endpoint: "'fd worker_endpoint")

definition control_receive ::
  "('k, 'fd, 'addr) kernel \<Rightarrow> (usize \<Rightarrow> bool) \<Rightarrow> 'fd fd_env \<Rightarrow> 'k \<Rightarrow> 'fd worker_control
    \<Rightarrow> (errno, 'fd received) result \<Rightarrow> ('k \<times> 'fd worker_control) \<times> (control_error, 'fd control_request) result" where
  "control_receive ops reserve env k wc recvmsg =
     (let (we, res) = worker_receive env (wc_endpoint wc) recvmsg in
      case res of
        Err e \<Rightarrow> ((k, WorkerControl we), Err (ControlChannel e))
      | Ok frame \<Rightarrow>
          let (k', request) = decode_request ops reserve k frame in ((k', WorkerControl we), request))"

definition control_send ::
  "'fd send_env \<Rightarrow> 'fd worker_control \<Rightarrow> message_type \<Rightarrow> bytes
    \<Rightarrow> 'fd worker_control \<times> (control_error, sequence) result" where
  "control_send env wc mt payload =
     (let (we, res) = worker_send env (wc_endpoint wc) mt 0 payload []
      in (WorkerControl we, map_err ControlTransport res))"

definition acknowledge_raw ::
  "'fd send_env \<Rightarrow> 'fd worker_control \<Rightarrow> u64 \<Rightarrow> control_phase \<Rightarrow> control_outcome
    \<Rightarrow> 'fd worker_control \<times> (control_error, sequence) result" where
  "acknowledge_raw env wc request_id phase outcome =
     control_send env wc ACK (encode_ack request_id phase outcome)"

definition acknowledge ::
  "'fd send_env \<Rightarrow> 'fd worker_control \<Rightarrow> 'fd control_request \<Rightarrow> control_outcome
    \<Rightarrow> 'fd worker_control \<times> (control_error, sequence) result" where
  "acknowledge env wc request outcome =
     acknowledge_raw env wc (cr_request_id request) (cr_phase request) outcome"

definition report_status_raw ::
  "'fd send_env \<Rightarrow> 'fd worker_control \<Rightarrow> bytes \<Rightarrow> 'fd worker_control \<times> (control_error, sequence) result" where
  "report_status_raw env wc payload = control_send env wc STATUS_MESSAGE payload"

definition report_status ::
  "usize \<Rightarrow> 'fd send_env \<Rightarrow> 'fd worker_control \<Rightarrow> worker_status
    \<Rightarrow> 'fd worker_control \<times> (control_error, sequence) result" where
  "report_status limit env wc status =
     seq_bind (wc, map_err ControlStatus (encode_status limit status)) (\<lambda>wc payload.
       control_send env wc STATUS_MESSAGE payload)"

section \<open>Codecs\<close>

fun role_image :: "descriptor_role \<Rightarrow> bytes" where
  "role_image (RoleTraffic name) = u8_to_be_bytes 1 @ length_prefixed_image (as_bytes name)"
| "role_image RoleManagement = u8_to_be_bytes 2"
| "role_image (RoleStats index) = u8_to_be_bytes 3 @ u16_to_be_bytes index"
| "role_image (RoleStatsPage index) = u8_to_be_bytes 4 @ u16_to_be_bytes index"
| "role_image RoleState = u8_to_be_bytes 5"
| "role_image RoleControl = u8_to_be_bytes 6"

fun bind_image :: "bind_identity option \<Rightarrow> bytes" where
  "bind_image None = u8_to_be_bytes 0"
| "bind_image (Some (Tcp (V4 octets port))) = u8_to_be_bytes 1 @ octets @ u16_to_be_bytes port"
| "bind_image (Some (Tcp (V6 octets port flowinfo scope_id))) =
     u8_to_be_bytes 2 @ octets @ u16_to_be_bytes port @ u32_to_be_bytes flowinfo @ u32_to_be_bytes scope_id"
| "bind_image (Some (UnixPath path)) = u8_to_be_bytes 3 @ length_prefixed_image path"
| "bind_image (Some (UnixAbstract name)) = u8_to_be_bytes 4 @ length_prefixed_image name"

definition slot_image :: "descriptor_slot \<Rightarrow> bytes" where
  "slot_image slot = u16_to_be_bytes (slot_ident slot) @ role_image (slot_role slot)
     @ u8_to_be_bytes (kind_tag (slot_kind slot)) @ bind_image (slot_bind slot)
     @ optional_image u16_to_be_bytes (slot_mode slot)"

definition manifest_image :: "descriptor_manifest \<Rightarrow> bytes" where
  "manifest_image m = u16_to_be_bytes DESCRIPTOR_MANIFEST_VERSION @ u16_to_be_bytes (manifest_capabilities m)
     @ u16_to_be_bytes (of_nat (length (manifest_slots m))) @ concat (map slot_image (manifest_slots m))"

text \<open>A length field has 32 bits; the types of the source guarantee Unicode text and address sizes.\<close>

fun role_fits :: "descriptor_role \<Rightarrow> bool" where
  "role_fits (RoleTraffic name) \<longleftrightarrow> length (as_bytes name) < 2 ^ 32"
| "role_fits _ \<longleftrightarrow> True"

fun role_text :: "descriptor_role \<Rightarrow> bool" where
  "role_text (RoleTraffic name) \<longleftrightarrow> list_all is_scalar name"
| "role_text _ \<longleftrightarrow> True"

fun bind_fits :: "bind_identity option \<Rightarrow> bool" where
  "bind_fits (Some (UnixPath path)) \<longleftrightarrow> length path < 2 ^ 32"
| "bind_fits (Some (UnixAbstract name)) \<longleftrightarrow> length name < 2 ^ 32"
| "bind_fits _ \<longleftrightarrow> True"

fun bind_typed :: "bind_identity option \<Rightarrow> bool" where
  "bind_typed (Some (Tcp (V4 octets _))) \<longleftrightarrow> length octets = 4"
| "bind_typed (Some (Tcp (V6 octets _ _ _))) \<longleftrightarrow> length octets = 16"
| "bind_typed _ \<longleftrightarrow> True"

definition slot_fits :: "descriptor_slot \<Rightarrow> bool" where
  "slot_fits slot \<longleftrightarrow> role_fits (slot_role slot) \<and> bind_fits (slot_bind slot)"

definition slot_typed :: "descriptor_slot \<Rightarrow> bool" where
  "slot_typed slot \<longleftrightarrow> role_text (slot_role slot) \<and> bind_typed (slot_bind slot)"

lemma gets_role: "gets decode_role (\<lambda>role bs. (role_fits role \<and> role_text role) \<and> bs = role_image role)"
  unfolding decode_role_def
  apply (rule gets_cong, (rule wire_gets)+)
  subgoal for role bs by (cases role) (auto simp: from_utf8_iff)
  done

lemma gets_kind: "gets decode_kind (\<lambda>kind bs. bs = u8_to_be_bytes (kind_tag kind))"
  unfolding decode_kind_def
  apply (rule gets_cong, (rule wire_gets)+)
  subgoal for kind bs by (cases kind) auto
  done

lemma gets_bind_identity: "gets decode_bind (\<lambda>bind bs. (bind_fits bind \<and> bind_typed bind) \<and> bs = bind_image bind)"
  unfolding decode_bind_def
  apply (rule gets_cong, (rule wire_gets)+)
  subgoal for bind bs by (cases bind rule: bind_image.cases) auto
  done

lemma gets_mode: "gets decode_mode (\<lambda>mode bs. pred_option always mode \<and> bs = optional_image u16_to_be_bytes mode)"
  unfolding decode_mode_def by (rule gets_optional) (rule wire_gets)

lemma puts_role: "puts (encode_role role) (role_fits role) (role_image role)"
  by (cases role; simp only: encode_role.simps role_image.simps role_fits.simps)
    (rule puts_cong, (rule wire_puts)+, simp_all)+

lemma puts_bind_identity: "puts (encode_bind bind) (bind_fits bind) (bind_image bind)"
  by (cases bind rule: bind_image.cases; simp only: encode_bind.simps bind_image.simps bind_fits.simps)
    (rule puts_cong, (rule wire_puts)+, simp_all)+

lemma puts_mode: "puts (encode_mode mode) (pred_option always mode) (optional_image u16_to_be_bytes mode)"
  unfolding encode_mode_def by (rule puts_optional) (rule wire_puts)

interpretation wslot: wire_codec encode_slot decode_slot slot_fits "\<lambda>slot. slot_fits slot \<and> slot_typed slot" slot_image
proof unfold_locales
  show "puts (encode_slot slot) (slot_fits slot) (slot_image slot)" for slot
    unfolding encode_slot_def
    by (rule puts_cong, (rule wire_puts puts_role puts_bind_identity puts_mode)+)
      (auto simp: slot_fits_def slot_image_def option.pred_True)
  show "gets decode_slot (\<lambda>slot bs. (slot_fits slot \<and> slot_typed slot) \<and> bs = slot_image slot)"
    unfolding decode_slot_def
    apply (rule gets_cong, (rule wire_gets gets_role gets_kind gets_bind_identity gets_mode)+)
    subgoal for slot bs
      by (cases slot) (auto simp: slot_fits_def slot_typed_def slot_image_def option.pred_True)
    done
qed simp

lemma puts_manifest:
  "puts (encode_manifest m) (length (manifest_slots m) < 2 ^ 16 \<and> list_all slot_fits (manifest_slots m)) (manifest_image m)"
  unfolding encode_manifest_def
  by (rule puts_cong, (rule wire_puts wslot.put_many)+) (auto simp: manifest_image_def)

lemma gets_manifest_body:
  "gets (decode_manifest_body reserve) (\<lambda>(caps, slots) bs.
     (capabilities_from_bits caps = Some caps \<and> length slots \<le> MAX_DESCRIPTOR_COUNT \<and> reserve (length slots)
      \<and> list_all (\<lambda>slot. slot_fits slot \<and> slot_typed slot) slots)
     \<and> bs = u16_to_be_bytes DESCRIPTOR_MANIFEST_VERSION @ u16_to_be_bytes caps
         @ u16_to_be_bytes (of_nat (length slots)) @ concat (map slot_image slots))"
  unfolding decode_manifest_body_def
  apply (rule gets_cong, (rule wire_gets wslot.get)+)
  subgoal for res bs
    apply (cases res)
    apply (simp only: prenex prod.case length_eq_unat not_less not_not)
    apply (simp add: control_limits del: ex_simps)
    apply (auto simp: unat_of_nat capabilities_from_bits_def split: if_splits)
    done
  done

section \<open>When decoding succeeds\<close>

lemma phase_iff:
  "phase_from_tag t = Ok p \<longleftrightarrow> t = phase_tag p"
  "phase_from_message_type mt = Ok p \<longleftrightarrow> mt = phase_message_type p"
  by (cases p; auto simp: phase_from_tag_def phase_from_message_type_def control_messages)+

lemma prefix_iff:
  "length bs \<ge> PREFIX_SIZE \<and> check_version bs = Ok () \<and> u64_from_be_bytes (slice bs 2 10) = i \<longleftrightarrow>
     (\<exists>rest. bs = u16_to_be_bytes CONTROL_PROTOCOL_VERSION @ u64_to_be_bytes i @ rest)"
proof
  assume l: "length bs \<ge> PREFIX_SIZE \<and> check_version bs = Ok () \<and> u64_from_be_bytes (slice bs 2 10) = i"
  then have len: "10 \<le> length bs" by (simp add: PREFIX_SIZE_def)
  have "bs = slice bs 0 2 @ slice bs 2 10 @ drop 10 bs"
    using slice_drop [of 0 2 bs] slice_drop [of 2 10 bs] by simp
  moreover have "slice bs 0 2 = u16_to_be_bytes CONTROL_PROTOCOL_VERSION"
    using l len be_iffs(1) [of "slice bs 0 2" CONTROL_PROTOCOL_VERSION]
    by (auto simp: check_version_def Let_def slice_def split: if_splits)
  moreover have "slice bs 2 10 = u64_to_be_bytes i"
    using l len be_iffs(3) [of "slice bs 2 10" i] by simp
  ultimately show "\<exists>rest. bs = u16_to_be_bytes CONTROL_PROTOCOL_VERSION @ u64_to_be_bytes i @ rest" by metis
next
  assume "\<exists>rest. bs = u16_to_be_bytes CONTROL_PROTOCOL_VERSION @ u64_to_be_bytes i @ rest"
  then show "length bs \<ge> PREFIX_SIZE \<and> check_version bs = Ok () \<and> u64_from_be_bytes (slice bs 2 10) = i"
    by (auto simp: PREFIX_SIZE_def check_version_def slice_def from_to_be)
qed

lemma supported_capabilities:
  "capabilities_from_bits caps = Some caps \<Longrightarrow> capabilities_contains SUPPORTED_DESCRIPTOR_CAPABILITIES caps"
  using bit_imp_le_length [of caps] unfolding capabilities_contains_iff SUPPORTED_DESCRIPTOR_CAPABILITIES_def
  by (simp add: capabilities_from_bits_def bit_eq_iff bit_and_iff bit_not_iff split: if_splits)

lemma encode_adopt_request_Ok:
  "encode_adopt_request limit i m = Ok bs \<longleftrightarrow>
     list_all slot_fits (manifest_slots m) \<and> length (manifest_slots m) < 2 ^ 16
     \<and> bs = u16_to_be_bytes CONTROL_PROTOCOL_VERSION @ u64_to_be_bytes i @ manifest_image m
     \<and> length bs \<le> min (PREFIX_SIZE + MAX_MANIFEST_BYTES) limit"
proof -
  let ?w = "writer_new control_wire limit (PREFIX_SIZE + MAX_MANIFEST_BYTES)"
  let ?bs = "u16_to_be_bytes CONTROL_PROTOCOL_VERSION @ u64_to_be_bytes i @ manifest_image m"
  let ?body = "write_all [writer_bytes (u16_to_be_bytes CONTROL_PROTOCOL_VERSION),
      writer_bytes (u64_to_be_bytes i), encode_manifest m]"
  have "puts ?body (length (manifest_slots m) < 2 ^ 16 \<and> list_all slot_fits (manifest_slots m)) ?bs"
    by (rule puts_cong, (rule wire_puts puts_manifest)+) auto
  moreover have "writer_ok ?w" by (simp add: writer_ok_def writer_new_def)
  ultimately have body: "?body ?w = (w, Ok ()) \<longleftrightarrow>
      (length (manifest_slots m) < 2 ^ 16 \<and> list_all slot_fits (manifest_slots m)) \<and> appends ?w ?bs w" for w
    unfolding puts_def by blast
  have fits: "appends ?w ?bs w \<longleftrightarrow> length ?bs \<le> min (PREFIX_SIZE + MAX_MANIFEST_BYTES) limit
      \<and> w = ?w\<lparr>ww_bytes := ?bs\<rparr>" for w
    by (auto simp: appends_def writer_new_def control_limits usize_max_def)
  have "encode_adopt_request limit i m = Ok bs \<longleftrightarrow> (\<exists>w. ?body ?w = (w, Ok ()) \<and> bs = writer_finish w)"
    unfolding encode_adopt_request_def by (auto split: prod.splits sum.splits simp del: write_all.simps)
  then show ?thesis
    unfolding body fits by (auto simp: writer_finish_def)
qed

lemma decode_manifest_Ok:
  "decode_manifest reserve bs = Ok m \<longleftrightarrow>
     length bs \<le> MAX_MANIFEST_BYTES \<and> manifest_new (manifest_slots m) = Ok m \<and> reserve (length (manifest_slots m))
     \<and> list_all slot_fits (manifest_slots m) \<and> list_all slot_typed (manifest_slots m) \<and> bs = manifest_image m"
proof -
  let ?r = "reader_new control_wire bs"
  have "reader_ok ?r" by (simp add: reader_ok_def reader_new_def)
  then have body: "decode_manifest_body reserve ?r = (r', Ok (caps, slots)) \<longleftrightarrow>
      (capabilities_from_bits caps = Some caps \<and> length slots \<le> MAX_DESCRIPTOR_COUNT \<and> reserve (length slots)
        \<and> list_all (\<lambda>slot. slot_fits slot \<and> slot_typed slot) slots)
      \<and> consumes ?r (u16_to_be_bytes DESCRIPTOR_MANIFEST_VERSION @ u16_to_be_bytes caps
         @ u16_to_be_bytes (of_nat (length slots)) @ concat (map slot_image slots)) r'" for r' caps slots
    using gets_manifest_body [of reserve] by (simp add: gets_def)
  have all: "length bs \<le> MAX_MANIFEST_BYTES \<Longrightarrow>
      (\<exists>r'. consumes ?r xs r' \<and> reader_finish r' = Ok ()) \<longleftrightarrow> bs = xs" for xs
    by (auto simp: consumes_def reader_new_def reader_finish_def control_limits usize_max_def)
  have "decode_manifest reserve bs = Ok m \<longleftrightarrow> length bs \<le> MAX_MANIFEST_BYTES
      \<and> (\<exists>r' caps slots. decode_manifest_body reserve ?r = (r', Ok (caps, slots)) \<and> reader_finish r' = Ok ()
          \<and> manifest_new slots = Ok m \<and> manifest_capabilities m = caps
          \<and> capabilities_contains SUPPORTED_DESCRIPTOR_CAPABILITIES caps)"
    by (cases "decode_manifest_body reserve ?r"; cases "snd (decode_manifest_body reserve ?r)")
      (auto simp: decode_manifest_def not_less split: prod.splits)
  also have "\<dots> \<longleftrightarrow> length bs \<le> MAX_MANIFEST_BYTES \<and> (\<exists>r'. manifest_new (manifest_slots m) = Ok m
      \<and> reserve (length (manifest_slots m)) \<and> list_all slot_fits (manifest_slots m)
      \<and> list_all slot_typed (manifest_slots m) \<and> consumes ?r (manifest_image m) r' \<and> reader_finish r' = Ok ())"
    unfolding body manifest_image_def
    using manifest_capabilities_bits [of m] supported_capabilities [of "manifest_capabilities m"]
    by (cases m) (auto simp: manifest_new_Ok list_all_conj)
  finally show ?thesis using all by blast
qed

lemma map_sum_Ok: "map_sum f g x = Ok b \<longleftrightarrow> (\<exists>a. x = Ok a \<and> b = g a)"
  by (cases x) auto

lemma decode_request_Ok:
  "decode_request ops reserve k f = (k', Ok req) \<longleftrightarrow>
     fh_message_type (af_header f) = phase_message_type (cr_phase req)
     \<and> (\<exists>rest. af_payload f = u16_to_be_bytes CONTROL_PROTOCOL_VERSION @ u64_to_be_bytes (cr_request_id req) @ rest
        \<and> (if cr_phase req = AdoptListeners
           then \<exists>m s. decode_manifest reserve rest = Ok m \<and> descriptor_set_new ops k m (af_descriptors f) = (k', Ok s)
             \<and> cr_listeners req = Some s
           else rest = [] \<and> af_descriptors f = [] \<and> cr_listeners req = None \<and> k' = k))"
proof -
  define listeners where "listeners phase =
     (if phase = AdoptListeners then decode_listeners ops reserve k (drop PREFIX_SIZE (af_payload f)) (af_descriptors f)
      else if length (af_payload f) \<noteq> PREFIX_SIZE then (k, Err InvalidPayload)
      else if af_descriptors f \<noteq> [] then (k, Err UnexpectedDescriptors)
      else (k, Ok None))" for phase
  have listeners_Ok: "listeners phase = (k', Ok ls) \<longleftrightarrow>
      (if phase = AdoptListeners
       then \<exists>m s. decode_manifest reserve (drop PREFIX_SIZE (af_payload f)) = Ok m
          \<and> descriptor_set_new ops k m (af_descriptors f) = (k', Ok s) \<and> ls = Some s
       else length (af_payload f) = PREFIX_SIZE \<and> af_descriptors f = [] \<and> ls = None \<and> k' = k)" for phase ls
    by (cases "decode_manifest reserve (drop PREFIX_SIZE (af_payload f))")
      (auto simp: listeners_def decode_listeners_def map_prod_def map_sum_Ok split: prod.splits sum.splits)
  have "decode_request ops reserve k f = (k', Ok req) \<longleftrightarrow>
      phase_from_message_type (fh_message_type (af_header f)) = Ok (cr_phase req)
      \<and> (length (af_payload f) \<ge> PREFIX_SIZE \<and> check_version (af_payload f) = Ok ()
         \<and> u64_from_be_bytes (slice (af_payload f) 2 10) = cr_request_id req)
      \<and> listeners (cr_phase req) = (k', Ok (cr_listeners req))"
    unfolding decode_request_def Let_def listeners_def
    by (cases req) (auto simp: seq_bind_Ok not_less split: if_splits)
  also have "\<dots> \<longleftrightarrow> fh_message_type (af_header f) = phase_message_type (cr_phase req)
      \<and> (\<exists>rest. af_payload f = u16_to_be_bytes CONTROL_PROTOCOL_VERSION @ u64_to_be_bytes (cr_request_id req) @ rest
         \<and> listeners (cr_phase req) = (k', Ok (cr_listeners req)))"
    unfolding phase_iff prefix_iff by blast
  finally show ?thesis
    unfolding listeners_Ok by (auto simp: PREFIX_SIZE_def)
qed

section \<open>Properties\<close>

text \<open>
  C34. A worker accepts exactly the requests a master encodes: decoding a frame yields a request if
  and only if the message type is that of its phase and either the payload is the encoding of its
  correlation identity with no descriptors attached, or, for adoption, the payload is the encoding
  of that identity with a valid manifest, and the listeners are the descriptor set built from that
  manifest and the attached descriptors.
\<close>

theorem control_request_exact:
  "decode_request ops reserve k f = (k', Ok req) \<longleftrightarrow>
     fh_message_type (af_header f) = phase_message_type (cr_phase req)
     \<and> (if cr_phase req = AdoptListeners
        then \<exists>m s. encode_adopt_request (PREFIX_SIZE + MAX_MANIFEST_BYTES) (cr_request_id req) m = Ok (af_payload f)
          \<and> manifest_new (manifest_slots m) = Ok m \<and> list_all slot_typed (manifest_slots m)
          \<and> reserve (length (manifest_slots m))
          \<and> descriptor_set_new ops k m (af_descriptors f) = (k', Ok s) \<and> cr_listeners req = Some s
        else af_payload f = encode_request (cr_request_id req) (cr_phase req) \<and> af_descriptors f = []
          \<and> cr_listeners req = None \<and> k' = k)"
proof -
  have manifest: "(\<exists>rest. af_payload f = u16_to_be_bytes CONTROL_PROTOCOL_VERSION @ u64_to_be_bytes i @ rest
      \<and> decode_manifest reserve rest = Ok m) \<longleftrightarrow>
      encode_adopt_request (PREFIX_SIZE + MAX_MANIFEST_BYTES) i m = Ok (af_payload f)
      \<and> manifest_new (manifest_slots m) = Ok m \<and> list_all slot_typed (manifest_slots m)
      \<and> reserve (length (manifest_slots m))" for i m
    unfolding decode_manifest_Ok encode_adopt_request_Ok
    by (auto simp: manifest_new_Ok control_limits)
  show ?thesis
    unfolding decode_request_Ok encode_request_def using manifest by (simp, blast)
qed

text \<open>
  C35. An acknowledgement is decoded exactly when the frame is an acknowledgement without
  descriptors whose payload a worker encodes for that request, phase and outcome; a rejection code
  of zero is never decoded.
\<close>

theorem control_ack_exact:
  "decode_ack f = Ok a \<longleftrightarrow> fh_message_type (af_header f) = ACK \<and> af_descriptors f = []
     \<and> af_payload f = encode_ack (ca_request_id a) (ca_phase a) (ca_outcome a) \<and> ca_outcome a \<noteq> Rejected 0"
proof -
  let ?p = "af_payload f"
  have shape: "length ?p = ACK_SIZE \<and> check_version ?p = Ok () \<and> u64_from_be_bytes (slice ?p 2 10) = i \<longleftrightarrow>
      (\<exists>x y. ?p = u16_to_be_bytes CONTROL_PROTOCOL_VERSION @ u64_to_be_bytes i @ [x, y])" (is "?l \<longleftrightarrow> ?r") for i
  proof
    assume ?l
    moreover then obtain rest where "?p = u16_to_be_bytes CONTROL_PROTOCOL_VERSION @ u64_to_be_bytes i @ rest"
      using prefix_iff [of ?p i] by (auto simp: control_limits)
    ultimately show ?r by (auto simp: ACK_SIZE_def length_Suc_conv numeral_2_eq_2)
  next
    assume ?r
    then obtain x y where p: "?p = u16_to_be_bytes CONTROL_PROTOCOL_VERSION @ u64_to_be_bytes i @ [x, y]" by blast
    then have "\<exists>rest. ?p = u16_to_be_bytes CONTROL_PROTOCOL_VERSION @ u64_to_be_bytes i @ rest" by blast
    with p show ?l using prefix_iff [of ?p i] by (simp add: ACK_SIZE_def)
  qed
  have nth: "(u16_to_be_bytes v @ u64_to_be_bytes i @ [x, y]) ! 10 = x"
    "(u16_to_be_bytes v @ u64_to_be_bytes i @ [x, y]) ! 11 = y" for v i x y
    by (simp_all add: nth_append)
  have "decode_ack f = Ok a \<longleftrightarrow> fh_message_type (af_header f) = ACK \<and> af_descriptors f = []
      \<and> (length ?p = ACK_SIZE \<and> check_version ?p = Ok () \<and> u64_from_be_bytes (slice ?p 2 10) = ca_request_id a)
      \<and> ?p ! 10 = phase_tag (ca_phase a) \<and> ca_outcome a = (if ?p ! 11 = 0 then Accepted else Rejected (?p ! 11))"
    by (cases a) (auto simp: decode_ack_def Let_def phase_iff [symmetric] split: if_splits)
  also have "\<dots> \<longleftrightarrow> fh_message_type (af_header f) = ACK \<and> af_descriptors f = []
      \<and> (\<exists>x y. ?p = u16_to_be_bytes CONTROL_PROTOCOL_VERSION @ u64_to_be_bytes (ca_request_id a) @ [x, y]
          \<and> x = phase_tag (ca_phase a) \<and> ca_outcome a = (if y = 0 then Accepted else Rejected y))"
    unfolding shape using nth by auto
  finally show ?thesis
    by (cases "ca_outcome a") (auto simp: encode_ack_def)
qed

end
