(* ===== verification/Process.thy ===== *)
theory Process
  imports Channel "HOL-Library.Multiset"
begin

text \<open>
  Worker processes on the master's side (\<open>crates/oxiroute-supervisor-process/src/lib.rs\<close>): the
  launcher that leads the worker's process group, its events and signals, termination, and the
  authenticated channel to a running worker. Theory \<open>Spawn\<close> starts workers and reaps what was given up.

  What the operating system answers during one call is an environment, a parameter of that call.
  What the code asks of it is a list of actions: signals, cgroup requests and hand-overs to the
  reaper. A \<open>Child\<close> handle and a cgroup lease are opaque values that the code moves; the drop of a
  lease is the action \<open>DropCgroup\<close>.
\<close>

type_synonym exit_status = int
type_synonym pid = int

datatype signal = SIGTERM | SIGKILL

datatype worker_event = ProcessGroupExited exit_status

text \<open>What is asked of the system; a clean-up is recorded with its answer, whether the cgroup is gone.\<close>

datatype ('c, 'g) os_action =
    KillGroup pid signal
  | KillCgroup 'g
  | CleanupCgroup 'g "(errno, bool) result"
  | DropCgroup 'g
  | SubmitCgroup 'g
  | SubmitChild 'c "'g option"

record ('c, 'g) os_env =
  os_try_wait :: "'c \<Rightarrow> (errno, exit_status option) result"
  os_wait :: "'c \<Rightarrow> (errno, exit_status) result"
  os_kill_group :: "pid \<Rightarrow> signal \<Rightarrow> (errno, unit) result"
  os_kill_cgroup :: "'g \<Rightarrow> (errno, unit) result"
  os_cleanup_cgroup :: "'g \<Rightarrow> (errno, bool) result"

definition ESRCH :: errno where "ESRCH = 3"
definition EINTR :: errno where "EINTR = 4"
definition ECONNRESET :: errno where "ECONNRESET = 104"

definition signal_group :: "('c, 'g) os_env \<Rightarrow> pid \<Rightarrow> signal \<Rightarrow> (errno, unit) result" where
  "signal_group env pgid sig =
     (case os_kill_group env pgid sig of
        Ok _ \<Rightarrow> Ok ()
      | Err e \<Rightarrow> if e = ESRCH then Ok () else Err e)"

section \<open>The process-group leader\<close>

record ('c, 'g) leader_state =
  ls_child :: "'c option"
  ls_pgid :: "pid option"
  ls_cgroup :: "'g option"
  ls_status :: "exit_status option"
  ls_event_reported :: bool

definition leader_new :: "'c \<Rightarrow> pid \<Rightarrow> 'g option \<Rightarrow> ('c, 'g) leader_state" where
  "leader_new child pgid cgroup =
     \<lparr>ls_child = Some child, ls_pgid = Some pgid, ls_cgroup = cgroup, ls_status = None, ls_event_reported = False\<rparr>"

definition release_cgroup ::
  "('c, 'g) os_env \<Rightarrow> ('c, 'g) leader_state \<Rightarrow> ('c, 'g) leader_state \<times> ('c, 'g) os_action list" where
  "release_cgroup env ls =
     (case ls_cgroup ls of
        None \<Rightarrow> (ls, [])
      | Some cgroup \<Rightarrow>
          (ls\<lparr>ls_cgroup := None\<rparr>,
           [KillCgroup cgroup, CleanupCgroup cgroup (os_cleanup_cgroup env cgroup)]
           @ (if os_cleanup_cgroup env cgroup = Ok True then [] else [SubmitCgroup cgroup])))"

definition leader_refresh ::
  "('c, 'g) os_env \<Rightarrow> ('c, 'g) leader_state
    \<Rightarrow> ('c, 'g) leader_state \<times> ('c, 'g) os_action list \<times> (errno, exit_status option) result" where
  "leader_refresh env ls =
     (case ls_status ls of
        Some status \<Rightarrow> (ls, [], Ok (Some status))
      | None \<Rightarrow>
          (case ls_child ls of
             None \<Rightarrow> (ls, [], Ok None)
           | Some child \<Rightarrow>
               (case os_try_wait env child of
                  Err e \<Rightarrow> (ls, [], Err e)
                | Ok None \<Rightarrow> (ls, [], Ok None)
                | Ok (Some status) \<Rightarrow>
                    let (ls', acts) = release_cgroup env (ls\<lparr>ls_status := Some status, ls_child := None, ls_pgid := None\<rparr>)
                    in (ls', acts, Ok (Some status)))))"

definition leader_poll_event ::
  "('c, 'g) os_env \<Rightarrow> ('c, 'g) leader_state
    \<Rightarrow> ('c, 'g) leader_state \<times> ('c, 'g) os_action list \<times> (errno, worker_event option) result" where
  "leader_poll_event env ls =
     (case leader_refresh env ls of
        (ls', acts, Err e) \<Rightarrow> (ls', acts, Err e)
      | (ls', acts, Ok None) \<Rightarrow> (ls', acts, Ok None)
      | (ls', acts, Ok (Some status)) \<Rightarrow>
          if ls_event_reported ls' then (ls', acts, Ok None)
          else (ls'\<lparr>ls_event_reported := True\<rparr>, acts, Ok (Some (ProcessGroupExited status))))"

definition leader_wait_event ::
  "('c, 'g) os_env \<Rightarrow> ('c, 'g) leader_state
    \<Rightarrow> ('c, 'g) leader_state \<times> ('c, 'g) os_action list \<times> (errno, worker_event option) result" where
  "leader_wait_event env ls =
     (case (ls_status ls, ls_child ls) of
        (None, Some child) \<Rightarrow>
          (case os_wait env child of
             Err e \<Rightarrow> (ls, [], Err e)
           | Ok status \<Rightarrow>
               let (ls1, acts1) = release_cgroup env (ls\<lparr>ls_status := Some status, ls_child := None, ls_pgid := None\<rparr>);
                   (ls2, acts2, res) = leader_poll_event env ls1
               in (ls2, acts1 @ acts2, res))
      | _ \<Rightarrow> leader_poll_event env ls)"

definition leader_has_exited :: "('c, 'g) leader_state \<Rightarrow> bool" where
  "leader_has_exited ls \<longleftrightarrow> ls_status ls \<noteq> None"

definition leader_signal_group ::
  "('c, 'g) os_env \<Rightarrow> ('c, 'g) leader_state \<Rightarrow> signal \<Rightarrow> ('c, 'g) os_action list \<times> (errno, unit) result" where
  "leader_signal_group env ls sig =
     (let (cgroup_acts, cgroup_result) =
            (if sig = SIGKILL
             then (case ls_cgroup ls of None \<Rightarrow> ([], Ok ()) | Some g \<Rightarrow> ([KillCgroup g], os_kill_cgroup env g))
             else ([], Ok ()));
          (group_acts, group_result) =
            (case (ls_child ls, ls_pgid ls) of
               (Some _, Some pgid) \<Rightarrow> ([KillGroup pgid sig], signal_group env pgid sig)
             | _ \<Rightarrow> ([], Ok ()))
      in (cgroup_acts @ group_acts, try_bind cgroup_result (\<lambda>_. group_result)))"

definition take_child_and_invalidate_group ::
  "('c, 'g) leader_state \<Rightarrow> ('c, 'g) leader_state \<times> ('c \<times> 'g option) option" where
  "take_child_and_invalidate_group ls =
     (case ls_child ls of
        None \<Rightarrow> (ls\<lparr>ls_pgid := None\<rparr>, None)
      | Some child \<Rightarrow>
          (ls\<lparr>ls_pgid := None, ls_child := None, ls_cgroup := None\<rparr>, Some (child, ls_cgroup ls)))"

section \<open>The worker process\<close>

record ('c, 'g, 'fd) worker_process =
  wp_worker_pid :: u32
  wp_expected_worker_pid :: pid
  wp_leader :: "('c, 'g) leader_state"
  wp_endpoint :: "'fd seqpacket_endpoint option"
  wp_identity :: worker_identity
  wp_nonce :: handshake_nonce

type_synonym ('c, 'g, 'fd, 'e, 'a) process_result =
  "('c, 'g, 'fd) worker_process \<times> ('c, 'g) os_action list \<times> ('e, 'a) result"

definition process_group_id :: "('c, 'g, 'fd) worker_process \<Rightarrow> u32 option" where
  "process_group_id wp =
     (case ls_pgid (wp_leader wp) of
        Some pgid \<Rightarrow> if 0 \<le> pgid \<and> pgid < 2 ^ 32 then Some (of_int pgid) else None
      | None \<Rightarrow> None)"

definition process_poll_event ::
  "('c, 'g) os_env \<Rightarrow> ('c, 'g, 'fd) worker_process \<Rightarrow> ('c, 'g, 'fd, errno, worker_event option) process_result" where
  "process_poll_event env wp =
     (case leader_poll_event env (wp_leader wp) of
        (ls, acts, Err e) \<Rightarrow> (wp\<lparr>wp_leader := ls\<rparr>, acts, Err e)
      | (ls, acts, Ok event) \<Rightarrow>
          (wp\<lparr>wp_leader := ls, wp_endpoint := (if leader_has_exited ls then None else wp_endpoint wp)\<rparr>, acts, Ok event))"

definition process_wait_event ::
  "('c, 'g) os_env \<Rightarrow> ('c, 'g, 'fd) worker_process \<Rightarrow> ('c, 'g, 'fd, errno, worker_event option) process_result" where
  "process_wait_event env wp =
     (case leader_wait_event env (wp_leader wp) of
        (ls, acts, Err e) \<Rightarrow> (wp\<lparr>wp_leader := ls\<rparr>, acts, Err e)
      | (ls, acts, Ok event) \<Rightarrow> (wp\<lparr>wp_leader := ls, wp_endpoint := None\<rparr>, acts, Ok event))"

definition request_terminate ::
  "('c, 'g) os_env \<Rightarrow> ('c, 'g, 'fd) worker_process \<Rightarrow> ('c, 'g, 'fd, errno, unit) process_result" where
  "request_terminate env wp = (wp, leader_signal_group env (wp_leader wp) SIGTERM)"

definition request_kill ::
  "('c, 'g) os_env \<Rightarrow> ('c, 'g, 'fd) worker_process \<Rightarrow> ('c, 'g, 'fd, errno, unit) process_result" where
  "request_kill env wp = (wp, leader_signal_group env (wp_leader wp) SIGKILL)"

definition process_kill ::
  "('c, 'g) os_env \<Rightarrow> ('c, 'g, 'fd) worker_process \<Rightarrow> ('c, 'g, 'fd, errno, worker_event option) process_result" where
  "process_kill env wp =
     (case leader_signal_group env (wp_leader wp) SIGKILL of
        (acts, Err e) \<Rightarrow> (wp, acts, Err e)
      | (acts, Ok _) \<Rightarrow> let (wp', acts', res) = process_wait_event env wp in (wp', acts @ acts', res))"

definition process_terminate ::
  "('c, 'g) os_env \<Rightarrow> ('c, 'g, 'fd) worker_process \<Rightarrow> ('c, 'g, 'fd, errno, worker_event option) process_result" where
  "process_terminate env wp =
     (case leader_signal_group env (wp_leader wp) SIGTERM of
        (acts, Err e) \<Rightarrow> (wp, acts, Err e)
      | (acts, Ok _) \<Rightarrow> let (wp', acts', res) = process_kill env wp in (wp', acts @ acts', res))"

definition process_drop ::
  "('c, 'g) os_env \<Rightarrow> ('c, 'g, 'fd) worker_process \<Rightarrow> ('c, 'g, 'fd) worker_process \<times> ('c, 'g) os_action list" where
  "process_drop env wp =
     (let acts = fst (leader_signal_group env (wp_leader wp) SIGKILL);
          (ls, taken) = take_child_and_invalidate_group (wp_leader wp)
      in (wp\<lparr>wp_leader := ls\<rparr>,
          acts @ (case taken of None \<Rightarrow> [] | Some (child, cgroup) \<Rightarrow> [SubmitChild child cgroup])))"

section \<open>The authenticated channel\<close>

definition ensure_child_alive ::
  "('c, 'g) os_env \<Rightarrow> ('c, 'g, 'fd) worker_process \<Rightarrow> ('c, 'g, 'fd, channel_error, unit) process_result" where
  "ensure_child_alive env wp =
     (case leader_refresh env (wp_leader wp) of
        (ls, acts, Err e) \<Rightarrow> (wp\<lparr>wp_leader := ls\<rparr>, acts, Err (ChannelIo e))
      | (ls, acts, Ok (Some status)) \<Rightarrow>
          (wp\<lparr>wp_leader := ls, wp_endpoint := None\<rparr>, acts, Err (WorkerGroupExited status))
      | (ls, acts, Ok None) \<Rightarrow>
          (wp\<lparr>wp_leader := ls\<rparr>, acts, if wp_endpoint wp = None then Err ChannelClosed else Ok ()))"

definition channel_send ::
  "('c, 'g) os_env \<Rightarrow> 'fd send_env \<Rightarrow> ('c, 'g, 'fd) worker_process \<Rightarrow> message_type \<Rightarrow> frame_flags \<Rightarrow> bytes \<Rightarrow> 'fd list
    \<Rightarrow> ('c, 'g, 'fd, channel_error, sequence) process_result" where
  "channel_send env senv wp mt flags payload fds =
     (case ensure_child_alive env wp of
        (wp', acts, Err e) \<Rightarrow> (wp', acts, Err e)
      | (wp', acts, Ok _) \<Rightarrow>
          (case wp_endpoint wp' of
             None \<Rightarrow> (wp', acts, Err ChannelClosed)
           | Some ep \<Rightarrow>
               let (ep', sent) = endpoint_send senv ep mt flags (wi_instance (wp_identity wp'))
                     (wi_generation (wp_identity wp'))
                     (authenticated_payload (wi_protocol (wp_identity wp')) (wp_nonce wp') payload) fds
               in (wp'\<lparr>wp_endpoint := Some ep'\<rparr>, acts, map_err ChannelTransport sent)))"

text \<open>One round of receiving: the answers to the status check, the poll and the receive, and to the
  status checks after a transport error.\<close>

record ('c, 'g, 'fd) receive_round =
  rr_alive :: "('c, 'g) os_env"
  rr_poll :: "(errno, nat) result"
  rr_recvmsg :: "(errno, 'fd received) result"
  rr_after :: "('c, 'g) os_env"
  rr_grace :: "('c, 'g) os_env list"

definition authenticate_received ::
  "('c, 'g, 'fd) worker_process \<Rightarrow> 'fd frame \<Rightarrow> (channel_error, 'fd authenticated_frame) result" where
  "authenticate_received wp frame = authenticate_frame frame (wp_expected_worker_pid wp) (wp_identity wp) (wp_nonce wp)"

definition channel_try_receive ::
  "'fd fd_env \<Rightarrow> ('c, 'g, 'fd) receive_round \<Rightarrow> ('c, 'g, 'fd) worker_process
    \<Rightarrow> ('c, 'g, 'fd, channel_error, 'fd authenticated_frame option) process_result" where
  "channel_try_receive fenv rr wp =
     (case ensure_child_alive (rr_alive rr) wp of
        (wp1, acts, Err e) \<Rightarrow> (wp1, acts, Err e)
      | (wp1, acts, Ok _) \<Rightarrow>
          (case wp_endpoint wp1 of
             None \<Rightarrow> (wp1, acts, Err ChannelClosed)
           | Some ep \<Rightarrow>
               (case rr_poll rr of
                  Err e \<Rightarrow> (wp1, acts, Err (ChannelIo e))
                | Ok ready \<Rightarrow>
                    if ready = 0 then (wp1, acts, Ok None)
                    else
                      (case endpoint_receive fenv ep (rr_recvmsg rr) of
                         (ep', Ok frame) \<Rightarrow>
                           (wp1\<lparr>wp_endpoint := Some ep'\<rparr>, acts, map_sum id Some (authenticate_received wp1 frame))
                       | (ep', Err error) \<Rightarrow>
                           (case leader_refresh (rr_after rr) (wp_leader wp1) of
                              (ls, acts', Err e) \<Rightarrow>
                                (wp1\<lparr>wp_endpoint := None, wp_leader := ls\<rparr>, acts @ acts', Err (ChannelIo e))
                            | (ls, acts', Ok (Some status)) \<Rightarrow>
                                (wp1\<lparr>wp_endpoint := None, wp_leader := ls\<rparr>, acts @ acts', Err (WorkerGroupExited status))
                            | (ls, acts', Ok None) \<Rightarrow>
                                (wp1\<lparr>wp_endpoint := None, wp_leader := ls\<rparr>, acts @ acts', Err (ChannelTransport error)))))))"

text \<open>The grace loop after the peer closed the channel: one status check for each environment.\<close>

fun grace_refresh ::
  "('c, 'g) os_env list \<Rightarrow> ('c, 'g) leader_state
    \<Rightarrow> ('c, 'g) leader_state \<times> ('c, 'g) os_action list \<times> (errno, exit_status option) result" where
  "grace_refresh [] ls = (ls, [], Ok None)"
| "grace_refresh (env # envs) ls =
     (case leader_refresh env ls of
        (ls', acts, Ok None) \<Rightarrow> let (ls'', acts', res) = grace_refresh envs ls' in (ls'', acts @ acts', res)
      | (ls', acts, res) \<Rightarrow> (ls', acts, res))"

text \<open>\<open>receive\<close> loops over rounds; with the list used up it is still waiting, the result \<open>None\<close>.\<close>

fun channel_receive ::
  "'fd fd_env \<Rightarrow> ('c, 'g, 'fd) receive_round list \<Rightarrow> ('c, 'g, 'fd) worker_process
    \<Rightarrow> ('c, 'g, 'fd) worker_process \<times> ('c, 'g) os_action list \<times> (channel_error, 'fd authenticated_frame) result option" where
  "channel_receive fenv [] wp = (wp, [], None)"
| "channel_receive fenv (rr # rrs) wp =
     (case ensure_child_alive (rr_alive rr) wp of
        (wp1, acts, Err e) \<Rightarrow> (wp1, acts, Some (Err e))
      | (wp1, acts, Ok _) \<Rightarrow>
          (case wp_endpoint wp1 of
             None \<Rightarrow> (wp1, acts, Some (Err ChannelClosed))
           | Some ep \<Rightarrow>
               (case rr_poll rr of
                  Err e \<Rightarrow> (wp1, acts, Some (Err (ChannelIo e)))
                | Ok ready \<Rightarrow>
                    if ready = 0 then let (wp2, acts', res) = channel_receive fenv rrs wp1 in (wp2, acts @ acts', res)
                    else
                      (case endpoint_receive fenv ep (rr_recvmsg rr) of
                         (ep', Ok frame) \<Rightarrow>
                           (wp1\<lparr>wp_endpoint := Some ep'\<rparr>, acts, Some (authenticate_received wp1 frame))
                       | (ep', Err error) \<Rightarrow>
                           (case grace_refresh
                               (rr_after rr # (if error = TransportClosed \<or> error = TransportIo ECONNRESET then rr_grace rr else []))
                               (wp_leader wp1) of
                              (ls, acts', Err e) \<Rightarrow>
                                (wp1\<lparr>wp_endpoint := None, wp_leader := ls\<rparr>, acts @ acts', Some (Err (ChannelIo e)))
                            | (ls, acts', Ok (Some status)) \<Rightarrow>
                                (wp1\<lparr>wp_endpoint := None, wp_leader := ls\<rparr>, acts @ acts', Some (Err (WorkerGroupExited status)))
                            | (ls, acts', Ok None) \<Rightarrow>
                                (wp1\<lparr>wp_endpoint := None, wp_leader := ls\<rparr>, acts @ acts', Some (Err (ChannelTransport error))))))))"

section \<open>Operations as a machine\<close>

datatype ('c, 'g, 'fd) process_op =
    PollEvent "('c, 'g) os_env"
  | WaitEvent "('c, 'g) os_env"
  | RequestTerminate "('c, 'g) os_env"
  | RequestKill "('c, 'g) os_env"
  | Terminate "('c, 'g) os_env"
  | Kill "('c, 'g) os_env"
  | DropProcess "('c, 'g) os_env"
  | Send "('c, 'g) os_env" "'fd send_env" message_type frame_flags bytes "'fd list"
  | TryReceive "'fd fd_env" "('c, 'g, 'fd) receive_round"
  | Receive "'fd fd_env" "('c, 'g, 'fd) receive_round list"

datatype 'fd process_out =
    OutEvent "(errno, worker_event option) result"
  | OutSignal "(errno, unit) result"
  | OutSent "(channel_error, sequence) result"
  | OutReceived "(channel_error, 'fd authenticated_frame option) result"
  | OutWaiting
  | OutDropped

fun process_step ::
  "('c, 'g, 'fd) worker_process \<Rightarrow> ('c, 'g, 'fd) process_op
    \<Rightarrow> ('c, 'g, 'fd) worker_process \<times> ('c, 'g) os_action list \<times> 'fd process_out" where
  "process_step wp (PollEvent env) = map_prod id (map_prod id OutEvent) (process_poll_event env wp)"
| "process_step wp (WaitEvent env) = map_prod id (map_prod id OutEvent) (process_wait_event env wp)"
| "process_step wp (RequestTerminate env) = map_prod id (map_prod id OutSignal) (request_terminate env wp)"
| "process_step wp (RequestKill env) = map_prod id (map_prod id OutSignal) (request_kill env wp)"
| "process_step wp (Terminate env) = map_prod id (map_prod id OutEvent) (process_terminate env wp)"
| "process_step wp (Kill env) = map_prod id (map_prod id OutEvent) (process_kill env wp)"
| "process_step wp (DropProcess env) = map_prod id (\<lambda>acts. (acts, OutDropped)) (process_drop env wp)"
| "process_step wp (Send env senv mt flags payload fds) =
     map_prod id (map_prod id OutSent) (channel_send env senv wp mt flags payload fds)"
| "process_step wp (TryReceive fenv rr) = map_prod id (map_prod id OutReceived) (channel_try_receive fenv rr wp)"
| "process_step wp (Receive fenv rrs) =
     map_prod id (map_prod id (\<lambda>res. case res of None \<Rightarrow> OutWaiting | Some r \<Rightarrow> OutReceived (map_sum id Some r)))
       (channel_receive fenv rrs wp)"

fun out_events :: "'fd process_out \<Rightarrow> worker_event list" where
  "out_events (OutEvent (Ok (Some event))) = [event]"
| "out_events _ = []"

section \<open>Specification of the leader\<close>

text \<open>
  What may happen to the leader, with the actions asked of the operating system and the events
  reported. The worker exits once; only an unreaped leader is signalled.
\<close>

definition release_actions :: "(errno, bool) result \<Rightarrow> ('c, 'g) leader_state \<Rightarrow> ('c, 'g) os_action list" where
  "release_actions answer ls =
     (case ls_cgroup ls of
        None \<Rightarrow> []
      | Some g \<Rightarrow> [KillCgroup g, CleanupCgroup g answer] @ (if answer = Ok True then [] else [SubmitCgroup g]))"

inductive leader_moves ::
  "('c, 'g) leader_state \<Rightarrow> ('c, 'g) os_action list \<Rightarrow> worker_event list \<Rightarrow> ('c, 'g) leader_state \<Rightarrow> bool" where
  stay: "leader_moves ls [] [] ls"
| reap: "ls_status ls = None \<Longrightarrow> ls_child ls = Some c \<Longrightarrow>
     leader_moves ls (release_actions answer ls) []
       (ls\<lparr>ls_status := Some st, ls_child := None, ls_pgid := None, ls_cgroup := None\<rparr>)"
| report: "ls_status ls = Some st \<Longrightarrow> \<not> ls_event_reported ls \<Longrightarrow>
     leader_moves ls [] [ProcessGroupExited st] (ls\<lparr>ls_event_reported := True\<rparr>)"
| signal: "ls_child ls = Some c \<Longrightarrow> ls_pgid ls = Some pgid \<Longrightarrow> leader_moves ls [KillGroup pgid sig] [] ls"
| kill_cgroup: "ls_cgroup ls = Some g \<Longrightarrow> leader_moves ls [KillCgroup g] [] ls"
| give_up: "ls_child ls = Some c \<Longrightarrow>
     leader_moves ls [SubmitChild c (ls_cgroup ls)] [] (ls\<lparr>ls_pgid := None, ls_child := None, ls_cgroup := None\<rparr>)"
| forget_group: "ls_child ls = None \<Longrightarrow> leader_moves ls [] [] (ls\<lparr>ls_pgid := None\<rparr>)"
| compose: "leader_moves ls a e ls1 \<Longrightarrow> leader_moves ls1 b f ls2 \<Longrightarrow> leader_moves ls (a @ b) (e @ f) ls2"

lemmas leader_moves_intros = leader_moves.intros(1-7)

lemma moves_compose:
  "leader_moves ls a e ls1 \<Longrightarrow> leader_moves ls1 b f ls2 \<Longrightarrow> c = a @ b \<Longrightarrow> g = e @ f \<Longrightarrow> leader_moves ls c g ls2"
  by (simp add: leader_moves.compose)

section \<open>The operations implement the specification\<close>

lemma release_cgroup_eq:
  "release_cgroup env (ls\<lparr>ls_status := st, ls_child := c, ls_pgid := p\<rparr>) =
     (ls\<lparr>ls_status := st, ls_child := c, ls_pgid := p, ls_cgroup := None\<rparr>,
      case ls_cgroup ls of
        None \<Rightarrow> []
      | Some g \<Rightarrow> release_actions (os_cleanup_cgroup env g) ls)"
  by (cases ls) (auto simp: release_cgroup_def release_actions_def split: option.split)

lemma reap_moves:
  assumes "ls_status ls = None" and "ls_child ls = Some c"
    and "release_cgroup env (ls\<lparr>ls_status := Some st, ls_child := None, ls_pgid := None\<rparr>) = (ls', acts)"
  shows "leader_moves ls acts [] ls'" and "ls_status ls' = Some st" and "ls_event_reported ls' = ls_event_reported ls"
proof -
  have eq: "ls' = ls\<lparr>ls_status := Some st, ls_child := None, ls_pgid := None, ls_cgroup := None\<rparr>"
    "acts = (case ls_cgroup ls of None \<Rightarrow> [] | Some g \<Rightarrow> release_actions (os_cleanup_cgroup env g) ls)"
    using assms(3) by (simp_all add: release_cgroup_eq)
  then have "\<exists>answer. acts = release_actions answer ls"
    by (auto simp: release_actions_def split: option.split)
  with eq(1) show "leader_moves ls acts [] ls'" using leader_moves.reap [OF assms(1,2)] by auto
  show "ls_status ls' = Some st" "ls_event_reported ls' = ls_event_reported ls" by (simp_all add: eq(1))
qed

lemma leader_refresh_moves:
  assumes "leader_refresh env ls = (ls', acts, res)"
  shows "leader_moves ls acts [] ls'" and "\<And>r. res = Ok r \<Longrightarrow> r = ls_status ls'"
    and "is_err res \<Longrightarrow> ls' = ls" and "ls_event_reported ls' = ls_event_reported ls"
    and "ls_status ls' = None \<Longrightarrow> ls' = ls \<and> acts = []"
proof -
  have "leader_moves ls acts [] ls' \<and> (\<forall>r. res = Ok r \<longrightarrow> r = ls_status ls') \<and> (is_err res \<longrightarrow> ls' = ls)
    \<and> ls_event_reported ls' = ls_event_reported ls \<and> (ls_status ls' = None \<longrightarrow> ls' = ls \<and> acts = [])"
  proof (cases "\<exists>c st. ls_status ls = None \<and> ls_child ls = Some c \<and> os_try_wait env c = Ok (Some st)")
    case True
    then obtain c st where c: "ls_status ls = None" "ls_child ls = Some c" "os_try_wait env c = Ok (Some st)" by blast
    obtain ls1 acts1 where rel: "release_cgroup env (ls\<lparr>ls_status := Some st, ls_child := None, ls_pgid := None\<rparr>) = (ls1, acts1)"
      by fastforce
    with assms c have "ls' = ls1" "acts = acts1" "res = Ok (Some st)" by (simp_all add: leader_refresh_def)
    with reap_moves [OF c(1,2) rel] show ?thesis by simp
  next
    case False
    with assms have "ls' = ls" "acts = []" "\<forall>r. res = Ok r \<longrightarrow> r = ls_status ls"
      by (auto simp: leader_refresh_def split: option.splits sum.splits)
    then show ?thesis by (auto intro: leader_moves.stay)
  qed
  then show "leader_moves ls acts [] ls'" and "\<And>r. res = Ok r \<Longrightarrow> r = ls_status ls'"
    and "is_err res \<Longrightarrow> ls' = ls" and "ls_event_reported ls' = ls_event_reported ls"
    and "ls_status ls' = None \<Longrightarrow> ls' = ls \<and> acts = []"
    by blast+
qed

fun events_of :: "(errno, worker_event option) result \<Rightarrow> worker_event list" where
  "events_of (Ok (Some event)) = [event]"
| "events_of _ = []"

lemma leader_poll_event_moves:
  assumes "leader_poll_event env ls = (ls', acts, res)"
  shows "leader_moves ls acts (events_of res) ls'" and "is_err res \<Longrightarrow> ls' = ls"
proof -
  obtain ls1 acts1 res1 where r: "leader_refresh env ls = (ls1, acts1, res1)" by (cases "leader_refresh env ls")
  note m = leader_refresh_moves [OF r]
  have "leader_moves ls acts (events_of res) ls' \<and> (is_err res \<longrightarrow> ls' = ls)"
  proof (cases "\<exists>st. res1 = Ok (Some st) \<and> \<not> ls_event_reported ls1")
    case True
    then obtain st where st: "res1 = Ok (Some st)" "\<not> ls_event_reported ls1" by blast
    then have eq: "ls' = ls1\<lparr>ls_event_reported := True\<rparr>" "acts = acts1" "res = Ok (Some (ProcessGroupExited st))"
      using assms by (auto simp: leader_poll_event_def r)
    have "ls_status ls1 = Some st" using m(2) [OF st(1)] by simp
    from moves_compose [OF m(1) leader_moves.report [OF this st(2)]] show ?thesis by (simp add: eq)
  next
    case False
    then have "ls' = ls1 \<and> acts = acts1 \<and> events_of res = [] \<and> (is_err res \<longrightarrow> is_err res1)"
      using assms by (cases res1) (auto simp: leader_poll_event_def r split: option.splits if_splits)
    with m(1,3) show ?thesis by simp
  qed
  then show "leader_moves ls acts (events_of res) ls'" and "is_err res \<Longrightarrow> ls' = ls" by blast+
qed

lemma leader_wait_event_moves:
  assumes "leader_wait_event env ls = (ls', acts, res)"
  shows "leader_moves ls acts (events_of res) ls'" and "is_err res \<Longrightarrow> ls_status ls = None \<Longrightarrow> ls' = ls"
proof -
  have "leader_moves ls acts (events_of res) ls' \<and> (is_err res \<longrightarrow> ls_status ls = None \<longrightarrow> ls' = ls)"
  proof (cases "\<exists>c st. ls_status ls = None \<and> ls_child ls = Some c \<and> os_wait env c = Ok st")
    case True
    then obtain c st where c: "ls_status ls = None" "ls_child ls = Some c" "os_wait env c = Ok st" by blast
    obtain ls1 acts1 where rel: "release_cgroup env (ls\<lparr>ls_status := Some st, ls_child := None, ls_pgid := None\<rparr>) = (ls1, acts1)"
      by fastforce
    obtain ls2 acts2 res2 where poll: "leader_poll_event env ls1 = (ls2, acts2, res2)" by (cases "leader_poll_event env ls1")
    have eq: "ls' = ls2" "acts = acts1 @ acts2" "res = res2"
      using assms c by (simp_all add: leader_wait_event_def rel poll)
    have "leader_refresh env ls1 = (ls1, [], Ok (Some st))"
      using reap_moves(2) [OF c(1,2) rel] by (simp add: leader_refresh_def)
    then have "\<not> is_err res2" using poll by (auto simp: leader_poll_event_def split: if_splits)
    moreover have "leader_moves ls acts (events_of res) ls'"
      using leader_moves.compose [OF reap_moves(1) [OF c(1,2) rel] leader_poll_event_moves(1) [OF poll]] by (simp add: eq)
    ultimately show ?thesis by (simp add: eq)
  next
    case False
    then consider "ls' = ls" "acts = []" "\<exists>e. res = Err e" | "leader_poll_event env ls = (ls', acts, res)"
      using assms by (auto simp: leader_wait_event_def split: option.splits sum.splits)
    then show ?thesis
      by cases (auto intro: leader_moves.stay dest: leader_poll_event_moves)
  qed
  then show "leader_moves ls acts (events_of res) ls'" and "is_err res \<Longrightarrow> ls_status ls = None \<Longrightarrow> ls' = ls" by blast+
qed

lemma leader_signal_group_moves:
  "leader_moves ls (fst (leader_signal_group env ls sig)) [] ls"
proof -
  have group: "leader_moves ls (case (ls_child ls, ls_pgid ls) of (Some _, Some pgid) \<Rightarrow> [KillGroup pgid sig] | _ \<Rightarrow> []) [] ls"
    by (auto intro: leader_moves_intros split: option.splits)
  have cgroup: "leader_moves ls (if sig = SIGKILL then case ls_cgroup ls of None \<Rightarrow> [] | Some g \<Rightarrow> [KillCgroup g] else []) [] ls"
    by (auto intro: leader_moves_intros split: option.splits)
  show ?thesis
    by (rule moves_compose [OF cgroup group])
      (auto simp: leader_signal_group_def split: option.splits)
qed

text \<open>A process whose exit was observed has no endpoint.\<close>

definition closed_on_exit :: "('c, 'g, 'fd) worker_process \<Rightarrow> bool" where
  "closed_on_exit wp \<longleftrightarrow> (leader_has_exited (wp_leader wp) \<longrightarrow> wp_endpoint wp = None)"

definition process_moves ::
  "('c, 'g, 'fd) worker_process \<Rightarrow> ('c, 'g) os_action list \<Rightarrow> worker_event list \<Rightarrow> ('c, 'g, 'fd) worker_process \<Rightarrow> bool" where
  "process_moves wp acts events wp' \<longleftrightarrow>
     leader_moves (wp_leader wp) acts events (wp_leader wp') \<and> (closed_on_exit wp \<longrightarrow> closed_on_exit wp')"

lemma process_moves_compose:
  "process_moves wp a e wp1 \<Longrightarrow> process_moves wp1 b f wp2 \<Longrightarrow> process_moves wp (a @ b) (e @ f) wp2"
  by (auto simp: process_moves_def intro: leader_moves.compose)

lemma process_poll_event_moves:
  assumes "process_poll_event env wp = (wp', acts, res)"
  shows "process_moves wp acts (events_of res) wp'"
proof -
  obtain ls a r where p: "leader_poll_event env (wp_leader wp) = (ls, a, r)" by (cases "leader_poll_event env (wp_leader wp)")
  from leader_poll_event_moves [OF p] assms show ?thesis
    by (cases r) (auto simp: process_poll_event_def p process_moves_def closed_on_exit_def)
qed

lemma process_wait_event_moves:
  assumes "process_wait_event env wp = (wp', acts, res)"
  shows "process_moves wp acts (events_of res) wp'"
proof -
  obtain ls a r where p: "leader_wait_event env (wp_leader wp) = (ls, a, r)" by (cases "leader_wait_event env (wp_leader wp)")
  from leader_wait_event_moves [OF p] assms show ?thesis
    by (cases r) (auto simp: process_wait_event_def p process_moves_def closed_on_exit_def leader_has_exited_def)
qed

lemma process_signal_moves: "process_moves wp (fst (leader_signal_group env (wp_leader wp) sig)) [] wp"
  by (simp add: process_moves_def leader_signal_group_moves)

lemma process_kill_moves:
  assumes "process_kill env wp = (wp', acts, res)"
  shows "process_moves wp acts (events_of res) wp'"
proof -
  obtain a r where s: "leader_signal_group env (wp_leader wp) SIGKILL = (a, r)" by fastforce
  then have m: "process_moves wp a [] wp" using process_signal_moves [of wp env SIGKILL] by simp
  show ?thesis
  proof (cases r)
    case (Inl e)
    with assms s m show ?thesis by (auto simp: process_kill_def)
  next
    case (Inr u)
    obtain wp1 b res1 where w: "process_wait_event env wp = (wp1, b, res1)" by (cases "process_wait_event env wp")
    from process_moves_compose [OF m process_wait_event_moves [OF w]] assms s Inr w show ?thesis
      by (simp add: process_kill_def)
  qed
qed

lemma process_terminate_moves:
  assumes "process_terminate env wp = (wp', acts, res)"
  shows "process_moves wp acts (events_of res) wp'"
proof -
  obtain a r where s: "leader_signal_group env (wp_leader wp) SIGTERM = (a, r)" by fastforce
  then have m: "process_moves wp a [] wp" using process_signal_moves [of wp env SIGTERM] by simp
  show ?thesis
  proof (cases r)
    case (Inl e)
    with assms s m show ?thesis by (auto simp: process_terminate_def)
  next
    case (Inr u)
    obtain wp1 b res1 where w: "process_kill env wp = (wp1, b, res1)" by (cases "process_kill env wp")
    from process_moves_compose [OF m process_kill_moves [OF w]] assms s Inr w show ?thesis
      by (simp add: process_terminate_def)
  qed
qed

lemma process_drop_moves: "process_moves wp (snd (process_drop env wp)) [] (fst (process_drop env wp))"
proof -
  let ?ls = "wp_leader wp"
  have taken: "leader_moves ?ls
      (case snd (take_child_and_invalidate_group ?ls) of None \<Rightarrow> [] | Some (child, cgroup) \<Rightarrow> [SubmitChild child cgroup]) []
      (fst (take_child_and_invalidate_group ?ls))"
    by (cases "ls_child ?ls") (simp_all add: take_child_and_invalidate_group_def leader_moves_intros)
  have "ls_status (fst (take_child_and_invalidate_group ?ls)) = ls_status ?ls"
    by (simp add: take_child_and_invalidate_group_def split: option.split)
  with leader_moves.compose [OF leader_signal_group_moves [of ?ls env SIGKILL] taken] show ?thesis
    by (cases "take_child_and_invalidate_group ?ls")
      (auto simp: process_moves_def process_drop_def closed_on_exit_def leader_has_exited_def Let_def)
qed

lemma ensure_child_alive_moves:
  assumes "ensure_child_alive env wp = (wp', acts, res)"
  shows "process_moves wp acts [] wp'"
    and "is_ok res \<Longrightarrow> ls_status (wp_leader wp') = None \<and> wp_endpoint wp' \<noteq> None"
proof -
  obtain ls a r where p: "leader_refresh env (wp_leader wp) = (ls, a, r)" by (cases "leader_refresh env (wp_leader wp)")
  from leader_refresh_moves [OF p] assms show "process_moves wp acts [] wp'"
    and "is_ok res \<Longrightarrow> ls_status (wp_leader wp') = None \<and> wp_endpoint wp' \<noteq> None"
    by (auto simp: ensure_child_alive_def p process_moves_def closed_on_exit_def leader_has_exited_def
        split: sum.splits option.splits if_splits)
qed

lemma channel_send_moves:
  assumes "channel_send env senv wp mt flags payload fds = (wp', acts, res)"
  shows "process_moves wp acts [] wp'"
proof -
  obtain wp1 a r where p: "ensure_child_alive env wp = (wp1, a, r)" by (cases "ensure_child_alive env wp")
  from ensure_child_alive_moves [OF p] assms show ?thesis
    by (cases r) (auto simp: channel_send_def p process_moves_def closed_on_exit_def leader_has_exited_def Let_def
        split: option.splits prod.splits)
qed

lemma channel_try_receive_moves:
  assumes "channel_try_receive fenv rr wp = (wp', acts, res)"
  shows "process_moves wp acts [] wp'"
proof -
  obtain wp1 a r where p: "ensure_child_alive (rr_alive rr) wp = (wp1, a, r)" by (cases "ensure_child_alive (rr_alive rr) wp")
  note alive = ensure_child_alive_moves [OF p]
  obtain ls b r2 where q: "leader_refresh (rr_after rr) (wp_leader wp1) = (ls, b, r2)"
    by (cases "leader_refresh (rr_after rr) (wp_leader wp1)")
  have m: "leader_moves (wp_leader wp) (a @ b) [] ls"
    using leader_moves.compose [of "wp_leader wp" a "[]" "wp_leader wp1" b "[]" ls] alive(1)
      leader_refresh_moves(1) [OF q] by (simp add: process_moves_def)
  from alive m assms show ?thesis
    by (cases r) (auto simp: channel_try_receive_def p q process_moves_def closed_on_exit_def leader_has_exited_def
        split: option.splits sum.splits prod.splits if_splits)
qed

lemma grace_refresh_moves:
  "grace_refresh envs ls = (ls', acts, res) \<Longrightarrow> leader_moves ls acts [] ls'"
proof (induction envs arbitrary: ls ls' acts res)
  case (Cons env envs)
  obtain ls1 a r where p: "leader_refresh env ls = (ls1, a, r)" by (cases "leader_refresh env ls")
  note m = leader_refresh_moves(1) [OF p]
  show ?case
  proof (cases "r = Ok None")
    case True
    obtain ls2 b r2 where g: "grace_refresh envs ls1 = (ls2, b, r2)" by (cases "grace_refresh envs ls1")
    from leader_moves.compose [OF m Cons.IH [OF g]] Cons.prems p True g show ?thesis by simp
  next
    case False
    with m Cons.prems p show ?thesis by (auto split: sum.splits option.splits)
  qed
qed (simp add: leader_moves.stay)

lemma channel_receive_moves:
  "channel_receive fenv rrs wp = (wp', acts, res) \<Longrightarrow> process_moves wp acts [] wp'"
proof (induction rrs arbitrary: wp wp' acts res)
  case Nil
  then show ?case by (simp add: process_moves_def leader_moves.stay)
next
  case (Cons rr rrs)
  obtain wp1 a r where p: "ensure_child_alive (rr_alive rr) wp = (wp1, a, r)" by (cases "ensure_child_alive (rr_alive rr) wp")
  note alive = ensure_child_alive_moves [OF p]
  show ?case
  proof (cases "is_ok r \<and> rr_poll rr = Ok 0")
    case True
    then obtain ep where ep: "wp_endpoint wp1 = Some ep" using alive(2) by auto
    obtain wp2 b r2 where g: "channel_receive fenv rrs wp1 = (wp2, b, r2)" by (cases "channel_receive fenv rrs wp1")
    from process_moves_compose [OF alive(1) Cons.IH [OF g]] Cons.prems True p ep g show ?thesis
      by (cases r) auto
  next
    case False
    have m: "process_moves wp (a @ b) [] (wp1\<lparr>wp_endpoint := None, wp_leader := ls\<rparr>)"
      if "grace_refresh envs (wp_leader wp1) = (ls, b, r2)" for envs ls b r2
      using leader_moves.compose [of "wp_leader wp" a "[]" "wp_leader wp1" b "[]" ls] alive(1)
        grace_refresh_moves [OF that] by (simp add: process_moves_def closed_on_exit_def)
    have s: "process_moves wp a [] (wp1\<lparr>wp_endpoint := Some ep'\<rparr>)" if "is_ok r" for ep'
      using alive that by (auto simp: process_moves_def closed_on_exit_def leader_has_exited_def)
    from False Cons.prems p alive(1) m s show ?thesis
      by (cases r) (auto split: option.splits sum.splits prod.splits if_splits simp del: grace_refresh.simps)
  qed
qed

lemma process_step_moves:
  "process_moves wp (fst (snd (process_step wp op))) (out_events (snd (snd (process_step wp op)))) (fst (process_step wp op))"
proof -
  have ev: "out_events (OutEvent r) = events_of r" for r by (cases r rule: events_of.cases) simp_all
  show ?thesis
  proof (cases op)
    case (PollEvent env)
    then show ?thesis using process_poll_event_moves [of env wp] by (cases "process_poll_event env wp") (simp add: ev)
  next
    case (WaitEvent env)
    then show ?thesis using process_wait_event_moves [of env wp] by (cases "process_wait_event env wp") (simp add: ev)
  next
    case (RequestTerminate env)
    then show ?thesis using process_signal_moves [of wp env SIGTERM] by (simp add: request_terminate_def)
  next
    case (RequestKill env)
    then show ?thesis using process_signal_moves [of wp env SIGKILL] by (simp add: request_kill_def)
  next
    case (Terminate env)
    then show ?thesis using process_terminate_moves [of env wp] by (cases "process_terminate env wp") (simp add: ev)
  next
    case (Kill env)
    then show ?thesis using process_kill_moves [of env wp] by (cases "process_kill env wp") (simp add: ev)
  next
    case (DropProcess env)
    then show ?thesis using process_drop_moves [of wp env] by simp
  next
    case (Send env senv mt flags payload fds)
    then show ?thesis using channel_send_moves [of env senv wp mt flags payload fds]
      by (cases "channel_send env senv wp mt flags payload fds") simp
  next
    case (TryReceive fenv rr)
    then show ?thesis using channel_try_receive_moves [of fenv rr wp] by (cases "channel_try_receive fenv rr wp") simp
  next
    case (Receive fenv rrs)
    then show ?thesis using channel_receive_moves [of fenv rrs wp]
      by (cases "channel_receive fenv rrs wp") (simp split: option.split)
  qed
qed

section \<open>What the specification guarantees\<close>

definition leader_inv :: "pid \<Rightarrow> ('c, 'g) leader_state \<Rightarrow> bool" where
  "leader_inv pgid ls \<longleftrightarrow> (ls_child ls = None \<longrightarrow> ls_pgid ls = None \<and> ls_cgroup ls = None)
     \<and> (ls_status ls \<noteq> None \<longrightarrow> ls_child ls = None) \<and> (ls_pgid ls = None \<or> ls_pgid ls = Some pgid)
     \<and> (ls_event_reported ls \<longrightarrow> ls_status ls \<noteq> None)"


definition reported_events :: "('c, 'g) leader_state \<Rightarrow> worker_event list" where
  "reported_events ls = (if ls_event_reported ls then [ProcessGroupExited (the (ls_status ls))] else [])"


lemma leader_new_inv: "leader_inv pgid (leader_new child pgid cgroup)"
  by (simp add: leader_inv_def leader_new_def)

lemma moves_inv:
  "leader_moves ls acts events ls' \<Longrightarrow> leader_inv pgid ls \<Longrightarrow> leader_inv pgid ls'
     \<and> (\<forall>q sig. KillGroup q sig \<in> set acts \<longrightarrow> q = pgid) \<and> (ls_child ls = None \<longrightarrow> acts = [] \<and> ls_child ls' = None)"
proof (induction rule: leader_moves.induct)
  case (reap ls c answer st)
  then show ?case by (cases "ls_cgroup ls") (simp_all add: leader_inv_def release_actions_def)
next
  case (compose ls a e ls1 b f ls2)
  note 1 = compose.IH(1) [OF compose.prems]
  from compose.IH(2) [OF conjunct1 [OF 1]] 1 show ?case by auto
qed (auto simp: leader_inv_def)

lemma moves_status: "leader_moves ls acts events ls' \<Longrightarrow> ls_status ls = Some st \<Longrightarrow> ls_status ls' = Some st"
  by (induction rule: leader_moves.induct) auto

lemma moves_events:
  "leader_moves ls acts events ls' \<Longrightarrow> leader_inv pgid ls \<Longrightarrow> reported_events ls @ events = reported_events ls'"
proof (induction rule: leader_moves.induct)
  case (compose ls a e ls1 b f ls2)
  from moves_inv [OF compose.hyps(1) compose.prems] have "leader_inv pgid ls1" by (rule conjunct1)
  from compose.IH(1) [OF compose.prems] compose.IH(2) [OF this] show ?case by (simp flip: append_assoc)
qed (auto simp: leader_inv_def reported_events_def)


abbreviation process_after :: "('c, 'g, 'fd) worker_process \<Rightarrow> ('c, 'g, 'fd) process_op list \<Rightarrow> ('c, 'g, 'fd) worker_process" where
  "process_after wp ops \<equiv> fst (run process_step wp ops)"

abbreviation actions_of_run :: "('c, 'g, 'fd) worker_process \<Rightarrow> ('c, 'g, 'fd) process_op list \<Rightarrow> ('c, 'g) os_action list" where
  "actions_of_run wp ops \<equiv> concat (map fst (snd (run process_step wp ops)))"

abbreviation events_of_run :: "('c, 'g, 'fd) worker_process \<Rightarrow> ('c, 'g, 'fd) process_op list \<Rightarrow> worker_event list" where
  "events_of_run wp ops \<equiv> concat (map (out_events \<circ> snd) (snd (run process_step wp ops)))"

lemma run_moves: "process_moves wp (actions_of_run wp ops) (events_of_run wp ops) (process_after wp ops)"
proof (induction ops arbitrary: wp)
  case Nil
  show ?case by (simp add: process_moves_def leader_moves.stay)
next
  case (Cons op ops)
  from process_moves_compose [OF process_step_moves [of wp op] Cons.IH [of "fst (process_step wp op)"]]
  show ?case by simp
qed

section \<open>Properties\<close>

text \<open>
  C30. No stale process group is ever signalled: in any sequence of operations on a new worker
  process only its own process group is signalled, and once the exit of the leader was observed
  (or the handle was dropped) nothing is signalled, killed, cleaned up or handed over any more.
\<close>

theorem process_signals_own_group:
  assumes "wp_leader wp = leader_new child pgid cgroup"
  shows "(KillGroup q sig \<in> set (actions_of_run wp xs) \<longrightarrow> q = pgid)
    \<and> (ls_child (wp_leader (process_after wp xs)) = None \<longrightarrow> actions_of_run (process_after wp xs) ys = [])
    \<and> (leader_has_exited (wp_leader (process_after wp xs)) \<longrightarrow> ls_child (wp_leader (process_after wp xs)) = None
        \<and> process_group_id (process_after wp xs) = None)"
proof -
  have m: "leader_moves (wp_leader wp) (actions_of_run wp xs) (events_of_run wp xs) (wp_leader (process_after wp xs))"
    "leader_moves (wp_leader (process_after wp xs)) (actions_of_run (process_after wp xs) ys)
      (events_of_run (process_after wp xs) ys) (wp_leader (process_after (process_after wp xs) ys))"
    using run_moves by (auto simp: process_moves_def)
  have "leader_inv pgid (wp_leader wp)" using assms by (simp add: leader_new_inv)
  note inv = moves_inv [OF m(1) this]
  show ?thesis
    using inv moves_inv [OF m(2), of pgid]
    by (auto simp: leader_has_exited_def leader_inv_def process_group_id_def)
qed

text \<open>
  C31. The exit of a worker is reported exactly once: in any sequence of operations at most one
  exit event is returned, it carries the observed status, and when an exit was observed but not yet
  reported, the next poll reports it.
\<close>

theorem process_exit_reported_once:
  assumes "wp_leader wp = leader_new child pgid cgroup"
  shows "(events_of_run wp xs = [] \<or> (\<exists>st. events_of_run wp xs = [ProcessGroupExited st]
        \<and> ls_status (wp_leader (process_after wp xs)) = Some st))
    \<and> (ls_status (wp_leader (process_after wp xs)) = Some st \<longrightarrow>
        events_of_run wp (xs @ [PollEvent env]) = [ProcessGroupExited st])"
proof -
  let ?ls = "wp_leader (process_after wp xs)"
  have m: "leader_moves (wp_leader wp) (actions_of_run wp xs) (events_of_run wp xs) ?ls"
    using run_moves by (auto simp: process_moves_def)
  have init: "leader_inv pgid (wp_leader wp)" using assms by (simp add: leader_new_inv)
  have events: "events_of_run wp xs = reported_events ?ls"
    using moves_events [OF m init] assms by (simp add: reported_events_def leader_new_def)
  have "leader_inv pgid ?ls" using moves_inv [OF m init] by (rule conjunct1)
  then have first: "events_of_run wp xs = [] \<or> (\<exists>st. events_of_run wp xs = [ProcessGroupExited st] \<and> ls_status ?ls = Some st)"
    unfolding events by (auto simp: reported_events_def leader_inv_def)
  have "out_events (snd (snd (process_step (process_after wp xs) (PollEvent env))))
      = (if ls_event_reported ?ls then [] else [ProcessGroupExited st])" if "ls_status ?ls = Some st"
    using that by (simp add: process_poll_event_def leader_poll_event_def leader_refresh_def)
  then have "ls_status ?ls = Some st \<Longrightarrow> events_of_run wp (xs @ [PollEvent env]) = [ProcessGroupExited st]"
    using events by (simp add: snd_run_append reported_events_def)
  with first show ?thesis by blast
qed

text \<open>Nothing is sent to or accepted from a dead worker: once its exit was observed the endpoint
  is closed, and sending and receiving return that exit status without any other effect.
\<close>

lemma process_channel_closed_after_exit:
  assumes "wp_leader wp = leader_new child pgid cgroup"
    and "ls_status (wp_leader (process_after wp xs)) = Some st"
  shows "wp_endpoint (process_after wp xs) = None
    \<and> process_step (process_after wp xs) (Send env senv mt flags payload fds)
        = (process_after wp xs, [], OutSent (Err (WorkerGroupExited st)))
    \<and> process_step (process_after wp xs) (TryReceive fenv rr)
        = (process_after wp xs, [], OutReceived (Err (WorkerGroupExited st)))
    \<and> process_step (process_after wp xs) (Receive fenv (rr # rrs))
        = (process_after wp xs, [], OutReceived (Err (WorkerGroupExited st)))"
proof -
  let ?wp = "process_after wp xs"
  have "closed_on_exit wp" using assms(1) by (simp add: closed_on_exit_def leader_has_exited_def leader_new_def)
  with run_moves [of wp xs] have "closed_on_exit ?wp" by (simp add: process_moves_def)
  with assms(2) have ep: "wp_endpoint ?wp = None" by (simp add: closed_on_exit_def leader_has_exited_def)
  have "ensure_child_alive env ?wp = (?wp, [], Err (WorkerGroupExited st))" for env
    using assms(2) ep by (simp add: ensure_child_alive_def leader_refresh_def)
  with ep show ?thesis by (simp add: channel_send_def channel_try_receive_def)
qed


section \<open>Witnesses\<close>

text \<open>A system in which the worker has exited with status 9 and the cgroup is still populated.\<close>

definition example_os :: "(nat, nat) os_env" where
  "example_os = \<lparr>os_try_wait = (\<lambda>_. Ok (Some 9)), os_wait = (\<lambda>_. Ok 9), os_kill_group = (\<lambda>_ _. Ok ()),
     os_kill_cgroup = (\<lambda>_. Ok ()), os_cleanup_cgroup = (\<lambda>_. Ok False)\<rparr>"

definition example_process :: "(nat, nat, nat) worker_process" where
  "example_process = \<lparr>wp_worker_pid = 77, wp_expected_worker_pid = 77, wp_leader = leader_new 1 70 (Some 5),
     wp_endpoint = Some example_endpoint, wp_identity = example_identity, wp_nonce = example_nonce\<rparr>"

definition example_run :: "(nat, nat, nat) process_op list" where
  "example_run = [RequestKill example_os, PollEvent example_os]"

lemma example_leader: "wp_leader example_process = leader_new 1 70 (Some 5)"
  by (simp add: example_process_def)

lemmas process_defs = example_os_def example_process_def example_run_def leader_new_def request_kill_def
  leader_signal_group_def signal_group_def process_poll_event_def leader_poll_event_def leader_refresh_def
  release_cgroup_def leader_has_exited_def

lemma example_after:
  "wp_leader (process_after example_process example_run)
     = \<lparr>ls_child = None, ls_pgid = None, ls_cgroup = None, ls_status = Some 9, ls_event_reported = True\<rparr>"
  by (simp add: process_defs)

lemma example_actions:
  "actions_of_run example_process example_run
     = [KillCgroup 5, KillGroup 70 SIGKILL, KillCgroup 5, CleanupCgroup 5 (Ok False), SubmitCgroup 5]"
  by (simp add: process_defs)

theorem process_signals_own_group_witness:
  "KillGroup 70 SIGKILL \<in> set (actions_of_run example_process example_run)
   \<and> actions_of_run (process_after example_process example_run) [RequestKill example_os] = []"
  using process_signals_own_group [OF example_leader, of 70 SIGKILL example_run "[RequestKill example_os]"]
  by (simp add: example_after example_actions)

theorem process_exit_reported_once_witness:
  "events_of_run example_process example_run = [ProcessGroupExited 9]
   \<and> events_of_run example_process (example_run @ [PollEvent example_os]) = [ProcessGroupExited 9]"
proof -
  have "events_of_run example_process example_run = [ProcessGroupExited 9]"
    by (simp add: process_defs)
  then show ?thesis
    using process_exit_reported_once [OF example_leader, of example_run 9 example_os] by (simp add: example_after)
qed


end
