(* ===== verification/Spawn.thy ===== *)
theory Spawn
  imports Process
begin

text \<open>
  Starting a worker and reaping what was given up (\<open>crates/oxiroute-supervisor-process/src/lib.rs\<close>:
  \<open>WorkerSpawner::spawn\<close> with its guard \<open>StartingChild\<close>; \<open>reaper.rs\<close>: one pass of the reaper
  thread). A wait with a deadline is a list of rounds, those that fit before the deadline; the
  guard's drop at every early return is written out.
\<close>

section \<open>The guard of a starting child\<close>

record ('c, 'g) starting_child =
  sc_child :: "'c option"
  sc_pgid :: "pid option"
  sc_cgroup :: "'g option"

definition starting_new :: "'c \<Rightarrow> pid \<Rightarrow> 'g option \<Rightarrow> ('c, 'g) starting_child" where
  "starting_new child pgid cgroup = \<lparr>sc_child = Some child, sc_pgid = Some pgid, sc_cgroup = cgroup\<rparr>"

definition poll_exit ::
  "('c, 'g) os_env \<Rightarrow> ('c, 'g) starting_child
    \<Rightarrow> ('c, 'g) starting_child \<times> ('c, 'g) os_action list \<times> (errno, exit_status option) result" where
  "poll_exit env sc =
     (case sc_child sc of
        None \<Rightarrow> (sc, [], Ok None)
      | Some child \<Rightarrow>
          (case os_try_wait env child of
             Err e \<Rightarrow> (sc, [], Err e)
           | Ok None \<Rightarrow> (sc, [], Ok None)
           | Ok (Some status) \<Rightarrow>
               (\<lparr>sc_child = None, sc_pgid = None, sc_cgroup = None\<rparr>,
                case sc_cgroup sc of None \<Rightarrow> [] | Some g \<Rightarrow> [SubmitCgroup g],
                Ok (Some status))))"

definition starting_drop :: "('c, 'g) starting_child \<Rightarrow> ('c, 'g) os_action list" where
  "starting_drop sc =
     (case (sc_child sc, sc_pgid sc) of
        (Some child, Some pgid) \<Rightarrow>
          (case sc_cgroup sc of None \<Rightarrow> [] | Some g \<Rightarrow> [KillCgroup g])
          @ [KillGroup pgid SIGKILL, SubmitChild child (sc_cgroup sc)]
      | _ \<Rightarrow> (case sc_cgroup sc of None \<Rightarrow> [] | Some g \<Rightarrow> [DropCgroup g]))"

section \<open>Waiting for the first frame\<close>

fun wait_for_early_exit ::
  "('c, 'g) os_env list \<Rightarrow> ('c, 'g) starting_child
    \<Rightarrow> ('c, 'g) starting_child \<times> ('c, 'g) os_action list \<times> (errno, exit_status option) result" where
  "wait_for_early_exit [] sc = (sc, [], Ok None)"
| "wait_for_early_exit (env # envs) sc =
     (case poll_exit env sc of
        (sc', acts, Ok None) \<Rightarrow> let (sc'', acts', res) = wait_for_early_exit envs sc' in (sc'', acts @ acts', res)
      | (sc', acts, res) \<Rightarrow> (sc', acts, res))"

record ('c, 'g, 'fd) startup_round =
  sr_exit :: "('c, 'g) os_env"
  sr_timespec :: bool
  sr_poll :: "(errno, nat) result"
  sr_recvmsg :: "(errno, 'fd received) result"

text \<open>The last status check, after which no time remains, has an environment of its own.\<close>

fun receive_startup_frame ::
  "'fd fd_env \<Rightarrow> ('c, 'g) os_env \<Rightarrow> ('c, 'g, 'fd) startup_round list \<Rightarrow> 'fd seqpacket_endpoint \<Rightarrow> ('c, 'g) starting_child
    \<Rightarrow> 'fd seqpacket_endpoint \<times> ('c, 'g) starting_child \<times> ('c, 'g) os_action list \<times> (spawn_error, 'fd frame) result" where
  "receive_startup_frame fenv final [] ep sc =
     (case poll_exit final sc of
        (sc', acts, Err e) \<Rightarrow> (ep, sc', acts, Err (SpawnIo e))
      | (sc', acts, Ok (Some status)) \<Rightarrow> (ep, sc', acts, Err (EarlyExit status))
      | (sc', acts, Ok None) \<Rightarrow> (ep, sc', acts, Err HandshakeTimeout))"
| "receive_startup_frame fenv final (sr # srs) ep sc =
     (case poll_exit (sr_exit sr) sc of
        (sc', acts, Err e) \<Rightarrow> (ep, sc', acts, Err (SpawnIo e))
      | (sc', acts, Ok (Some status)) \<Rightarrow> (ep, sc', acts, Err (EarlyExit status))
      | (sc', acts, Ok None) \<Rightarrow>
          if \<not> sr_timespec sr then (ep, sc', acts, Err HandshakeTimeout)
          else
            (case sr_poll sr of
               Err e \<Rightarrow>
                 if e = EINTR
                 then let (ep', sc'', acts', res) = receive_startup_frame fenv final srs ep sc' in (ep', sc'', acts @ acts', res)
                 else (ep, sc', acts, Err (SpawnIo e))
             | Ok ready \<Rightarrow>
                 if ready = 0 then (ep, sc', acts, Err HandshakeTimeout)
                 else
                   (case endpoint_receive fenv ep (sr_recvmsg sr) of
                      (ep', Ok frame) \<Rightarrow> (ep', sc', acts, Ok frame)
                    | (ep', Err error) \<Rightarrow>
                        if error = TransportClosed \<or> error = TransportIo ECONNRESET
                        then let (ep'', sc'', acts', res) = receive_startup_frame fenv final srs ep' sc'
                             in (ep'', sc'', acts @ acts', res)
                        else (ep', sc', acts, Err (SpawnTransport error)))))"

section \<open>Spawning\<close>

text \<open>What the calls made by \<open>spawn\<close> return.\<close>

record ('c, 'g, 'fd) spawn_env =
  sp_reaper :: "(errno, unit) result"
  sp_nonce :: "(errno, handshake_nonce) result"
  sp_pair :: "(transport_error, 'fd seqpacket_endpoint \<times> 'fd seqpacket_endpoint) result"
  sp_cgroup :: "(errno, 'g option) result"
  sp_probe :: cgroup_probe_status
  sp_cgroup_path :: "'g \<Rightarrow> path"
  sp_spawn :: "launcher_command \<Rightarrow> (errno, 'c) result"
  sp_child_id :: "'c \<Rightarrow> u32"
  sp_pid_from_raw :: "int \<Rightarrow> pid option"
  sp_getpgid :: "pid \<Rightarrow> (errno, pid) result"
  sp_parent_pid :: "pid \<Rightarrow> (errno, u32) result"
  sp_send :: "'fd send_env"
  sp_fd :: "'fd fd_env"
  sp_early :: "('c, 'g) os_env list"
  sp_rounds :: "('c, 'g, 'fd) startup_round list"
  sp_final :: "('c, 'g) os_env"

definition child_pid :: "(int \<Rightarrow> pid option) \<Rightarrow> u32 \<Rightarrow> (spawn_error, pid) result" where
  "child_pid pid_from_raw i =
     ok_or InvalidChildPid (if unat i < 2 ^ 31 then pid_from_raw (int (unat i)) else None)"

definition spawn_cgroup :: "('c, 'g, 'fd) spawn_env \<Rightarrow> worker_command \<Rightarrow> (spawn_error, 'g option) result" where
  "spawn_cgroup env command =
     (case sp_cgroup env of
        Ok (Some g) \<Rightarrow> Ok (Some g)
      | Ok None \<Rightarrow>
          if cmd_require_cgroup_containment command then Err (CgroupContainmentUnavailable (sp_probe env)) else Ok None
      | Err _ \<Rightarrow> if cmd_require_cgroup_containment command then Err CgroupContainmentSetupFailed else Ok None)"

definition drop_lease :: "'g option \<Rightarrow> ('c, 'g) os_action list" where
  "drop_lease cgroup = (case cgroup of None \<Rightarrow> [] | Some g \<Rightarrow> [DropCgroup g])"

definition disarm ::
  "('c, 'g) starting_child \<Rightarrow> pid \<Rightarrow> ('c, 'g) leader_state option" where
  "disarm sc pgid = map_option (\<lambda>child. leader_new child pgid (sc_cgroup sc)) (sc_child sc)"

text \<open>The part of \<open>spawn\<close> in which the guard owns the child; a failing return drops the guard.
  \<open>starting.id()\<close> and \<open>disarm\<close> expect the child, so \<open>None\<close> would be their panic.\<close>

definition spawn_handshake ::
  "('c, 'g, 'fd) spawn_env \<Rightarrow> worker_identity \<Rightarrow> handshake_nonce \<Rightarrow> 'fd seqpacket_endpoint \<Rightarrow> pid \<Rightarrow> ('c, 'g) starting_child
    \<Rightarrow> (('c, 'g) os_action list \<times> (spawn_error, ('c, 'g, 'fd) worker_process) result) option" where
  "spawn_handshake env identity nonce parent pgid sc =
     (let (parent1, sent) = endpoint_send (sp_send env) parent CHALLENGE 0 (wi_instance identity) (wi_generation identity)
            (authenticated_payload (wi_protocol identity) nonce []) [] in
      case sent of
        Err error \<Rightarrow>
          (case wait_for_early_exit (sp_early env) sc of
             (sc', acts, Err e) \<Rightarrow> Some (acts @ starting_drop sc', Err (SpawnIo e))
           | (sc', acts, Ok (Some status)) \<Rightarrow> Some (acts @ starting_drop sc', Err (EarlyExit status))
           | (sc', acts, Ok None) \<Rightarrow> Some (acts @ starting_drop sc', Err (SpawnTransport error)))
      | Ok _ \<Rightarrow>
          (case receive_startup_frame (sp_fd env) (sp_final env) (sp_rounds env) parent1 sc of
             (parent2, sc', acts, Err e) \<Rightarrow> Some (acts @ starting_drop sc', Err e)
           | (parent2, sc', acts, Ok frame) \<Rightarrow>
               Option.bind (sc_child sc') (\<lambda>child.
               (case verify_startup_ready (sp_pid_from_raw env) (sp_getpgid env) (sp_parent_pid env) frame
                   (sp_child_id env child) pgid identity nonce of
                  Err e \<Rightarrow> Some (acts @ starting_drop sc', Err e)
                | Ok worker_pid \<Rightarrow>
                    if \<not> (0 \<le> worker_pid \<and> worker_pid < 2 ^ 32)
                    then Some (acts @ starting_drop sc', Err InvalidChildPid)
                    else map_option (\<lambda>leader.
                      (acts, Ok \<lparr>wp_worker_pid = of_int worker_pid, wp_expected_worker_pid = worker_pid,
                         wp_leader = leader, wp_endpoint = Some parent2, wp_identity = identity, wp_nonce = nonce\<rparr>))
                      (disarm sc' pgid)))))"

definition spawn_worker ::
  "('c, 'g, 'fd) spawn_env \<Rightarrow> path \<Rightarrow> worker_command \<Rightarrow> worker_identity
    \<Rightarrow> (('c, 'g) os_action list \<times> (spawn_error, ('c, 'g, 'fd) worker_process) result) option" where
  "spawn_worker env launcher command identity =
     (case sp_reaper env of Err e \<Rightarrow> Some ([], Err (SpawnIo e)) | Ok _ \<Rightarrow>
      (case sp_nonce env of Err e \<Rightarrow> Some ([], Err (SpawnIo e)) | Ok nonce \<Rightarrow>
      (case sp_pair env of Err e \<Rightarrow> Some ([], Err (SpawnTransport e)) | Ok (parent, child_endpoint) \<Rightarrow>
      (case spawn_cgroup env command of Err e \<Rightarrow> Some ([], Err e) | Ok cgroup \<Rightarrow>
      (case into_launcher_command command launcher (map_option (sp_cgroup_path env) cgroup) of
         Err e \<Rightarrow> Some (drop_lease cgroup, Err (SpawnMetadata e))
       | Ok lc \<Rightarrow>
      (case sp_spawn env lc of Err e \<Rightarrow> Some (drop_lease cgroup, Err (SpawnIo e)) | Ok child \<Rightarrow>
      (case child_pid (sp_pid_from_raw env) (sp_child_id env child) of
         Err e \<Rightarrow> Some (drop_lease cgroup, Err e)
       | Ok pgid \<Rightarrow> spawn_handshake env identity nonce parent pgid (starting_new child pgid cgroup))))))))"

section \<open>The reaper\<close>

record ('c, 'g) reaper_entry =
  re_child :: "'c option"
  re_cgroup :: "'g option"

definition cleanup_complete ::
  "('c, 'g) os_env \<Rightarrow> ('c, 'g) reaper_entry \<Rightarrow> ('c, 'g) reaper_entry \<times> ('c, 'g) os_action list \<times> bool" where
  "cleanup_complete env entry =
     (if re_child entry \<noteq> None then (entry, [], False)
      else
        (case re_cgroup entry of
           None \<Rightarrow> (entry, [], True)
         | Some g \<Rightarrow>
             (case os_cleanup_cgroup env g of
                Ok True \<Rightarrow> (entry\<lparr>re_cgroup := None\<rparr>, [KillCgroup g, CleanupCgroup g (Ok True)], True)
              | answer \<Rightarrow> (entry, [KillCgroup g, CleanupCgroup g answer], False))))"

definition swap_remove :: "'a list \<Rightarrow> nat \<Rightarrow> 'a list" where
  "swap_remove xs i = (if Suc i = length xs then butlast xs else (butlast xs)[i := last xs])"

definition child_complete :: "('c, 'g) os_env \<Rightarrow> 'c option \<Rightarrow> bool" where
  "child_complete env child =
     (case child of
        None \<Rightarrow> True
      | Some c \<Rightarrow> (case os_try_wait env c of Ok (Some _) \<Rightarrow> True | _ \<Rightarrow> False))"

text \<open>One pass over the entries; the system's answers may differ at every visit \<open>n\<close>.\<close>

function reap_pass ::
  "(nat \<Rightarrow> ('c, 'g) os_env) \<Rightarrow> nat \<Rightarrow> nat \<Rightarrow> ('c, 'g) reaper_entry list
    \<Rightarrow> ('c, 'g) reaper_entry list \<times> ('c, 'g) os_action list" where
  "reap_pass os n index children =
     (if index < length children then
        if child_complete (os n) (re_child (children ! index)) then
          let rest = swap_remove children index;
              (reaped, acts, complete) = cleanup_complete (os n) ((children ! index)\<lparr>re_child := None\<rparr>)
          in if complete then apsnd ((@) acts) (reap_pass os (Suc n) index rest)
             else apsnd ((@) acts) (reap_pass os (Suc n) (Suc index) (rest @ [reaped]))
        else reap_pass os (Suc n) (Suc index) children
      else (children, []))"
  by pat_completeness auto
termination
  by (relation "measure (\<lambda>(os, n, index, children). length children - index)")
    (auto simp: swap_remove_def)

declare reap_pass.simps [simp del]

section \<open>The guard keeps or hands over the child\<close>

abbreviation submitted :: "'g option \<Rightarrow> ('c, 'g) os_action list" where
  "submitted cgroup \<equiv> case cgroup of None \<Rightarrow> [] | Some g \<Rightarrow> [SubmitCgroup g]"

abbreviation no_child :: "('c, 'g) starting_child" where
  "no_child \<equiv> \<lparr>sc_child = None, sc_pgid = None, sc_cgroup = None\<rparr>"

lemma poll_exit_new:
  "poll_exit env (starting_new child pgid cgroup) =
     (case os_try_wait env child of
        Ok (Some st) \<Rightarrow> (no_child, submitted cgroup, Ok (Some st))
      | r \<Rightarrow> (starting_new child pgid cgroup, [], r))"
  by (simp add: poll_exit_def starting_new_def split: sum.split option.split)

lemma poll_exit_cases:
  assumes "poll_exit env (starting_new child pgid cgroup) = (sc, acts, res)"
  shows "sc = starting_new child pgid cgroup \<and> acts = [] \<and> (res = Ok None \<or> is_err res)
     \<or> (\<exists>st. res = Ok (Some st) \<and> sc = no_child \<and> acts = submitted cgroup)"
proof (cases "os_try_wait env child")
  case (Inr o')
  then show ?thesis using assms [symmetric] unfolding poll_exit_new by (cases o') simp_all
qed (use assms [symmetric] in \<open>simp add: poll_exit_new\<close>)

lemma wait_for_early_exit_cases:
  "wait_for_early_exit envs (starting_new child pgid cgroup) = (sc, acts, res) \<Longrightarrow>
     sc = starting_new child pgid cgroup \<and> acts = [] \<and> (res = Ok None \<or> is_err res)
     \<or> (\<exists>st. res = Ok (Some st) \<and> sc = no_child \<and> acts = submitted cgroup)"
proof (induction envs arbitrary: acts)
  case (Cons env envs)
  obtain sc1 a r where p: "poll_exit env (starting_new child pgid cgroup) = (sc1, a, r)"
    by (cases "poll_exit env (starting_new child pgid cgroup)")
  show ?case
  proof (cases "r = Ok None")
    case True
    then have "sc1 = starting_new child pgid cgroup" "a = []" using poll_exit_cases [OF p] by auto
    with Cons True p show ?thesis by (auto split: prod.splits)
  next
    case False
    then have "sc = sc1" "acts = a" "res = r"
      using Cons.prems p by (auto split: sum.splits option.splits)
    with False poll_exit_cases [OF p] show ?thesis by auto
  qed
qed simp

lemma receive_startup_frame_cases:
  "receive_startup_frame fenv final srs ep (starting_new child pgid cgroup) = (ep', sc, acts, res) \<Longrightarrow>
     sc = starting_new child pgid cgroup \<and> acts = [] \<and> (\<forall>st. res \<noteq> Err (EarlyExit st))
     \<or> (\<exists>st. res = Err (EarlyExit st) \<and> sc = no_child \<and> acts = submitted cgroup)"
proof (induction srs arbitrary: ep ep' acts)
  case Nil
  obtain sc1 a r where p: "poll_exit final (starting_new child pgid cgroup) = (sc1, a, r)"
    by (cases "poll_exit final (starting_new child pgid cgroup)")
  from poll_exit_cases [OF p] Nil p show ?case by (auto split: sum.splits)
next
  case (Cons sr srs)
  obtain sc1 a r where p: "poll_exit (sr_exit sr) (starting_new child pgid cgroup) = (sc1, a, r)"
    by (cases "poll_exit (sr_exit sr) (starting_new child pgid cgroup)")
  show ?case
  proof (cases "r = Ok None")
    case True
    then have "sc1 = starting_new child pgid cgroup" "a = []" using poll_exit_cases [OF p] by auto
    with Cons.prems Cons.IH True p show ?thesis
      by (auto split: sum.splits prod.splits if_splits)
  next
    case False
    with poll_exit_cases [OF p] Cons.prems p show ?thesis by (cases r) auto
  qed
qed

text \<open>What \<open>starting_drop\<close> does to a child that has not been seen to exit.\<close>

definition starting_cleanup :: "'c \<Rightarrow> pid \<Rightarrow> 'g option \<Rightarrow> ('c, 'g) os_action list" where
  "starting_cleanup child pgid cgroup =
     (case cgroup of None \<Rightarrow> [] | Some g \<Rightarrow> [KillCgroup g]) @ [KillGroup pgid SIGKILL, SubmitChild child cgroup]"

lemma starting_drop_simps [simp]:
  "starting_drop no_child = []"
  "starting_drop (starting_new child pgid cgroup) = starting_cleanup child pgid cgroup"
  by (simp_all add: starting_drop_def starting_new_def starting_cleanup_def)

lemma starting_new_simps [simp]:
  "sc_child (starting_new child pgid cgroup) = Some child"
  "disarm (starting_new child pgid cgroup) pgid = Some (leader_new child pgid cgroup)"
  by (simp_all add: starting_new_def disarm_def)

definition spawn_outcome ::
  "'c \<Rightarrow> pid \<Rightarrow> 'g option \<Rightarrow> ('c, 'g) os_action list \<Rightarrow> (spawn_error, ('c, 'g, 'fd) worker_process) result \<Rightarrow> bool" where
  "spawn_outcome child pgid cgroup acts res =
     (case res of
        Ok wp \<Rightarrow> acts = [] \<and> wp_leader wp = leader_new child pgid cgroup
      | Err (EarlyExit _) \<Rightarrow> acts = submitted cgroup
      | Err _ \<Rightarrow> acts = starting_cleanup child pgid cgroup)"

lemma verify_startup_ready_not_exit: "verify_startup_ready a b c frame d pgid identity nonce \<noteq> Err (EarlyExit st)"
  by (auto simp: verify_startup_ready_def try_bind_def map_err_def split: sum.splits option.split)

lemma spawn_handshake_outcome:
  "case spawn_handshake env identity nonce parent pgid (starting_new child pgid cgroup) of
     None \<Rightarrow> False | Some (acts, res) \<Rightarrow> spawn_outcome child pgid cgroup acts res"
proof -
  let ?new = "starting_new child pgid cgroup"
  obtain parent1 sent where sent: "endpoint_send (sp_send env) parent CHALLENGE 0 (wi_instance identity)
      (wi_generation identity) (authenticated_payload (wi_protocol identity) nonce []) [] = (parent1, sent)"
    by fastforce
  show ?thesis
  proof (cases sent)
    case (Inl error)
    obtain sc acts res where w: "wait_for_early_exit (sp_early env) ?new = (sc, acts, res)"
      by (cases "wait_for_early_exit (sp_early env) ?new")
    from wait_for_early_exit_cases [OF this] w show ?thesis
      by (auto simp: spawn_handshake_def sent Inl spawn_outcome_def split: sum.split)
  next
    case (Inr k)
    obtain parent2 sc acts res where r: "receive_startup_frame (sp_fd env) (sp_final env) (sp_rounds env) parent1 ?new
        = (parent2, sc, acts, res)"
      by (cases "receive_startup_frame (sp_fd env) (sp_final env) (sp_rounds env) parent1 ?new")
    show ?thesis
    proof (cases res)
      case (Inl e)
      from receive_startup_frame_cases [OF r] Inl r show ?thesis
        by (auto simp: spawn_handshake_def sent Inr spawn_outcome_def split: spawn_error.split)
    next
      case frame: (Inr frame)
      then have "sc = ?new" "acts = []" using receive_startup_frame_cases [OF r] by auto
      with frame r show ?thesis
        by (auto simp: spawn_handshake_def sent Inr spawn_outcome_def verify_startup_ready_not_exit
            split: sum.split spawn_error.split)
    qed
  qed
qed

section \<open>Lemmas about the reaper\<close>

lemma mset_swap_remove: "i < length xs \<Longrightarrow> mset xs = add_mset (xs ! i) (mset (swap_remove xs i))"
proof -
  assume i: "i < length xs"
  then obtain ys y where xs: "xs = ys @ [y]" by (cases xs rule: rev_cases) auto
  show ?thesis
  proof (cases "i = length ys")
    case True
    then show ?thesis by (simp add: xs swap_remove_def)
  next
    case False
    with i have "i < length ys" by (simp add: xs)
    then show ?thesis by (simp add: xs swap_remove_def nth_append mset_update)
  qed
qed

lemma length_swap_remove [simp]: "length (swap_remove xs i) = length xs - 1"
  by (simp add: swap_remove_def)

lemma take_swap_remove: "i < length xs \<Longrightarrow> take i (swap_remove xs i) = take i xs"
  by (cases xs rule: rev_cases) (auto simp: swap_remove_def)

lemma set_swap_remove: "i < length xs \<Longrightarrow> set xs = insert (xs ! i) (set (swap_remove xs i))"
  using mset_swap_remove [of i xs] by (metis set_mset_add_mset_insert set_mset_mset)

text \<open>The four ways a step of the pass can go, as equations and as an induction rule.\<close>

lemma reap_pass_eqs:
  "\<not> index < length xs \<Longrightarrow> reap_pass os n index xs = (xs, [])"
  "index < length xs \<Longrightarrow> \<not> child_complete (os n) (re_child (xs ! index)) \<Longrightarrow>
     reap_pass os n index xs = reap_pass os (Suc n) (Suc index) xs"
  "index < length xs \<Longrightarrow> child_complete (os n) (re_child (xs ! index)) \<Longrightarrow>
     cleanup_complete (os n) ((xs ! index)\<lparr>re_child := None\<rparr>) = (entry, acts, True) \<Longrightarrow>
     reap_pass os n index xs = apsnd ((@) acts) (reap_pass os (Suc n) index (swap_remove xs index))"
  "index < length xs \<Longrightarrow> child_complete (os n) (re_child (xs ! index)) \<Longrightarrow>
     cleanup_complete (os n) ((xs ! index)\<lparr>re_child := None\<rparr>) = (entry, acts, False) \<Longrightarrow>
     reap_pass os n index xs = apsnd ((@) acts) (reap_pass os (Suc n) (Suc index) (swap_remove xs index @ [entry]))"
  by (subst reap_pass.simps, simp)+

lemma reap_pass_induction [case_names stop skip removed retry]:
  assumes "\<And>n index xs. \<not> index < length xs \<Longrightarrow> P n index xs"
    and "\<And>n index xs. index < length xs \<Longrightarrow> \<not> child_complete (os n) (re_child (xs ! index)) \<Longrightarrow>
      P (Suc n) (Suc index) xs \<Longrightarrow> P n index xs"
    and "\<And>n index xs entry acts. index < length xs \<Longrightarrow> child_complete (os n) (re_child (xs ! index)) \<Longrightarrow>
      cleanup_complete (os n) ((xs ! index)\<lparr>re_child := None\<rparr>) = (entry, acts, True) \<Longrightarrow>
      P (Suc n) index (swap_remove xs index) \<Longrightarrow> P n index xs"
    and "\<And>n index xs entry acts. index < length xs \<Longrightarrow> child_complete (os n) (re_child (xs ! index)) \<Longrightarrow>
      cleanup_complete (os n) ((xs ! index)\<lparr>re_child := None\<rparr>) = (entry, acts, False) \<Longrightarrow>
      P (Suc n) (Suc index) (swap_remove xs index @ [entry]) \<Longrightarrow> P n index xs"
  shows "P n index xs"
proof (induction "length xs - index" arbitrary: n index xs)
  case 0
  then show ?case using assms(1) by simp
next
  case (Suc k)
  obtain entry acts complete where c: "cleanup_complete (os n) ((xs ! index)\<lparr>re_child := None\<rparr>) = (entry, acts, complete)"
    by (cases "cleanup_complete (os n) ((xs ! index)\<lparr>re_child := None\<rparr>)") auto
  have index: "index < length xs" using Suc.hyps(2) by simp
  show ?case
  proof (cases "child_complete (os n) (re_child (xs ! index))")
    case False
    with Suc index show ?thesis using assms(2) by simp
  next
    case True
    show ?thesis
    proof (cases complete)
      assume complete
      with assms(3) [OF index True] Suc index c show ?thesis by simp
    next
      assume "\<not> complete"
      with assms(4) [OF index True] Suc index c show ?thesis by simp
    qed
  qed
qed

lemma reap_pass_keeps_lease:
  assumes "\<And>m. os_cleanup_cgroup (os m) g \<noteq> Ok True"
  shows "e \<in> set xs \<Longrightarrow> re_cgroup e = Some g \<Longrightarrow> \<exists>e' \<in> set (fst (reap_pass os n index xs)). re_cgroup e' = Some g"
proof (induction n index xs arbitrary: e rule: reap_pass_induction [of _ os])
  case (stop n index xs)
  then show ?case by (auto simp: reap_pass_eqs(1))
next
  case (skip n index xs)
  from skip.IH [OF skip.prems] show ?case using skip.hyps by (simp add: reap_pass_eqs(2))
next
  case (removed n index xs entry acts)
  have "e \<noteq> xs ! index"
    using removed.hyps(3) removed.prems(2) assms by (auto simp: cleanup_complete_def split: sum.splits bool.splits)
  then have "e \<in> set (swap_remove xs index)" using removed.prems(1) set_swap_remove [OF removed.hyps(1)] by blast
  from removed.IH [OF this removed.prems(2)] show ?case using reap_pass_eqs(3) [where os = os] removed.hyps by simp
next
  case (retry n index xs entry acts)
  have "e \<in> set (swap_remove xs index) \<or> e = xs ! index" using retry.prems(1) set_swap_remove [OF retry.hyps(1)] by blast
  moreover have "e = xs ! index \<Longrightarrow> re_cgroup entry = Some g"
    using retry.hyps(3) retry.prems(2) by (auto simp: cleanup_complete_def split: sum.splits bool.splits if_splits option.splits)
  ultimately obtain e' where "e' \<in> set (swap_remove xs index @ [entry])" "re_cgroup e' = Some g"
    using retry.prems(2) by auto
  from retry.IH [OF this] show ?case using reap_pass_eqs(4) [where os = os] retry.hyps by simp
qed

lemma child_complete_running: "(\<And>st. os_try_wait env c \<noteq> Ok (Some st)) \<Longrightarrow> \<not> child_complete env (Some c)"
  by (cases "os_try_wait env c") (auto simp: child_complete_def split: option.splits)

lemma reap_pass_keeps_child:
  assumes "\<And>m st. os_try_wait (os m) c \<noteq> Ok (Some st)"
  shows "e \<in> set xs \<Longrightarrow> re_child e = Some c \<Longrightarrow> e \<in> set (fst (reap_pass os n index xs))"
proof (induction n index xs rule: reap_pass_induction [of _ os])
  case (stop n index xs)
  then show ?case by (auto simp: reap_pass_eqs(1))
next
  case (skip n index xs)
  from skip.IH [OF skip.prems] show ?case using skip.hyps by (simp add: reap_pass_eqs(2))
next
  case (removed n index xs entry acts)
  have "e \<noteq> xs ! index"
    using removed.hyps(2) removed.prems(2) child_complete_running [OF assms] by auto
  then have "e \<in> set (swap_remove xs index)" using removed.prems(1) set_swap_remove [OF removed.hyps(1)] by blast
  from removed.IH [OF this removed.prems(2)] show ?case using reap_pass_eqs(3) [where os = os] removed.hyps by simp
next
  case (retry n index xs entry acts)
  have "e \<noteq> xs ! index"
    using retry.hyps(2) retry.prems(2) child_complete_running [OF assms] by auto
  then have "e \<in> set (swap_remove xs index @ [entry])" using retry.prems(1) set_swap_remove [OF retry.hyps(1)] by auto
  from retry.IH [OF this retry.prems(2)] show ?case using reap_pass_eqs(4) [where os = os] retry.hyps by simp
qed

lemma reap_pass_drains:
  assumes "\<And>m c. \<exists>st. os_try_wait (os m) c = Ok (Some st)" and "\<And>m g. os_cleanup_cgroup (os m) g = Ok True"
  shows "index \<le> length xs \<Longrightarrow> fst (reap_pass os n index xs) = take index xs"
proof (induction n index xs rule: reap_pass_induction [of _ os])
  case (stop n index xs)
  then show ?case by (simp add: reap_pass_eqs(1))
next
  case (skip n index xs)
  have "child_complete (os n) c" for c
    using assms(1) [of n] by (cases c) (simp_all add: child_complete_def, metis (no_types, lifting) sum.simps(6) option.simps(5))
  with skip show ?case by simp
next
  case (removed n index xs entry acts)
  then show ?case using reap_pass_eqs(3) [where os = os] by (simp add: take_swap_remove)
next
  case (retry n index xs entry acts)
  then show ?case by (auto simp: cleanup_complete_def assms(2) split: option.splits)
qed

section \<open>Properties\<close>

text \<open>
  C29. Once the launcher process runs and its pid is known, \<open>spawn\<close> never panics and has three
  kinds of outcome: a worker process that owns the child, its group and its cgroup; an early exit,
  where the launcher was already reaped; or another error, before which the cgroup and the process
  group were killed and the child was given to the reaper with its cgroup. On an early exit the code
  departs from its documentation, which promises a \<open>SIGKILL\<close> to the process group and the transfer
  of reaping for every failure after the spawn: nothing is signalled, no child is transferred, and
  only the cgroup lease goes to the reaper.
\<close>

theorem spawn_cleans_up:
  assumes "sp_reaper env = Ok ()" and "sp_nonce env = Ok nonce" and "sp_pair env = Ok (parent, child_endpoint)"
    and "spawn_cgroup env command = Ok cgroup"
    and "into_launcher_command command launcher (map_option (sp_cgroup_path env) cgroup) = Ok lc"
    and "sp_spawn env lc = Ok child" and "child_pid (sp_pid_from_raw env) (sp_child_id env child) = Ok pgid"
  shows "\<exists>acts res. spawn_worker env launcher command identity = Some (acts, res)
    \<and> (case res of
         Ok wp \<Rightarrow> acts = [] \<and> wp_leader wp = leader_new child pgid cgroup
       | Err (EarlyExit _) \<Rightarrow> acts = (case cgroup of None \<Rightarrow> [] | Some g \<Rightarrow> [SubmitCgroup g])
       | Err _ \<Rightarrow> acts = (case cgroup of None \<Rightarrow> [] | Some g \<Rightarrow> [KillCgroup g])
           @ [KillGroup pgid SIGKILL, SubmitChild child cgroup])"
proof -
  obtain acts res where "spawn_handshake env identity nonce parent pgid (starting_new child pgid cgroup) = Some (acts, res)"
    and out: "spawn_outcome child pgid cgroup acts res"
    using spawn_handshake_outcome [where env = env and identity = identity and nonce = nonce and parent = parent
      and pgid = pgid and child = child and cgroup = cgroup] by (auto split: option.splits)
  then have "spawn_worker env launcher command identity = Some (acts, res)"
    using assms by (simp add: spawn_worker_def)
  with out [unfolded spawn_outcome_def starting_cleanup_def] show ?thesis by blast
qed

text \<open>
  C33. One pass of the reaper ends and loses nothing: a child that no visit sees exited keeps its
  entry with its cgroup, and a cgroup that no visit manages to remove keeps an entry. When every
  child has exited and every cgroup can be removed, one pass leaves no entry.
\<close>

theorem reaper_pass_keeps_unfinished:
  assumes "e \<in> set entries"
  shows "(\<forall>c. re_child e = Some c \<longrightarrow> (\<forall>m st. os_try_wait (os m) c \<noteq> Ok (Some st))
           \<longrightarrow> e \<in> set (fst (reap_pass os 0 0 entries)))
    \<and> (\<forall>g. re_cgroup e = Some g \<longrightarrow> (\<forall>m. os_cleanup_cgroup (os m) g \<noteq> Ok True)
           \<longrightarrow> (\<exists>e' \<in> set (fst (reap_pass os 0 0 entries)). re_cgroup e' = Some g))
    \<and> ((\<forall>m c. \<exists>st. os_try_wait (os m) c = Ok (Some st)) \<longrightarrow> (\<forall>m g. os_cleanup_cgroup (os m) g = Ok True)
           \<longrightarrow> fst (reap_pass os 0 0 entries) = [])"
  using assms reap_pass_keeps_child [where os = os and e = e and xs = entries and n = 0 and index = 0]
    reap_pass_keeps_lease [where os = os and e = e and xs = entries and n = 0 and index = 0]
    reap_pass_drains [where os = os and xs = entries and n = 0 and index = 0]
  by auto

section \<open>Witnesses\<close>

text \<open>A worker that runs but never answers; its cgroup stays populated.\<close>

definition silent_os :: "(nat, nat) os_env" where
  "silent_os = \<lparr>os_try_wait = (\<lambda>c. if c = 1 then Ok None else Ok (Some 9)), os_wait = (\<lambda>_. Ok 9),
     os_kill_group = (\<lambda>_ _. Ok ()), os_kill_cgroup = (\<lambda>_. Ok ()), os_cleanup_cgroup = (\<lambda>_. Ok False)\<rparr>"

definition example_spawn :: "(nat, nat, nat) spawn_env" where
  "example_spawn = \<lparr>sp_reaper = Ok (), sp_nonce = Ok example_nonce, sp_pair = Ok (example_endpoint, example_endpoint),
     sp_cgroup = Ok (Some 5), sp_probe = ProbeReady, sp_cgroup_path = (\<lambda>_. [47, 99]), sp_spawn = (\<lambda>_. Ok 1),
     sp_child_id = (\<lambda>_. 70), sp_pid_from_raw = Some, sp_getpgid = (\<lambda>_. Ok 70), sp_parent_pid = (\<lambda>_. Ok 70),
     sp_send = example_send_env, sp_fd = example_fd_env, sp_early = [], sp_rounds = [], sp_final = silent_os\<rparr>"

lemma example_spawn_timeout:
  "\<exists>acts. spawn_worker example_spawn [47, 108] example_command example_identity = Some (acts, Err HandshakeTimeout)"
proof -
  have "endpoint_send example_send_env example_endpoint CHALLENGE 0 (wi_instance example_identity)
      (wi_generation example_identity) (authenticated_payload (wi_protocol example_identity) example_nonce []) []
    = (example_endpoint\<lparr>ep_next_send_sequence := 2\<rparr>, Ok 1)"
    using example_send_ok [OF length_example_prefix _ length_example_token, of "[]" example_endpoint 2]
    by (simp add: example_endpoint_def u64_checked_add_def example_identity_def)
  then show ?thesis
    by (simp add: spawn_worker_def example_spawn_def spawn_cgroup_def example_launch child_pid_def ok_or_def
        spawn_handshake_def starting_new_def poll_exit_def silent_os_def)
qed

theorem spawn_cleans_up_witness:
  "spawn_worker example_spawn [47, 108] example_command example_identity
     = Some ([KillCgroup 5, KillGroup 70 SIGKILL, SubmitChild 1 (Some 5)], Err HandshakeTimeout)"
  using example_spawn_timeout
    spawn_cleans_up [of example_spawn example_nonce example_endpoint example_endpoint example_command "Some 5" "[47, 108]"
      "\<lparr>lc_program = [47, 108], lc_args = [[47, 119], [118, 50], [49], [50, 102, 54, 51], [49], [102, 102], [49],
        [52, 98], [102, 101]]\<rparr>" 1 70 example_identity]
  by (auto simp: example_spawn_def spawn_cgroup_def example_launch child_pid_def ok_or_def)

theorem reaper_pass_keeps_unfinished_witness:
  "\<lparr>re_child = Some 1, re_cgroup = None\<rparr>
     \<in> set (fst (reap_pass (\<lambda>_. silent_os) 0 0 [\<lparr>re_child = Some 2, re_cgroup = None\<rparr>, \<lparr>re_child = Some 1, re_cgroup = None\<rparr>]))
   \<and> fst (reap_pass (\<lambda>_. silent_os) 0 0 [\<lparr>re_child = Some 2, re_cgroup = None\<rparr>, \<lparr>re_child = Some 1, re_cgroup = None\<rparr>])
     = [\<lparr>re_child = Some 1, re_cgroup = None\<rparr>]"
proof -
  have "fst (reap_pass (\<lambda>_. silent_os) 0 0 [\<lparr>re_child = Some 2, re_cgroup = None\<rparr>, \<lparr>re_child = Some 1, re_cgroup = None\<rparr>])
     = [\<lparr>re_child = Some 1, re_cgroup = None\<rparr>]"
    by (simp add: reap_pass.simps child_complete_def cleanup_complete_def swap_remove_def silent_os_def)
  then show ?thesis
    using reaper_pass_keeps_unfinished [of "\<lparr>re_child = Some 1, re_cgroup = None\<rparr>"
        "[\<lparr>re_child = Some 2, re_cgroup = None\<rparr>, \<lparr>re_child = Some 1, re_cgroup = None\<rparr>]" "\<lambda>_. silent_os"]
    by (simp add: silent_os_def)
qed

end
