(* ===== verification/Listeners.thy ===== *)
theory Listeners
  imports Descriptor
begin

text \<open>
  What the master is configured with (\<open>crates/oxiroute-supervisor-master/src/config.rs\<close> and
  \<open>listeners.rs\<close>): the validated timeouts of the phases, and the listener descriptors that the master
  owns for its whole life and duplicates for every worker. A duration is its number of nanoseconds.
\<close>

type_synonym duration = nat

definition MAX_TIMEOUT :: duration where "MAX_TIMEOUT = 3600 * 10 ^ 9"

record master_config =
  adoption_timeout :: duration
  quiesce_timeout :: duration
  activation_timeout :: duration
  drain_timeout :: duration
  shutdown_timeout :: duration

datatype config_error = InvalidTimeout string duration

fun check_timeouts :: "(string \<times> duration) list \<Rightarrow> (config_error, unit) result" where
  "check_timeouts [] = Ok ()"
| "check_timeouts ((phase, timeout) # rest) =
     (if timeout = 0 \<or> timeout > MAX_TIMEOUT then Err (InvalidTimeout phase MAX_TIMEOUT) else check_timeouts rest)"

definition master_config_new ::
  "duration \<Rightarrow> duration \<Rightarrow> duration \<Rightarrow> duration \<Rightarrow> duration \<Rightarrow> (config_error, master_config) result" where
  "master_config_new adoption quiesce activation drain shutdown =
     try_bind (check_timeouts [(''listener adoption'', adoption), (''quiesce'', quiesce), (''activation'', activation),
         (''drain'', drain), (''shutdown'', shutdown)]) (\<lambda>_.
     Ok \<lparr>adoption_timeout = adoption, quiesce_timeout = quiesce, activation_timeout = activation,
         drain_timeout = drain, shutdown_timeout = shutdown\<rparr>)"

record 'fd stable_listeners =
  st_manifest :: descriptor_manifest
  st_originals :: "'fd list"

datatype listener_error =
    OriginalFlags errno
  | ListenerCloexecUnavailable
  | Duplicate errno
  | ListenerDescriptor descriptor_error

text \<open>\<open>fcntl_dupfd_cloexec\<close> on every descriptor, the first failure ends the loop.\<close>

fun duplicate_all :: "('k \<Rightarrow> 'fd \<Rightarrow> 'k \<times> (errno, 'fd) result) \<Rightarrow> 'k \<Rightarrow> 'fd list \<Rightarrow> 'k \<times> (listener_error, 'fd list) result" where
  "duplicate_all dup k [] = (k, Ok [])"
| "duplicate_all dup k (fd # fds) =
     seq_bind (map_prod id (map_err Duplicate) (dup k fd)) (\<lambda>k copy.
     seq_bind (duplicate_all dup k fds) (\<lambda>k copies. (k, Ok (copy # copies))))"

fun originals_cloexec ::
  "('k, 'fd, 'addr) kernel \<Rightarrow> 'k \<Rightarrow> 'fd list \<Rightarrow> 'k \<times> (listener_error, unit) result" where
  "originals_cloexec ops k [] = (k, Ok ())"
| "originals_cloexec ops k (fd # fds) =
     seq_bind (k, map_err OriginalFlags (k_get_cloexec ops k fd)) (\<lambda>k cloexec.
     seq_bind (if cloexec then (k, Ok ()) else map_prod id (map_err OriginalFlags) (k_set_cloexec ops k fd)) (\<lambda>k _.
     seq_bind (k, map_err OriginalFlags (k_get_cloexec ops k fd)) (\<lambda>k cloexec.
     if \<not> cloexec then (k, Err ListenerCloexecUnavailable) else originals_cloexec ops k fds)))"

definition stable_listeners_new ::
  "('k, 'fd, 'addr) kernel \<Rightarrow> ('k \<Rightarrow> 'fd \<Rightarrow> 'k \<times> (errno, 'fd) result) \<Rightarrow> 'k \<Rightarrow> descriptor_manifest \<Rightarrow> 'fd list
    \<Rightarrow> 'k \<times> (listener_error, 'fd stable_listeners) result" where
  "stable_listeners_new ops dup k manifest originals =
     (if length originals \<noteq> length (manifest_slots manifest)
      then (k, Err (ListenerDescriptor (CardinalityMismatch (length (manifest_slots manifest)) (length originals))))
      else
        seq_bind (originals_cloexec ops k originals) (\<lambda>k _.
        seq_bind (duplicate_all dup k originals) (\<lambda>k validation.
        seq_bind (map_prod id (map_err ListenerDescriptor) (descriptor_set_new ops k manifest validation)) (\<lambda>k _.
        (k, Ok \<lparr>st_manifest = manifest, st_originals = originals\<rparr>)))))"

definition listeners_duplicates ::
  "('k \<Rightarrow> 'fd \<Rightarrow> 'k \<times> (errno, 'fd) result) \<Rightarrow> 'k \<Rightarrow> 'fd stable_listeners \<Rightarrow> 'k \<times> (listener_error, 'fd list) result" where
  "listeners_duplicates dup k listeners = duplicate_all dup k (st_originals listeners)"

section \<open>Lemmas\<close>

lemma check_timeouts_Ok: "check_timeouts xs = Ok () \<longleftrightarrow> list_all (\<lambda>(_, t). 0 < t \<and> t \<le> MAX_TIMEOUT) xs"
  by (induction xs) (auto simp: not_less split: if_splits)

lemma master_config_new_Ok:
  "master_config_new a q c d s = Ok config \<longleftrightarrow>
     config = \<lparr>adoption_timeout = a, quiesce_timeout = q, activation_timeout = c, drain_timeout = d, shutdown_timeout = s\<rparr>
     \<and> list_all (\<lambda>t. 0 < t \<and> t \<le> MAX_TIMEOUT) [a, q, c, d, s]"
  by (auto simp: master_config_new_def check_timeouts_Ok)

lemma duplicate_all_length: "duplicate_all dup k fds = (k', Ok copies) \<Longrightarrow> length copies = length fds"
  by (induction dup k fds arbitrary: copies k' rule: duplicate_all.induct) (auto simp: seq_bind_def split: prod.splits sum.splits)

end
