(* ===== verification/History.thy ===== *)
theory History
  imports Status Gen_Catalog Tables Machine "HOL-Library.List_Lexorder" "HOL-Library.Product_Lexorder"
begin

text \<open>
  The master's view of its workers over time (\<open>crates/oxiroute-supervisor-master/src/status.rs\<close>:
  \<open>SupervisorSnapshotHistory\<close>): the bounded ring of worker events with the master's own cursors,
  the counters of reaped workers, the snapshot that joins both with the current observations and
  the generation catalog, and \<open>retain_monotonic_status\<close>.
\<close>

definition MAX_AGGREGATED_EVENTS :: usize where "MAX_AGGREGATED_EVENTS = 2048"

record aggregated_event =
  ae_cursor :: u64
  ae_instance_id :: instance_id
  ae_generation_id :: generation_id
  ae_worker_event :: event_record

record retained_event =
  rt_role :: generation_role
  rt_event :: aggregated_event

record 'r generation_snapshot =
  gs_role :: generation_role
  gs_instance_id :: instance_id
  gs_generation_id :: generation_id
  gs_revision :: 'r

record supervisor_process =
  ps_role :: generation_role
  ps_instance_id :: instance_id
  ps_generation_id :: generation_id
  ps_sequence :: u64
  ps_lifecycle :: worker_lifecycle
  ps_administrative_state :: administrative_state
  ps_accepting :: bool
  ps_runtime_started :: bool
  ps_runtime_failed :: bool
  ps_drained :: bool
  ps_generation :: generation_status

record listener_observation =
  lo_role :: generation_role
  lo_instance_id :: instance_id
  lo_listener :: listener_status

record supervisor_listener =
  sl_name :: str
  sl_protocol :: str
  sl_bind :: str
  sl_administrative_state :: administrative_state
  sl_state :: listener_state
  sl_accepted_connections :: u64
  sl_rejected_connections :: u64
  sl_active_connections :: u64
  sl_bytes_received :: u64
  sl_bytes_sent :: u64

record degradation =
  dg_role :: generation_role
  dg_instance_id :: instance_id
  dg_reason :: "str option"

record 'r supervisor_snapshot =
  ss_generations :: "'r generation_snapshot list"
  ss_processes :: "supervisor_process list"
  ss_listener_observations :: "listener_observation list"
  ss_listeners :: "supervisor_listener list"
  ss_degraded :: bool
  ss_degradation :: "degradation list"
  ss_metrics :: worker_metrics
  ss_events :: "retained_event list"

record snapshot_error =
  se_instance_id :: instance_id
  se_observed_role :: generation_role
  se_catalog_role :: "generation_role option"

record snapshot_source =
  src_role :: generation_role
  src_instance_id :: instance_id
  src_generation_id :: generation_id
  src_status :: worker_status

type_synonym listener_id = "str \<times> str \<times> str"

record snapshot_history =
  sh_metrics :: worker_metrics
  sh_listeners :: "(listener_id, supervisor_listener) entries"
  sh_events :: "retained_event list"
  sh_next_event_cursor :: u64

definition default_metrics :: worker_metrics where
  "default_metrics = \<lparr>m_accepted_connections = 0, m_rejected_connections = 0, m_active_connections = 0,
     m_bytes_received = 0, m_bytes_sent = 0\<rparr>"

definition history_new :: snapshot_history where
  "history_new = \<lparr>sh_metrics = default_metrics, sh_listeners = [], sh_events = [], sh_next_event_cursor = 1\<rparr>"

section \<open>Counters\<close>

definition listener_key :: "listener_status \<Rightarrow> listener_id" where
  "listener_key l = (l_name l, l_protocol l, l_bind l)"

definition listener_snapshot :: "listener_status \<Rightarrow> supervisor_listener" where
  "listener_snapshot l =
     \<lparr>sl_name = l_name l, sl_protocol = l_protocol l, sl_bind = l_bind l,
      sl_administrative_state = l_administrative_state l, sl_state = l_state l,
      sl_accepted_connections = 0, sl_rejected_connections = 0, sl_active_connections = 0,
      sl_bytes_received = 0, sl_bytes_sent = 0\<rparr>"

definition add_cumulative_metrics :: "worker_metrics \<Rightarrow> worker_metrics \<Rightarrow> worker_metrics" where
  "add_cumulative_metrics acc v =
     acc\<lparr>m_accepted_connections := u64_saturating_add (m_accepted_connections acc) (m_accepted_connections v),
       m_rejected_connections := u64_saturating_add (m_rejected_connections acc) (m_rejected_connections v),
       m_bytes_received := u64_saturating_add (m_bytes_received acc) (m_bytes_received v),
       m_bytes_sent := u64_saturating_add (m_bytes_sent acc) (m_bytes_sent v)\<rparr>"

definition add_all_metrics :: "worker_metrics \<Rightarrow> worker_metrics \<Rightarrow> worker_metrics" where
  "add_all_metrics acc v =
     (add_cumulative_metrics acc v)
       \<lparr>m_active_connections := u64_saturating_add (m_active_connections acc) (m_active_connections v)\<rparr>"

definition retain_monotonic_metrics :: "worker_metrics \<Rightarrow> worker_metrics \<Rightarrow> worker_metrics" where
  "retain_monotonic_metrics previous current =
     current\<lparr>m_accepted_connections := max (m_accepted_connections current) (m_accepted_connections previous),
       m_rejected_connections := max (m_rejected_connections current) (m_rejected_connections previous),
       m_bytes_received := max (m_bytes_received current) (m_bytes_received previous),
       m_bytes_sent := max (m_bytes_sent current) (m_bytes_sent previous)\<rparr>"

definition add_cumulative_listener :: "supervisor_listener \<Rightarrow> listener_status \<Rightarrow> supervisor_listener" where
  "add_cumulative_listener acc v =
     acc\<lparr>sl_accepted_connections := u64_saturating_add (sl_accepted_connections acc) (l_accepted_connections v),
       sl_rejected_connections := u64_saturating_add (sl_rejected_connections acc) (l_rejected_connections v),
       sl_bytes_received := u64_saturating_add (sl_bytes_received acc) (l_bytes_received v),
       sl_bytes_sent := u64_saturating_add (sl_bytes_sent acc) (l_bytes_sent v)\<rparr>"

definition add_all_listener :: "supervisor_listener \<Rightarrow> listener_status \<Rightarrow> supervisor_listener" where
  "add_all_listener acc v =
     (add_cumulative_listener acc v)
       \<lparr>sl_active_connections := u64_saturating_add (sl_active_connections acc) (l_active_connections v)\<rparr>"

definition retain_monotonic_listener :: "listener_status \<Rightarrow> listener_status \<Rightarrow> listener_status" where
  "retain_monotonic_listener previous current =
     current\<lparr>l_accepted_connections := max (l_accepted_connections current) (l_accepted_connections previous),
       l_rejected_connections := max (l_rejected_connections current) (l_rejected_connections previous),
       l_bytes_received := max (l_bytes_received current) (l_bytes_received previous),
       l_bytes_sent := max (l_bytes_sent current) (l_bytes_sent previous)\<rparr>"

fun role_priority :: "generation_role \<Rightarrow> u8" where
  "role_priority RoleActive = 5"
| "role_priority RoleCandidate = 4"
| "role_priority RolePrevious = 3"
| "role_priority RoleQuarantined = 2"
| "role_priority RoleRestartRequired = 1"

section \<open>Retaining a status\<close>

definition retain_metrics :: "worker_metrics option \<Rightarrow> worker_metrics option \<Rightarrow> worker_metrics option" where
  "retain_metrics previous current =
     (case (previous, current) of
        (Some p, Some c) \<Rightarrow> Some (retain_monotonic_metrics p c)
      | (Some p, None) \<Rightarrow> Some p
      | (None, c) \<Rightarrow> c)"

definition retain_generation :: "generation_status \<Rightarrow> generation_status \<Rightarrow> generation_status" where
  "retain_generation previous current =
     current\<lparr>g_prepares := max (g_prepares current) (g_prepares previous),
       g_activations := max (g_activations current) (g_activations previous),
       g_failures := max (g_failures current) (g_failures previous),
       g_rollbacks := max (g_rollbacks current) (g_rollbacks previous)\<rparr>"

text \<open>\<open>iter_mut().find\<close> updates the first listener with the key of the previous one.\<close>

fun retain_listener :: "listener_status \<Rightarrow> listener_status list \<Rightarrow> listener_status list" where
  "retain_listener previous [] = [previous]"
| "retain_listener previous (current # rest) =
     (if listener_key current = listener_key previous then retain_monotonic_listener previous current # rest
      else current # retain_listener previous rest)"

definition retain_monotonic_status :: "worker_status \<Rightarrow> worker_status \<Rightarrow> worker_status" where
  "retain_monotonic_status previous status =
     status\<lparr>s_metrics := retain_metrics (s_metrics previous) (s_metrics status),
       s_generation := retain_generation (s_generation previous) (s_generation status),
       s_listeners := fold retain_listener (s_listeners previous) (s_listeners status)\<rparr>"

section \<open>Operations of the history\<close>

definition push_event :: "generation_role \<Rightarrow> instance_id \<Rightarrow> generation_id \<Rightarrow> event_record \<Rightarrow> snapshot_history \<Rightarrow> snapshot_history" where
  "push_event role i g e h =
     (let cursor = sh_next_event_cursor h;
          events = sh_events h @ [\<lparr>rt_role = role, rt_event = \<lparr>ae_cursor = cursor, ae_instance_id = i,
            ae_generation_id = g, ae_worker_event = e\<rparr>\<rparr>]
      in h\<lparr>sh_next_event_cursor := (case u64_checked_add cursor 1 of None \<Rightarrow> 0 | Some c \<Rightarrow> c),
           sh_events := drop (length events - MAX_AGGREGATED_EVENTS) events\<rparr>)"

text \<open>The loop of \<open>record_events\<close>: the cursor of the last recorded event is carried along.\<close>

fun record_loop ::
  "generation_role \<Rightarrow> instance_id \<Rightarrow> generation_id \<Rightarrow> u64 \<Rightarrow> event_record list \<Rightarrow> snapshot_history
    \<Rightarrow> snapshot_history \<times> u64" where
  "record_loop role i g event_cursor [] h = (h, event_cursor)"
| "record_loop role i g event_cursor (e # es) h =
     (if e_cursor e \<le> event_cursor then record_loop role i g event_cursor es h
      else if sh_next_event_cursor h = 0 then (h, event_cursor)
      else record_loop role i g (e_cursor e) es (push_event role i g e h))"

definition record_events ::
  "generation_role \<Rightarrow> instance_id \<Rightarrow> generation_id \<Rightarrow> u64 \<Rightarrow> worker_status \<Rightarrow> snapshot_history
    \<Rightarrow> snapshot_history \<times> u64" where
  "record_events role i g previous_cursor status h =
     (let (h', event_cursor) = record_loop role i g previous_cursor (s_events status) h
      in (h', max event_cursor (s_event_cursor status)))"

definition reap_listener ::
  "listener_status \<Rightarrow> (listener_id, supervisor_listener) entries \<Rightarrow> (listener_id, supervisor_listener) entries" where
  "reap_listener l listeners =
     (let entry = (case tab_get listeners (listener_key l) of None \<Rightarrow> listener_snapshot l | Some entry \<Rightarrow> entry)
      in btree_insert listeners (listener_key l) ((add_cumulative_listener entry l)\<lparr>sl_active_connections := 0\<rparr>))"

definition reap :: "worker_status option \<Rightarrow> snapshot_history \<Rightarrow> snapshot_history" where
  "reap status h =
     (case status of
        None \<Rightarrow> h
      | Some status \<Rightarrow>
          h\<lparr>sh_metrics := (case s_metrics status of None \<Rightarrow> sh_metrics h
               | Some metrics \<Rightarrow> add_cumulative_metrics (sh_metrics h) metrics),
            sh_listeners := fold reap_listener (s_listeners status) (sh_listeners h)\<rparr>)"

definition worker_events :: "snapshot_history \<Rightarrow> u64 \<Rightarrow> usize \<Rightarrow> aggregated_event list" where
  "worker_events h after limit =
     map rt_event (take (min limit MAX_AGGREGATED_EVENTS)
       (filter (\<lambda>retained. after < ae_cursor (rt_event retained)) (sh_events h)))"

section \<open>The snapshot\<close>

definition catalog_role :: "('r, 't) catalog \<Rightarrow> snapshot_source \<Rightarrow> generation_role option" where
  "catalog_role catalog source =
     map_option fst (find (\<lambda>(role, document). doc_instance document = src_instance_id source
       \<and> doc_generation document = src_generation_id source) (documents catalog))"

fun check_sources :: "('r, 't) catalog \<Rightarrow> snapshot_source list \<Rightarrow> (snapshot_error, unit) result" where
  "check_sources catalog [] = Ok ()"
| "check_sources catalog (source # sources) =
     (if catalog_role catalog source \<noteq> Some (src_role source)
      then Err \<lparr>se_instance_id = src_instance_id source, se_observed_role = src_role source,
             se_catalog_role = catalog_role catalog source\<rparr>
      else check_sources catalog sources)"

type_synonym listener_join =
  "(listener_id, supervisor_listener) entries \<times> (listener_id, u8) entries"

definition join_listener :: "generation_role \<Rightarrow> listener_status \<Rightarrow> listener_join \<Rightarrow> listener_join" where
  "join_listener role l join =
     (case join of (listeners, priorities) \<Rightarrow>
        let key = listener_key l;
            entry = (case tab_get listeners key of None \<Rightarrow> listener_snapshot l | Some entry \<Rightarrow> entry);
            summed = add_all_listener entry l
        in if (case tab_get priorities key of None \<Rightarrow> True | Some current \<Rightarrow> role_priority role > current)
           then (btree_insert listeners key
                   (summed\<lparr>sl_administrative_state := l_administrative_state l, sl_state := l_state l\<rparr>),
                 btree_insert priorities key (role_priority role))
           else (btree_insert listeners key summed, priorities))"

definition process_snapshot :: "snapshot_source \<Rightarrow> supervisor_process" where
  "process_snapshot source =
     (let status = src_status source in
      \<lparr>ps_role = src_role source, ps_instance_id = src_instance_id source,
       ps_generation_id = src_generation_id source, ps_sequence = s_sequence status,
       ps_lifecycle = s_lifecycle status, ps_administrative_state = s_administrative_state status,
       ps_accepting = s_accepting status, ps_runtime_started = s_runtime_started status,
       ps_runtime_failed = s_runtime_failed status, ps_drained = s_drained status,
       ps_generation = s_generation status\<rparr>)"

definition listener_observations :: "snapshot_source \<Rightarrow> listener_observation list" where
  "listener_observations source =
     map (\<lambda>l. \<lparr>lo_role = src_role source, lo_instance_id = src_instance_id source, lo_listener = l\<rparr>)
       (s_listeners (src_status source))"

definition source_degradation :: "snapshot_source \<Rightarrow> degradation list" where
  "source_degradation source =
     (let status = src_status source in
      if s_degraded status \<or> g_degraded (s_generation status) \<or> s_runtime_failed status
      then [\<lparr>dg_role = src_role source, dg_instance_id = src_instance_id source,
              dg_reason = (case s_degradation status of Some r \<Rightarrow> Some r
                | None \<Rightarrow> g_last_failure (s_generation status))\<rparr>]
      else [])"

definition add_source_metrics :: "snapshot_source \<Rightarrow> worker_metrics \<Rightarrow> worker_metrics" where
  "add_source_metrics source metrics =
     (case s_metrics (src_status source) of None \<Rightarrow> metrics | Some m \<Rightarrow> add_all_metrics metrics m)"

definition snapshot ::
  "snapshot_history \<Rightarrow> ('r, 't) catalog \<Rightarrow> snapshot_source list \<Rightarrow> (snapshot_error, 'r supervisor_snapshot) result" where
  "snapshot h catalog sources =
     try_bind (check_sources catalog sources) (\<lambda>_.
       let joined = fold (\<lambda>source. fold (join_listener (src_role source)) (s_listeners (src_status source))) sources
             (sh_listeners h, []);
           degradation = concat (map source_degradation sources)
       in Ok \<lparr>ss_generations = map (\<lambda>(role, document). \<lparr>gs_role = role, gs_instance_id = doc_instance document,
                gs_generation_id = doc_generation document, gs_revision = doc_revision document\<rparr>) (documents catalog),
            ss_processes = map process_snapshot sources,
            ss_listener_observations = concat (map listener_observations sources),
            ss_listeners = map snd (fst joined),
            ss_degraded = (degradation \<noteq> []),
            ss_degradation = degradation,
            ss_metrics = fold add_source_metrics sources (sh_metrics h),
            ss_events = sh_events h\<rparr>)"

section \<open>Lemmas about the ring of events\<close>

text \<open>The next cursor as a natural number; \<open>0\<close> marks that the cursors are used up.\<close>

definition next_cursor :: "snapshot_history \<Rightarrow> nat" where
  "next_cursor h = (if sh_next_event_cursor h = 0 then 2 ^ 64 else unat (sh_next_event_cursor h))"

abbreviation cursors :: "retained_event list \<Rightarrow> nat list" where
  "cursors rs \<equiv> map (\<lambda>r. unat (ae_cursor (rt_event r))) rs"

definition history_inv :: "snapshot_history \<Rightarrow> bool" where
  "history_inv h \<longleftrightarrow>
     length (sh_events h) < next_cursor h \<and> length (sh_events h) \<le> MAX_AGGREGATED_EVENTS
   \<and> cursors (sh_events h) = [next_cursor h - length (sh_events h) ..< next_cursor h]"

datatype history_op =
    Record generation_role instance_id generation_id u64 worker_status
  | Reap "worker_status option"

fun history_step :: "snapshot_history \<Rightarrow> history_op \<Rightarrow> snapshot_history \<times> u64 option" where
  "history_step h (Record role i g previous status) = map_prod id Some (record_events role i g previous status h)"
| "history_step h (Reap status) = (reap status h, None)"

lemma next_cursor_step:
  "sh_next_event_cursor h \<noteq> 0 \<Longrightarrow>
     next_cursor (h\<lparr>sh_next_event_cursor := (case u64_checked_add (sh_next_event_cursor h) 1 of None \<Rightarrow> 0 | Some c \<Rightarrow> c)\<rparr>)
     = Suc (next_cursor h)"
  by (auto simp: next_cursor_def u64_checked_add_1_None_iff u64_checked_add_Some_iff unat_u64_max
      dest: u64_checked_add_1_Some split: option.split)

lemma next_cursor_events [simp]: "next_cursor (h\<lparr>sh_events := es\<rparr>) = next_cursor h"
  by (simp add: next_cursor_def)

lemma history_inv_push:
  assumes "history_inv h" "sh_next_event_cursor h \<noteq> 0"
  shows "history_inv (push_event role i g e h)"
proof -
  let ?n = "next_cursor h" and ?k = "length (sh_events h)"
  define r where "r = \<lparr>rt_role = role, rt_event = \<lparr>ae_cursor = sh_next_event_cursor h, ae_instance_id = i,
    ae_generation_id = g, ae_worker_event = e\<rparr>\<rparr>"
  define events where "events = sh_events h @ [r]"
  have n: "?n = unat (ae_cursor (rt_event r))" using assms(2) by (simp add: next_cursor_def r_def)
  have k: "?k < ?n" "?k \<le> MAX_AGGREGATED_EVENTS" "cursors (sh_events h) = [?n - ?k ..< ?n]"
    using assms(1) by (simp_all add: history_inv_def)
  have len: "length (drop (length events - MAX_AGGREGATED_EVENTS) events) = min (Suc ?k) MAX_AGGREGATED_EVENTS"
    by (simp add: events_def)
  have "cursors events = [?n - ?k ..< Suc ?n]" using k n by (simp add: events_def)
  then have "cursors (drop (length events - MAX_AGGREGATED_EVENTS) events)
      = drop (length events - MAX_AGGREGATED_EVENTS) [?n - ?k ..< Suc ?n]"
    by (simp only: drop_map [symmetric])
  also have "\<dots> = [Suc ?n - min (Suc ?k) MAX_AGGREGATED_EVENTS ..< Suc ?n]"
    using k by (simp add: drop_upt events_def) (simp add: min_def)
  finally have cs: "cursors (drop (length events - MAX_AGGREGATED_EVENTS) events)
      = [Suc ?n - min (Suc ?k) MAX_AGGREGATED_EVENTS ..< Suc ?n]" .
  have "sh_events (push_event role i g e h) = drop (length events - MAX_AGGREGATED_EVENTS) events"
    by (simp only: push_event_def Let_def events_def r_def) simp
  with len cs have ev: "length (sh_events (push_event role i g e h)) = min (Suc ?k) MAX_AGGREGATED_EVENTS"
    "cursors (sh_events (push_event role i g e h)) = [Suc ?n - min (Suc ?k) MAX_AGGREGATED_EVENTS ..< Suc ?n]"
    by simp_all
  have "next_cursor (push_event role i g e h) = Suc ?n"
    using next_cursor_step [OF assms(2)] by (simp add: push_event_def Let_def)
  with k(1) show ?thesis unfolding history_inv_def ev by auto
qed

lemma history_inv_record_loop: "history_inv h \<Longrightarrow> history_inv (fst (record_loop role i g c es h))"
  by (induction role i g c es h rule: record_loop.induct) (simp_all add: history_inv_push)

lemma history_inv_reap: "history_inv (reap status h) = history_inv h"
  by (simp add: reap_def history_inv_def next_cursor_def split: option.split)

lemma history_inv_step: "history_inv h \<Longrightarrow> history_inv (fst (history_step h op))"
proof (cases op)
  case (Record role i g c status)
  assume "history_inv h"
  then have "history_inv (fst (record_loop role i g c (s_events status) h))" by (rule history_inv_record_loop)
  then show ?thesis by (auto simp: Record record_events_def split: prod.splits)
qed (simp add: history_inv_reap)

lemma history_inv_new: "history_inv history_new"
  by (simp add: history_inv_def history_new_def next_cursor_def)

interpretation history: invariant_machine history_step "\<lambda>h. h = history_new" history_inv
  by unfold_locales (auto simp: history_inv_new history_inv_step)

section \<open>Lemmas about the events of one worker\<close>



















section \<open>Lemmas about the counters\<close>

lemma unat_saturating_add: "unat (u64_saturating_add a b) = min (unat a + unat b) (2 ^ 64 - 1)"
  by (auto simp: u64_saturating_add_def unat_u64_add unat_u64_max)

definition counters :: "worker_metrics \<Rightarrow> nat list" where
  "counters m = [unat (m_accepted_connections m), unat (m_rejected_connections m), unat (m_bytes_received m), unat (m_bytes_sent m)]"

definition counters_of :: "worker_status \<Rightarrow> nat list" where
  "counters_of s = (case s_metrics s of None \<Rightarrow> [0, 0, 0, 0] | Some m \<Rightarrow> counters m)"

lemma counters_add_all: "counters (add_all_metrics a b) = counters (add_cumulative_metrics a b)"
  by (simp add: counters_def add_all_metrics_def)

lemma less_4_cases: "(k :: nat) < 4 \<longleftrightarrow> k = 0 \<or> k = 1 \<or> k = 2 \<or> k = 3"
  by auto

lemma counters_saturate: "k < 4 \<Longrightarrow> counters m ! k \<le> 2 ^ 64 - 1"
proof -
  have "unat (x :: u64) \<le> 2 ^ 64 - 1" for x using unat_u64_bound [of x] by simp
  moreover assume "k < 4"
  ultimately show ?thesis by (auto simp: counters_def less_4_cases)
qed

lemma nth_counters_add:
  "k < 4 \<Longrightarrow> counters (add_cumulative_metrics a b) ! k = min (counters a ! k + counters b ! k) (2 ^ 64 - 1)"
  by (auto simp: counters_def add_cumulative_metrics_def unat_saturating_add less_4_cases)

lemma length_counters [simp]: "length (counters m) = 4"
  by (simp add: counters_def)

lemma nth_counters_status:
  "k < 4 \<Longrightarrow> counters (case s_metrics s of None \<Rightarrow> m | Some v \<Rightarrow> add_cumulative_metrics m v) ! k
     = min (counters m ! k + counters_of s ! k) (2 ^ 64 - 1)"
  using counters_saturate [of k m]
  by (cases "s_metrics s") (auto simp: nth_counters_add counters_of_def less_4_cases)

lemma nth_counters_fold:
  "k < 4 \<Longrightarrow> counters (fold add_source_metrics sources m) ! k
     = min (counters m ! k + (\<Sum>s \<leftarrow> sources. counters_of (src_status s) ! k)) (2 ^ 64 - 1)"
proof (induction sources arbitrary: m)
  case Nil
  then show ?case using counters_saturate [of k m] by simp
next
  case (Cons s sources)
  have "counters (add_source_metrics s m) ! k = min (counters m ! k + counters_of (src_status s) ! k) (2 ^ 64 - 1)"
    using nth_counters_status [OF Cons.prems, where s = "src_status s" and m = m]
    by (simp add: add_source_metrics_def counters_add_all split: option.splits)
  with Cons show ?case by simp
qed

lemma counters_retained:
  "k < 4 \<Longrightarrow> counters_of s ! k \<le> counters_of (retain_monotonic_status s s') ! k"
  by (auto simp: counters_of_def retain_monotonic_status_def retain_metrics_def retain_monotonic_metrics_def counters_def
      nth_Cons' max_def word_le_nat_alt split: option.split)

lemma snapshot_metrics: "snapshot h catalog sources = Ok snap \<Longrightarrow> ss_metrics snap = fold add_source_metrics sources (sh_metrics h)"
  by (auto simp: snapshot_def Let_def)

section \<open>Properties\<close>

text \<open>However observations and reaped workers interleave, the ring holds at most 2048 events with
  consecutive master cursors that end right before the next cursor; \<open>worker_events\<close> therefore returns,
  in order and without a gap, the first \<open>limit\<close> retained events after the cursor it is given.
\<close>

lemma history_cursors_contiguous:
  assumes "h = fst (run history_step history_new ops)"
  shows "length (sh_events h) \<le> MAX_AGGREGATED_EVENTS
    \<and> map (\<lambda>e. unat (ae_cursor e)) (worker_events h c limit)
      = take (min limit MAX_AGGREGATED_EVENTS)
          [max (next_cursor h - length (sh_events h)) (Suc (unat c)) ..< next_cursor h]"
proof -
  have inv: "history_inv h" unfolding assms by (rule history.inv_run) (rule history_inv_new)
  have "filter (\<lambda>n. unat c < n) [a ..< b] = [max a (Suc (unat c)) ..< b]" for a b
    by (induction b) (auto simp: max_def)
  then have "map (\<lambda>r. unat (ae_cursor (rt_event r))) (filter (\<lambda>r. c < ae_cursor (rt_event r)) (sh_events h))
      = [max (next_cursor h - length (sh_events h)) (Suc (unat c)) ..< next_cursor h]"
    using inv filter_map [of "(<) (unat c)" "\<lambda>r. unat (ae_cursor (rt_event r))" "sh_events h"]
    by (simp add: history_inv_def word_less_nat_alt comp_def)
  with inv show ?thesis
    by (simp add: worker_events_def history_inv_def take_map [symmetric] comp_def)
qed


text \<open>The counters of the snapshot never move backwards: reaping a worker leaves the accumulated
  counters as they were, because its last counters move into the history, and a newer status of a worker,
  retained against the previous one, can only increase them (up to saturation).\<close>

lemma snapshot_counters_monotone:
  assumes "snapshot h catalog (xs @ old # ys) = Ok snap"
    and "snapshot (reap (Some (src_status old)) h) catalog' (xs @ ys) = Ok reaped"
    and "src_status new = retain_monotonic_status (src_status old) status"
    and "snapshot h catalog'' (xs @ new # ys) = Ok updated"
  shows "counters (ss_metrics reaped) = counters (ss_metrics snap)
    \<and> list_all2 (\<le>) (counters (ss_metrics snap)) (counters (ss_metrics updated))"
proof
  have reap: "sh_metrics (reap (Some s) h) = (case s_metrics s of None \<Rightarrow> sh_metrics h
      | Some v \<Rightarrow> add_cumulative_metrics (sh_metrics h) v)" for s
    by (simp add: reap_def)
  show "counters (ss_metrics reaped) = counters (ss_metrics snap)"
    by (rule nth_equalityI)
      (auto simp: snapshot_metrics [OF assms(1)] snapshot_metrics [OF assms(2)] nth_counters_fold reap nth_counters_status
        simp del: fold_append fold_simps)
  show "list_all2 (\<le>) (counters (ss_metrics snap)) (counters (ss_metrics updated))"
    unfolding list_all2_conv_all_nth snapshot_metrics [OF assms(1)] snapshot_metrics [OF assms(4)]
  proof (intro conjI allI impI)
    fix k
    assume "k < length (counters (fold add_source_metrics (xs @ old # ys) (sh_metrics h)))"
    then have k: "k < 4" by simp
    have "(\<Sum>s \<leftarrow> xs @ old # ys. counters_of (src_status s) ! k) \<le> (\<Sum>s \<leftarrow> xs @ new # ys. counters_of (src_status s) ! k)"
      using counters_retained [OF k] by (simp add: assms(3))
    then show "counters (fold add_source_metrics (xs @ old # ys) (sh_metrics h)) ! k
        \<le> counters (fold add_source_metrics (xs @ new # ys) (sh_metrics h)) ! k"
      unfolding nth_counters_fold [OF k] by (intro min.mono add_mono order_refl)
  qed simp
qed

section \<open>Witnesses\<close>








end
