(* ===== verification/Master.thy ===== *)
theory Master
  imports Replacement Process Control History Listeners
begin

text \<open>
  The master (\<open>crates/oxiroute-supervisor-master/src/master.rs\<close>): the state machine that owns the
  listeners and the worker processes. It drives the replacement supervisor, turns its actions into
  requests on the authenticated channels, observes acknowledgements, statuses, exits and closed
  channels, and runs start-up, replacement, rollback, shutdown and fail-closed termination.

  Every method on \<open>&mut self\<close> yields the master it leaves behind and its result. The action executor
  is a record of functions over a state that the master owns, as the trait is. What the operating
  system answers during one call is the record \<open>master_env\<close>; the field \<open>m_trace\<close> collects the signals,
  cgroup calls and hand-overs to the reaper that the worker processes perform. An instant and a duration
  are numbers of nanoseconds.
\<close>

section \<open>Types\<close>

type_synonym instant = nat

datatype worker_role = ActiveRole | CandidateRole | RetiredRole

datatype worker_state = WorkerRunning | Terminating bool

datatype master_state =
    Starting | ActivatingInitial | MasterRunning | MasterAdoptingCandidate | MasterQuiescing
  | MasterActivatingCandidate | MasterRollingBack | MasterDrainingRetired | MasterStoppingRetired
  | ShuttingDown | Failing | MasterStopped | MasterFailed

datatype failure_phase =
    ListenerAdoption | Activation | QuiesceFailure | Reactivation | DrainFailure | ShutdownFailure | Crash
  | Disconnected | ProtocolFailure

datatype action_kind = DuplicateListeners | SendPhase control_phase

datatype preparation_step = RequestIdStep | DeadlineStep | EncodingStep | AllocationStep

datatype preparation_error =
    PreparationInjected | RequestIdExhausted | PreparationDeadlineOverflow | PreparationProtocol control_error
  | PreparationAllocation

datatype action_error = ActionListeners listener_error | ActionChannel channel_error | ActionInjected

datatype master_event =
    InitialActivated instance_id
  | SpawnFailed instance_id
  | ReplacementStarted instance_id
  | ReplacementCommitted instance_id instance_id
  | ReplacementCompleted instance_id
  | RollbackStarted instance_id failure_phase
  | RollbackCompleted instance_id
  | ActionFailed worker_role action_kind
  | PreparationFailed worker_role control_phase preparation_step
  | StaleAcknowledgement worker_role u64 control_phase
  | WorkerDisconnected worker_role instance_id
  | WorkerExited worker_role instance_id exit_status
  | TerminationRequested worker_role bool
  | RetiredFailure failure_phase
  | ShutdownStarted
  | ShutdownForced
  | ShutdownCompleted bool
  | FailClosed failure_phase
  | FailedClosed failure_phase
  | WorkerStatusUpdated worker_role instance_id u64
  | StaleStatus worker_role u64

datatype shutdown_progress = ShutdownPending usize bool | ShutdownComplete bool

datatype master_error =
    SpawnError string
  | InvalidState "master_state option"
  | ProtocolVersion u16 u16
  | DeadlineOverflow
  | MissingWorker worker_role
  | MissingSupervisor
  | UnexpectedAcknowledgement
  | UnexpectedReplacementActions
  | MasterProtocol control_error
  | Action action_kind action_error
  | Preparation preparation_step preparation_error
  | MasterIo errno
  | MasterReplacement replacement_error
  | OutOfFuel

record pending =
  pd_request_id :: u64
  pd_phase :: control_phase
  pd_deadline :: instant

record prepared_request =
  pr_pending :: pending
  pr_payload :: bytes

record ('c, 'g, 'fd) managed_worker =
  mw_instance_id :: instance_id
  mw_generation :: generation_id
  mw_process :: "('c, 'g, 'fd) worker_process"
  mw_pending :: "pending option"
  mw_termination_deadline :: "instant option"
  mw_state :: worker_state
  mw_channel_open :: bool
  mw_status :: "worker_status option"
  mw_last_event_cursor :: u64

datatype stage =
    BootAdopting | BootActivating | Operational | StageShuttingDown instant bool | StageFailing failure_phase
  | StageStopped bool | StageFailed

record ('c, 'g, 'fd, 'x) master =
  m_config :: master_config
  m_listeners :: "'fd stable_listeners"
  m_executor :: 'x
  m_supervisor :: "supervisor option"
  m_active :: "('c, 'g, 'fd) managed_worker option"
  m_candidate :: "('c, 'g, 'fd) managed_worker option"
  m_retired :: "('c, 'g, 'fd) managed_worker option"
  m_deferred_active_exit :: "exit_status option"
  m_replacement_failure :: "failure_phase option"
  m_stage :: stage
  m_next_request_id :: u64
  m_events :: "master_event list"
  m_history :: snapshot_history
  m_trace :: "('c, 'g) os_action list"

type_synonym ('c, 'g, 'fd, 'x, 'a) master_result = "('c, 'g, 'fd, 'x) master \<times> (master_error, 'a) result"

text \<open>The trait \<open>ActionExecutor\<close>.\<close>

record ('c, 'g, 'fd, 'x) executor =
  ex_prepare :: "'x \<Rightarrow> worker_role \<Rightarrow> control_phase \<Rightarrow> preparation_step \<Rightarrow> 'x \<times> (preparation_error, unit) result"
  ex_duplicate :: "'x \<Rightarrow> worker_role \<Rightarrow> 'fd stable_listeners \<Rightarrow> 'x \<times> (action_error, 'fd list) result"
  ex_send :: "'x \<Rightarrow> worker_role \<Rightarrow> ('c, 'g, 'fd) worker_process \<Rightarrow> control_phase \<Rightarrow> bytes \<Rightarrow> 'fd list
    \<Rightarrow> 'x \<times> ('c, 'g, 'fd, action_error, unit) process_result"

text \<open>What the system answers during one call: the allocator, the status checks and the receive round
  of each role, and the signals.\<close>

record ('c, 'g, 'fd) master_env =
  me_alloc_limit :: usize
  me_reserve :: "usize \<Rightarrow> bool"
  me_exit :: "worker_role \<Rightarrow> ('c, 'g) os_env"
  me_fd :: "'fd fd_env"
  me_receive :: "worker_role \<Rightarrow> ('c, 'g, 'fd) receive_round"
  me_kill :: "('c, 'g) os_env"

datatype observation =
    ObsAck control_ack | ObsStatus worker_status | ObsExit exit_status | ObsDisconnected | ObsProtocolFailure

record observed =
  ob_instance_id :: instance_id
  ob_observation :: observation

record worker_input =
  in_instance_id :: instance_id
  in_identity :: worker_identity

section \<open>The production executor\<close>

text \<open>Its state is what the kernel will answer: the state behind \<open>fcntl\<close> and, for the \<open>n\<close>th send, the
  status check and the socket.\<close>

record 'k system_state =
  sy_kernel :: 'k
  sy_sent :: nat

definition system_executor ::
  "('k \<Rightarrow> 'fd \<Rightarrow> 'k \<times> (errno, 'fd) result) \<Rightarrow> (nat \<Rightarrow> ('c, 'g) os_env \<times> 'fd send_env)
    \<Rightarrow> ('c, 'g, 'fd, 'k system_state) executor" where
  "system_executor dup sends =
     \<lparr>ex_prepare = (\<lambda>x role phase step. (x, Ok ())),
      ex_duplicate = (\<lambda>x role listeners.
        case listeners_duplicates dup (sy_kernel x) listeners of
          (k, res) \<Rightarrow> (x\<lparr>sy_kernel := k\<rparr>, map_err ActionListeners res)),
      ex_send = (\<lambda>x role process phase payload descriptors.
        case channel_send (fst (sends (sy_sent x))) (snd (sends (sy_sent x))) process (phase_message_type phase) 0 payload
            descriptors of
          (process', acts, res) \<Rightarrow>
            (x\<lparr>sy_sent := Suc (sy_sent x)\<rparr>, process', acts, try_bind (map_err ActionChannel res) (\<lambda>_. Ok ())))\<rparr>"

section \<open>Workers and roles\<close>

definition managed_worker_new :: "instance_id \<Rightarrow> generation_id \<Rightarrow> ('c, 'g, 'fd) worker_process \<Rightarrow> ('c, 'g, 'fd) managed_worker" where
  "managed_worker_new i g process =
     \<lparr>mw_instance_id = i, mw_generation = g, mw_process = process, mw_pending = None, mw_termination_deadline = None,
      mw_state = WorkerRunning, mw_channel_open = True, mw_status = None, mw_last_event_cursor = 0\<rparr>"

fun worker :: "('c, 'g, 'fd, 'x) master \<Rightarrow> worker_role \<Rightarrow> ('c, 'g, 'fd) managed_worker option" where
  "worker m ActiveRole = m_active m"
| "worker m CandidateRole = m_candidate m"
| "worker m RetiredRole = m_retired m"

fun set_worker :: "worker_role \<Rightarrow> ('c, 'g, 'fd) managed_worker option \<Rightarrow> ('c, 'g, 'fd, 'x) master \<Rightarrow> ('c, 'g, 'fd, 'x) master" where
  "set_worker ActiveRole w m = m\<lparr>m_active := w\<rparr>"
| "set_worker CandidateRole w m = m\<lparr>m_candidate := w\<rparr>"
| "set_worker RetiredRole w m = m\<lparr>m_retired := w\<rparr>"

text \<open>An update through \<open>worker_mut(role)?\<close>.\<close>

definition update_worker ::
  "worker_role \<Rightarrow> (('c, 'g, 'fd) managed_worker \<Rightarrow> ('c, 'g, 'fd) managed_worker) \<Rightarrow> ('c, 'g, 'fd, 'x) master
    \<Rightarrow> ('c, 'g, 'fd, 'x, unit) master_result" where
  "update_worker role f m =
     (case worker m role of
        None \<Rightarrow> (m, Err (MissingWorker role))
      | Some w \<Rightarrow> (set_worker role (Some (f w)) m, Ok ()))"

definition take_worker ::
  "worker_role \<Rightarrow> ('c, 'g, 'fd, 'x) master \<Rightarrow> ('c, 'g, 'fd, 'x) master \<times> ('c, 'g, 'fd) managed_worker option" where
  "take_worker role m =
     ((set_worker role None m)\<lparr>m_history := reap (Option.bind (worker m role) mw_status) (m_history m)\<rparr>, worker m role)"

text \<open>\<open>take_worker\<close> with its result dropped: the drop of the process kills what is left of it.\<close>

definition drop_worker ::
  "('c, 'g, 'fd) master_env \<Rightarrow> worker_role \<Rightarrow> ('c, 'g, 'fd, 'x) master \<Rightarrow> ('c, 'g, 'fd, 'x) master" where
  "drop_worker env role m =
     (case take_worker role m of
        (m', None) \<Rightarrow> m'
      | (m', Some w) \<Rightarrow> m'\<lparr>m_trace := m_trace m' @ snd (process_drop (me_kill env) (mw_process w))\<rparr>)"

definition role_for :: "('c, 'g, 'fd, 'x) master \<Rightarrow> instance_id \<Rightarrow> worker_role option" where
  "role_for m i =
     find (\<lambda>role. case worker m role of None \<Rightarrow> False | Some w \<Rightarrow> mw_instance_id w = i) [ActiveRole, CandidateRole, RetiredRole]"

definition worker_count :: "('c, 'g, 'fd, 'x) master \<Rightarrow> usize" where
  "worker_count m = length (filter (\<lambda>role. worker m role \<noteq> None) [ActiveRole, CandidateRole, RetiredRole])"

definition role_id :: "('c, 'g, 'fd, 'x) master \<Rightarrow> worker_role \<Rightarrow> (master_error, instance_id) result" where
  "role_id m role = ok_or (MissingWorker role) (map_option mw_instance_id (worker m role))"

abbreviation active_id :: "('c, 'g, 'fd, 'x) master \<Rightarrow> (master_error, instance_id) result" where
  "active_id m \<equiv> role_id m ActiveRole"

abbreviation candidate_id :: "('c, 'g, 'fd, 'x) master \<Rightarrow> (master_error, instance_id) result" where
  "candidate_id m \<equiv> role_id m CandidateRole"

abbreviation retired_id :: "('c, 'g, 'fd, 'x) master \<Rightarrow> (master_error, instance_id) result" where
  "retired_id m \<equiv> role_id m RetiredRole"

text \<open>\<open>None\<close> also stands for the panic of \<open>phase\<close>, which the supervisor never reaches.\<close>

definition master_phase :: "('c, 'g, 'fd, 'x) master \<Rightarrow> replacement_phase option" where
  "master_phase m = Option.bind (m_supervisor m) phase"

definition emit :: "master_event \<Rightarrow> ('c, 'g, 'fd, 'x) master \<Rightarrow> ('c, 'g, 'fd, 'x) master" where
  "emit event m = m\<lparr>m_events := m_events m @ [event]\<rparr>"

fun master_generation_role :: "worker_role \<Rightarrow> generation_role" where
  "master_generation_role ActiveRole = RoleActive"
| "master_generation_role CandidateRole = RoleCandidate"
| "master_generation_role RetiredRole = RolePrevious"

fun phase_failure :: "control_phase \<Rightarrow> failure_phase" where
  "phase_failure AdoptListeners = ListenerAdoption"
| "phase_failure control_phase.Quiesce = QuiesceFailure"
| "phase_failure control_phase.Activate = Activation"
| "phase_failure control_phase.Drain = DrainFailure"
| "phase_failure control_phase.Reactivate = Reactivation"
| "phase_failure control_phase.Shutdown = ShutdownFailure"

definition channel_disconnected :: "channel_error \<Rightarrow> bool" where
  "channel_disconnected e \<longleftrightarrow>
     e = ChannelClosed \<or> e = ChannelTransport TransportClosed \<or> e = ChannelTransport (TransportIo ECONNRESET)"

definition validate_identity :: "worker_identity \<Rightarrow> (master_error, unit) result" where
  "validate_identity identity =
     (if wi_protocol identity \<noteq> CONTROL_PROTOCOL_VERSION
      then Err (ProtocolVersion CONTROL_PROTOCOL_VERSION (wi_protocol identity)) else Ok ())"

text \<open>\<open>Instant::checked_add\<close>; the seconds of an instant are an \<open>i64\<close>.\<close>

definition instant_add :: "instant \<Rightarrow> duration \<Rightarrow> instant option" where
  "instant_add now timeout = (if now + timeout < 2 ^ 63 * 10 ^ 9 then Some (now + timeout) else None)"

definition is_issue_failure :: "master_error \<Rightarrow> bool" where
  "is_issue_failure e = (case e of Action _ _ \<Rightarrow> True | Preparation _ _ \<Rightarrow> True | _ \<Rightarrow> False)"

definition state :: "('c, 'g, 'fd, 'x) master \<Rightarrow> master_state option" where
  "state m =
     (case m_stage m of
        BootAdopting \<Rightarrow> Some Starting
      | BootActivating \<Rightarrow> Some ActivatingInitial
      | Operational \<Rightarrow>
          map_option (\<lambda>p. case p of
              Running \<Rightarrow> MasterRunning
            | AdoptingCandidate \<Rightarrow> MasterAdoptingCandidate
            | PhaseQuiescing \<Rightarrow> MasterQuiescing
            | ActivatingCandidate \<Rightarrow> MasterActivatingCandidate
            | RollingBack \<Rightarrow> MasterRollingBack
            | DrainingRetired \<Rightarrow> MasterDrainingRetired
            | StoppingRetired \<Rightarrow> MasterStoppingRetired)
            (master_phase m)
      | StageShuttingDown _ _ \<Rightarrow> Some ShuttingDown
      | StageFailing _ \<Rightarrow> Some Failing
      | StageStopped _ \<Rightarrow> Some MasterStopped
      | StageFailed \<Rightarrow> Some MasterFailed)"

definition pending_deadlines :: "('c, 'g, 'fd) managed_worker \<Rightarrow> instant list" where
  "pending_deadlines w = case_option [] (\<lambda>p. [pd_deadline p]) (mw_pending w) @ case_option [] (\<lambda>d. [d]) (mw_termination_deadline w)"

definition next_deadline :: "('c, 'g, 'fd, 'x) master \<Rightarrow> instant option" where
  "next_deadline m =
     (case m_stage m of
        StageShuttingDown deadline _ \<Rightarrow> Some deadline
      | _ \<Rightarrow>
          (let deadlines = concat (map (\<lambda>role. case_option [] pending_deadlines (worker m role))
                 [ActiveRole, CandidateRole, RetiredRole])
           in if deadlines = [] then None else Some (Min (set deadlines))))"

section \<open>Requests\<close>

definition take_request_id :: "('c, 'g, 'fd, 'x) master \<Rightarrow> ('c, 'g, 'fd, 'x) master \<times> (preparation_error, u64) result" where
  "take_request_id m =
     (case u64_checked_add (m_next_request_id m) 1 of
        None \<Rightarrow> (m, Err RequestIdExhausted)
      | Some n \<Rightarrow> (m\<lparr>m_next_request_id := n\<rparr>, Ok (m_next_request_id m)))"

definition prepare_step ::
  "('c, 'g, 'fd, 'x) executor \<Rightarrow> worker_role \<Rightarrow> control_phase \<Rightarrow> preparation_step \<Rightarrow> ('c, 'g, 'fd, 'x) master
    \<Rightarrow> ('c, 'g, 'fd, 'x, unit) master_result" where
  "prepare_step ex role ph step m =
     (case ex_prepare ex (m_executor m) role ph step of
        (x, res) \<Rightarrow> (m\<lparr>m_executor := x\<rparr>, map_err (Preparation step) res))"

definition request_payload ::
  "('c, 'g, 'fd) master_env \<Rightarrow> ('c, 'g, 'fd, 'x) master \<Rightarrow> u64 \<Rightarrow> control_phase \<Rightarrow> bool \<Rightarrow> (master_error, bytes) result" where
  "request_payload env m request_id ph adoption =
     (if adoption
      then map_err (\<lambda>e. Preparation (if e = Allocation then AllocationStep else EncodingStep) (PreparationProtocol e))
             (encode_adopt_request (me_alloc_limit env) request_id (st_manifest (m_listeners m)))
      else
        let encoded = encode_request request_id ph in
        if length encoded \<le> me_alloc_limit env then Ok encoded else Err (Preparation AllocationStep PreparationAllocation))"

definition prepare_request_at_deadline ::
  "('c, 'g, 'fd, 'x) executor \<Rightarrow> ('c, 'g, 'fd) master_env \<Rightarrow> worker_role \<Rightarrow> control_phase \<Rightarrow> instant \<Rightarrow> bool
    \<Rightarrow> ('c, 'g, 'fd, 'x) master \<Rightarrow> ('c, 'g, 'fd, 'x, prepared_request) master_result" where
  "prepare_request_at_deadline ex env role ph deadline adoption m =
     seq_bind (prepare_step ex role ph RequestIdStep m) (\<lambda>m _.
     seq_bind (map_prod id (map_err (Preparation RequestIdStep)) (take_request_id m)) (\<lambda>m request_id.
     seq_bind (prepare_step ex role ph EncodingStep m) (\<lambda>m _.
     seq_bind (prepare_step ex role ph AllocationStep m) (\<lambda>m _.
     seq_bind (m, request_payload env m request_id ph adoption) (\<lambda>m payload.
     (m, Ok \<lparr>pr_pending = \<lparr>pd_request_id = request_id, pd_phase = ph, pd_deadline = deadline\<rparr>, pr_payload = payload\<rparr>))))))"

definition prepare_request ::
  "('c, 'g, 'fd, 'x) executor \<Rightarrow> ('c, 'g, 'fd) master_env \<Rightarrow> worker_role \<Rightarrow> control_phase \<Rightarrow> instant \<Rightarrow> duration \<Rightarrow> bool
    \<Rightarrow> ('c, 'g, 'fd, 'x) master \<Rightarrow> ('c, 'g, 'fd, 'x, prepared_request) master_result" where
  "prepare_request ex env role ph now timeout adoption m =
     seq_bind (prepare_step ex role ph DeadlineStep m) (\<lambda>m _.
     seq_bind (m, ok_or (Preparation DeadlineStep PreparationDeadlineOverflow) (instant_add now timeout)) (\<lambda>m deadline.
     prepare_request_at_deadline ex env role ph deadline adoption m))"

definition dispatch ::
  "('c, 'g, 'fd, 'x) executor \<Rightarrow> worker_role \<Rightarrow> prepared_request \<Rightarrow> 'fd list \<Rightarrow> ('c, 'g, 'fd, 'x) master
    \<Rightarrow> ('c, 'g, 'fd, 'x, unit) master_result" where
  "dispatch ex role request descriptors m =
     (case worker m role of
        None \<Rightarrow> (m, Err (MissingWorker role))
      | Some w \<Rightarrow>
          let ph = pd_phase (pr_pending request);
              (x, process, acts, res) = ex_send ex (m_executor m) role (mw_process w) ph (pr_payload request) descriptors;
              w1 = w\<lparr>mw_process := process\<rparr>;
              m1 = (set_worker role (Some w1) m)\<lparr>m_executor := x, m_trace := m_trace m @ acts\<rparr>
          in case res of
               Err e \<Rightarrow> (m1, Err (Action (SendPhase ph) e))
             | Ok _ \<Rightarrow> (set_worker role (Some (w1\<lparr>mw_pending := Some (pr_pending request)\<rparr>)) m1, Ok ()))"

definition issue_adoption ::
  "('c, 'g, 'fd, 'x) executor \<Rightarrow> ('c, 'g, 'fd) master_env \<Rightarrow> worker_role \<Rightarrow> instant \<Rightarrow> ('c, 'g, 'fd, 'x) master
    \<Rightarrow> ('c, 'g, 'fd, 'x, unit) master_result" where
  "issue_adoption ex env role now m =
     seq_bind (prepare_request ex env role AdoptListeners now (adoption_timeout (m_config m)) True m) (\<lambda>m request.
     let (x, duplicates) = ex_duplicate ex (m_executor m) role (m_listeners m) in
     seq_bind (m\<lparr>m_executor := x\<rparr>, map_err (Action DuplicateListeners) duplicates) (\<lambda>m duplicates.
     dispatch ex role request duplicates m))"

definition issue ::
  "('c, 'g, 'fd, 'x) executor \<Rightarrow> ('c, 'g, 'fd) master_env \<Rightarrow> worker_role \<Rightarrow> control_phase \<Rightarrow> instant \<Rightarrow> duration
    \<Rightarrow> ('c, 'g, 'fd, 'x) master \<Rightarrow> ('c, 'g, 'fd, 'x, instant) master_result" where
  "issue ex env role ph now timeout m =
     seq_bind (prepare_request ex env role ph now timeout False m) (\<lambda>m request.
     seq_bind (dispatch ex role request [] m) (\<lambda>m _. (m, Ok (pd_deadline (pr_pending request)))))"

definition issue_at_deadline ::
  "('c, 'g, 'fd, 'x) executor \<Rightarrow> ('c, 'g, 'fd) master_env \<Rightarrow> worker_role \<Rightarrow> control_phase \<Rightarrow> instant
    \<Rightarrow> ('c, 'g, 'fd, 'x) master \<Rightarrow> ('c, 'g, 'fd, 'x, unit) master_result" where
  "issue_at_deadline ex env role ph deadline m =
     seq_bind (prepare_step ex role ph DeadlineStep m) (\<lambda>m _.
     seq_bind (prepare_request_at_deadline ex env role ph deadline False m) (\<lambda>m request.
     dispatch ex role request [] m))"

section \<open>Termination of workers\<close>

definition mark_terminating ::
  "worker_role \<Rightarrow> bool \<Rightarrow> ('c, 'g, 'fd, 'x) master \<Rightarrow> ('c, 'g, 'fd, 'x, unit) master_result" where
  "mark_terminating role forced m =
     seq_bind (update_worker role (\<lambda>w. w\<lparr>mw_state := Terminating forced\<rparr>) m) (\<lambda>m _.
     (emit (TerminationRequested role forced) m, Ok ()))"

definition force_role ::
  "('c, 'g, 'fd) master_env \<Rightarrow> worker_role \<Rightarrow> ('c, 'g, 'fd, 'x) master \<Rightarrow> ('c, 'g, 'fd, 'x, unit) master_result" where
  "force_role env role m =
     (if map_option mw_state (worker m role) = Some (Terminating True) then (m, Ok ())
      else
        case worker m role of
          None \<Rightarrow> (m, Err (MissingWorker role))
        | Some w \<Rightarrow>
            let (process, acts, res) = request_kill (me_kill env) (mw_process w);
                w1 = w\<lparr>mw_process := process\<rparr>;
                m1 = (set_worker role (Some w1) m)\<lparr>m_trace := m_trace m @ acts\<rparr>
            in case res of
                 Err e \<Rightarrow> (m1, Err (MasterIo e))
               | Ok _ \<Rightarrow>
                   (emit (TerminationRequested role True)
                      (set_worker role (Some (w1\<lparr>mw_pending := None, mw_state := Terminating True\<rparr>)) m1), Ok ()))"

fun force_roles ::
  "('c, 'g, 'fd) master_env \<Rightarrow> worker_role list \<Rightarrow> ('c, 'g, 'fd, 'x) master \<Rightarrow> ('c, 'g, 'fd, 'x, unit) master_result" where
  "force_roles env [] m = (m, Ok ())"
| "force_roles env (role # roles) m =
     seq_bind (if worker m role \<noteq> None then force_role env role m else (m, Ok ())) (\<lambda>m _. force_roles env roles m)"

definition fail_master ::
  "('c, 'g, 'fd) master_env \<Rightarrow> failure_phase \<Rightarrow> ('c, 'g, 'fd, 'x) master \<Rightarrow> ('c, 'g, 'fd, 'x, unit) master_result" where
  "fail_master env ph m =
     (if m_stage m = StageFailed then (m, Ok ())
      else
        let m1 = (case m_stage m of StageFailing _ \<Rightarrow> m | _ \<Rightarrow> emit (FailClosed ph) (m\<lparr>m_stage := StageFailing ph\<rparr>));
            m2 = (case m_deferred_active_exit m1 of
                    None \<Rightarrow> m1
                  | Some _ \<Rightarrow> drop_worker env ActiveRole (m1\<lparr>m_deferred_active_exit := None\<rparr>))
        in force_roles env [ActiveRole, CandidateRole, RetiredRole] m2)"

section \<open>Replacement events and their actions\<close>

text \<open>
  Applying a replacement event executes actions, a failing action is compensated, and the compensation
  applies further events. The definitions up to \<open>execute_replacement_actions\<close> take the nested
  application of an event as the argument \<open>again\<close>; \<open>apply_replacement_event\<close> closes the circle with a
  fuel that counts the nesting.
\<close>

type_synonym ('c, 'g, 'fd, 'x) event_handler =
  "replacement_event \<Rightarrow> ('c, 'g, 'fd, 'x) master \<Rightarrow> ('c, 'g, 'fd, 'x, unit) master_result"

definition maybe_finish_rollback :: "('c, 'g, 'fd, 'x) master \<Rightarrow> ('c, 'g, 'fd, 'x, unit) master_result" where
  "maybe_finish_rollback m =
     (if master_phase m = Some Running \<and> m_replacement_failure m \<noteq> None
      then seq_bind (m\<lparr>m_replacement_failure := None\<rparr>, active_id m) (\<lambda>m active. (emit (RollbackCompleted active) m, Ok ()))
      else (m, Ok ()))"

definition begin_rollback ::
  "('c, 'g, 'fd, 'x) event_handler \<Rightarrow> ('c, 'g, 'fd) master_env \<Rightarrow> failure_phase \<Rightarrow> ('c, 'g, 'fd, 'x) master
    \<Rightarrow> ('c, 'g, 'fd, 'x, unit) master_result" where
  "begin_rollback again env failure m =
     (if m_deferred_active_exit m \<noteq> None then fail_master env Crash m
      else
        case Option.bind (m_supervisor m) sup_candidate of
          None \<Rightarrow> (m, Err (MissingWorker CandidateRole))
        | Some c \<Rightarrow>
            seq_bind (again (CandidateFailed (inst_id c))
              (emit (RollbackStarted (inst_id c) failure) (m\<lparr>m_replacement_failure := Some failure\<rparr>))) (\<lambda>m _.
            maybe_finish_rollback m))"

definition fail_retired ::
  "('c, 'g, 'fd, 'x) event_handler \<Rightarrow> failure_phase \<Rightarrow> ('c, 'g, 'fd, 'x) master \<Rightarrow> ('c, 'g, 'fd, 'x, unit) master_result" where
  "fail_retired again failure m =
     seq_bind (m, retired_id m) (\<lambda>m retired. again (RetiredFailed retired) (m\<lparr>m_replacement_failure := Some failure\<rparr>))"

definition handle_phase_failure ::
  "('c, 'g, 'fd, 'x) event_handler \<Rightarrow> ('c, 'g, 'fd) master_env \<Rightarrow> worker_role \<Rightarrow> failure_phase \<Rightarrow> ('c, 'g, 'fd, 'x) master
    \<Rightarrow> ('c, 'g, 'fd, 'x, unit) master_result" where
  "handle_phase_failure again env role failure m =
     (case m_stage m of
        Operational \<Rightarrow>
          if role = CandidateRole
               \<and> master_phase m \<in> {Some AdoptingCandidate, Some PhaseQuiescing, Some ActivatingCandidate}
             \<or> role = ActiveRole \<and> master_phase m = Some PhaseQuiescing
          then begin_rollback again env failure m
          else if role = RetiredRole \<and> master_phase m \<in> {Some DrainingRetired, Some StoppingRetired}
          then fail_retired again failure m
          else fail_master env failure m
      | StageShuttingDown _ _ \<Rightarrow> force_role env role m
      | _ \<Rightarrow> fail_master env failure m)"

definition record_issue_failure ::
  "worker_role \<Rightarrow> control_phase \<Rightarrow> master_error \<Rightarrow> ('c, 'g, 'fd, 'x) master \<Rightarrow> ('c, 'g, 'fd, 'x, unit) master_result" where
  "record_issue_failure role ph e m =
     (case e of
        Action action _ \<Rightarrow> (emit (ActionFailed role action) m, Ok ())
      | Preparation step _ \<Rightarrow> (emit (PreparationFailed role ph step) m, Ok ())
      | _ \<Rightarrow> (m, Err e))"

definition compensate_issue_error ::
  "('c, 'g, 'fd, 'x) event_handler \<Rightarrow> ('c, 'g, 'fd) master_env \<Rightarrow> worker_role \<Rightarrow> control_phase \<Rightarrow> failure_phase
    \<Rightarrow> master_error \<Rightarrow> ('c, 'g, 'fd, 'x) master \<Rightarrow> ('c, 'g, 'fd, 'x, unit) master_result" where
  "compensate_issue_error again env role ph failure e m =
     seq_bind (record_issue_failure role ph e m) (\<lambda>m _. handle_phase_failure again env role failure m)"

definition issue_or_compensate ::
  "('c, 'g, 'fd, 'x) event_handler \<Rightarrow> ('c, 'g, 'fd, 'x) executor \<Rightarrow> ('c, 'g, 'fd) master_env \<Rightarrow> worker_role \<Rightarrow> control_phase
    \<Rightarrow> instant \<Rightarrow> duration \<Rightarrow> failure_phase \<Rightarrow> ('c, 'g, 'fd, 'x) master \<Rightarrow> ('c, 'g, 'fd, 'x, unit) master_result" where
  "issue_or_compensate again ex env role ph now timeout failure m =
     (case issue ex env role ph now timeout m of
        (m', Ok _) \<Rightarrow> (m', Ok ())
      | (m', Err e) \<Rightarrow> compensate_issue_error again env role ph failure e m')"

definition master_commit_candidate ::
  "instance_id \<Rightarrow> ('c, 'g, 'fd, 'x) master \<Rightarrow> ('c, 'g, 'fd, 'x, unit) master_result" where
  "master_commit_candidate retired m =
     (case m_supervisor m of
        None \<Rightarrow> (m, Err MissingSupervisor)
      | Some s \<Rightarrow>
          let candidate = inst_id (sup_active s) in
          seq_bind (m, active_id m) (\<lambda>m active.
          if active \<noteq> retired then (m, Err UnexpectedReplacementActions)
          else
            seq_bind (m, candidate_id m) (\<lambda>m current.
            if current \<noteq> candidate then (m, Err UnexpectedReplacementActions)
            else
              (emit (ReplacementCommitted candidate retired)
                 (m\<lparr>m_active := m_candidate m, m_candidate := None, m_retired := m_active m\<rparr>), Ok ()))))"

definition complete_replacement :: "('c, 'g, 'fd, 'x) master \<Rightarrow> ('c, 'g, 'fd, 'x, unit) master_result" where
  "complete_replacement m =
     seq_bind (m, active_id m) (\<lambda>m active. (emit (ReplacementCompleted active) m, Ok ()))"

definition complete_failed_retired :: "('c, 'g, 'fd, 'x) master \<Rightarrow> ('c, 'g, 'fd, 'x, unit) master_result" where
  "complete_failed_retired m =
     (case m_replacement_failure m of
        None \<Rightarrow> (m, Err UnexpectedReplacementActions)
      | Some failure \<Rightarrow> complete_replacement (emit (RetiredFailure failure) (m\<lparr>m_replacement_failure := None\<rparr>)))"

definition supervisor_apply ::
  "replacement_event \<Rightarrow> ('c, 'g, 'fd, 'x) master \<Rightarrow> ('c, 'g, 'fd, 'x, replacement_action list) master_result" where
  "supervisor_apply event m =
     (case m_supervisor m of
        None \<Rightarrow> (m, Err MissingSupervisor)
      | Some s \<Rightarrow> (case apply_event s event of (s', res) \<Rightarrow> (m\<lparr>m_supervisor := Some s'\<rparr>, map_err MasterReplacement res)))"

type_synonym ('c, 'g, 'fd) spawn_action = "service_instance \<Rightarrow> (master_error, ('c, 'g, 'fd) managed_worker) result"

definition execute_spawn ::
  "('c, 'g, 'fd) spawn_action option \<Rightarrow> service_instance \<Rightarrow> ('c, 'g, 'fd, 'x) master \<Rightarrow> ('c, 'g, 'fd, 'x, unit) master_result" where
  "execute_spawn spawn i m =
     (case spawn of
        None \<Rightarrow> (m, Err UnexpectedReplacementActions)
      | Some f \<Rightarrow>
          (case f i of
             Err e \<Rightarrow> (emit (SpawnFailed (inst_id i)) m, Err e)
           | Ok w \<Rightarrow> (emit (ReplacementStarted (inst_id i)) (m\<lparr>m_candidate := Some w\<rparr>), Ok ())))"

definition execute_prepare ::
  "('c, 'g, 'fd, 'x) event_handler \<Rightarrow> ('c, 'g, 'fd, 'x) executor \<Rightarrow> ('c, 'g, 'fd) master_env \<Rightarrow> instant \<Rightarrow> instance_id
    \<Rightarrow> ('c, 'g, 'fd, 'x) master \<Rightarrow> ('c, 'g, 'fd, 'x, unit) master_result" where
  "execute_prepare again ex env now i m =
     (case role_for m i of
        None \<Rightarrow> (m, Err (MissingWorker CandidateRole))
      | Some role \<Rightarrow>
          if role \<noteq> CandidateRole then (m, Err UnexpectedReplacementActions)
          else
            case issue_adoption ex env role now m of
              (m', Ok _) \<Rightarrow> (m', Ok ())
            | (m', Err e) \<Rightarrow> compensate_issue_error again env role AdoptListeners ListenerAdoption e m')"

definition execute_activate ::
  "('c, 'g, 'fd, 'x) event_handler \<Rightarrow> ('c, 'g, 'fd, 'x) executor \<Rightarrow> ('c, 'g, 'fd) master_env \<Rightarrow> instant \<Rightarrow> instance_id
    \<Rightarrow> ('c, 'g, 'fd, 'x) master \<Rightarrow> ('c, 'g, 'fd, 'x, unit) master_result" where
  "execute_activate again ex env now i m =
     (case role_for m i of
        Some ActiveRole \<Rightarrow>
          issue_or_compensate again ex env ActiveRole control_phase.Reactivate now (activation_timeout (m_config m)) Reactivation m
      | Some CandidateRole \<Rightarrow>
          issue_or_compensate again ex env CandidateRole control_phase.Activate now (activation_timeout (m_config m)) Activation m
      | _ \<Rightarrow> (m, Err UnexpectedReplacementActions))"

definition execute_quiesce ::
  "('c, 'g, 'fd, 'x) event_handler \<Rightarrow> ('c, 'g, 'fd, 'x) executor \<Rightarrow> ('c, 'g, 'fd) master_env \<Rightarrow> instant \<Rightarrow> instance_id
    \<Rightarrow> ('c, 'g, 'fd, 'x) master \<Rightarrow> ('c, 'g, 'fd, 'x, unit) master_result" where
  "execute_quiesce again ex env now i m =
     (if role_for m i \<noteq> Some ActiveRole then (m, Err UnexpectedReplacementActions)
      else issue_or_compensate again ex env ActiveRole control_phase.Quiesce now (quiesce_timeout (m_config m)) QuiesceFailure m)"

definition execute_drain ::
  "('c, 'g, 'fd, 'x) event_handler \<Rightarrow> ('c, 'g, 'fd, 'x) executor \<Rightarrow> ('c, 'g, 'fd) master_env \<Rightarrow> instant \<Rightarrow> instance_id
    \<Rightarrow> ('c, 'g, 'fd, 'x) master \<Rightarrow> ('c, 'g, 'fd, 'x, unit) master_result" where
  "execute_drain again ex env now i m =
     seq_bind (master_commit_candidate i m) (\<lambda>m _.
       case m_deferred_active_exit m of
         Some _ \<Rightarrow>
           seq_bind (fail_retired again Crash (m\<lparr>m_deferred_active_exit := None\<rparr>)) (\<lambda>m _.
           seq_bind (m, retired_id m) (\<lambda>m retired.
           seq_bind (again (RetiredStopped retired) (drop_worker env RetiredRole m)) (\<lambda>m _.
           complete_failed_retired m)))
       | None \<Rightarrow>
           issue_or_compensate again ex env RetiredRole control_phase.Drain now (drain_timeout (m_config m)) DrainFailure m)"

definition execute_terminate ::
  "('c, 'g, 'fd, 'x) event_handler \<Rightarrow> ('c, 'g, 'fd, 'x) executor \<Rightarrow> ('c, 'g, 'fd) master_env \<Rightarrow> instant \<Rightarrow> instance_id
    \<Rightarrow> ('c, 'g, 'fd, 'x) master \<Rightarrow> ('c, 'g, 'fd, 'x, unit) master_result" where
  "execute_terminate again ex env now i m =
     (case role_for m i of
        Some CandidateRole \<Rightarrow> force_role env CandidateRole m
      | Some RetiredRole \<Rightarrow>
          (case issue ex env RetiredRole control_phase.Shutdown now (shutdown_timeout (m_config m)) m of
             (m', Ok deadline) \<Rightarrow>
               seq_bind (mark_terminating RetiredRole False m') (\<lambda>m _.
               update_worker RetiredRole (\<lambda>w. w\<lparr>mw_termination_deadline := Some deadline\<rparr>) m)
           | (m', Err e) \<Rightarrow>
               if is_issue_failure e
               then seq_bind (record_issue_failure RetiredRole control_phase.Shutdown e m') (\<lambda>m _.
                    fail_retired again ShutdownFailure m)
               else (m', Err e))
      | _ \<Rightarrow> (m, Err UnexpectedReplacementActions))"

definition execute_kill ::
  "('c, 'g, 'fd) master_env \<Rightarrow> instance_id \<Rightarrow> ('c, 'g, 'fd, 'x) master \<Rightarrow> ('c, 'g, 'fd, 'x, unit) master_result" where
  "execute_kill env i m =
     (case role_for m i of
        None \<Rightarrow> (m, Err UnexpectedReplacementActions)
      | Some role \<Rightarrow> force_role env role m)"

text \<open>The queue of actions: a snapshot is captured at once and its actions join the queue.\<close>

lemma seq_bind_cong [fundef_cong]:
  "m = m' \<Longrightarrow> (\<And>s a. m' = (s, Ok a) \<Longrightarrow> k s a = k' s a) \<Longrightarrow> seq_bind m k = seq_bind m' k'"
  by (auto simp: seq_bind_def split: prod.splits sum.splits)

fun action_weight :: "replacement_action \<Rightarrow> nat" where
  "action_weight (Snapshot _) = 2"
| "action_weight _ = 1"

lemma snapshot_captured_actions:
  "supervisor_apply (RetiredSnapshotCaptured i) m = (m', Ok extra) \<Longrightarrow> sum_list (map action_weight extra) \<le> 1"
  by (auto simp: supervisor_apply_def seq_bind_def split: option.splits prod.splits sum.splits)

function execute_replacement_actions ::
  "('c, 'g, 'fd, 'x) event_handler \<Rightarrow> ('c, 'g, 'fd, 'x) executor \<Rightarrow> ('c, 'g, 'fd) master_env \<Rightarrow> instant
    \<Rightarrow> ('c, 'g, 'fd) spawn_action option \<Rightarrow> replacement_action list \<Rightarrow> ('c, 'g, 'fd, 'x) master
    \<Rightarrow> ('c, 'g, 'fd, 'x, unit) master_result" where
  "execute_replacement_actions again ex env now spawn [] m = (m, Ok ())"
| "execute_replacement_actions again ex env now spawn (replacement_action.Spawn i # actions) m =
     seq_bind (execute_spawn spawn i m) (\<lambda>m _.
     execute_replacement_actions again ex env now (map_option (\<lambda>_ _. Err UnexpectedReplacementActions) spawn) actions m)"
| "execute_replacement_actions again ex env now spawn (replacement_action.Prepare i # actions) m =
     seq_bind (execute_prepare again ex env now i m) (\<lambda>m _. execute_replacement_actions again ex env now spawn actions m)"
| "execute_replacement_actions again ex env now spawn (replacement_action.Activate i # actions) m =
     seq_bind (execute_activate again ex env now i m) (\<lambda>m _. execute_replacement_actions again ex env now spawn actions m)"
| "execute_replacement_actions again ex env now spawn (replacement_action.Quiesce i # actions) m =
     seq_bind (execute_quiesce again ex env now i m) (\<lambda>m _. execute_replacement_actions again ex env now spawn actions m)"
| "execute_replacement_actions again ex env now spawn (replacement_action.Drain i # actions) m =
     seq_bind (execute_drain again ex env now i m) (\<lambda>m _. execute_replacement_actions again ex env now spawn actions m)"
| "execute_replacement_actions again ex env now spawn (replacement_action.Snapshot i # actions) m =
     seq_bind (supervisor_apply (RetiredSnapshotCaptured i) m) (\<lambda>m extra.
     execute_replacement_actions again ex env now spawn (actions @ extra) m)"
| "execute_replacement_actions again ex env now spawn (replacement_action.Terminate i # actions) m =
     seq_bind (execute_terminate again ex env now i m) (\<lambda>m _. execute_replacement_actions again ex env now spawn actions m)"
| "execute_replacement_actions again ex env now spawn (replacement_action.Kill i # actions) m =
     seq_bind (execute_kill env i m) (\<lambda>m _. execute_replacement_actions again ex env now spawn actions m)"
  by pat_completeness auto
termination
  by (relation "measure (\<lambda>(again, ex, env, now, spawn, actions, m). sum_list (map action_weight actions))")
    (auto dest: snapshot_captured_actions)

fun apply_replacement_event ::
  "nat \<Rightarrow> ('c, 'g, 'fd, 'x) executor \<Rightarrow> ('c, 'g, 'fd) master_env \<Rightarrow> instant \<Rightarrow> ('c, 'g, 'fd, 'x) event_handler" where
  "apply_replacement_event 0 ex env now event m = (m, Err OutOfFuel)"
| "apply_replacement_event (Suc n) ex env now event m =
     seq_bind (supervisor_apply event m) (\<lambda>m actions.
     execute_replacement_actions (apply_replacement_event n ex env now) ex env now None actions m)"

text \<open>Events nest because a failed request is compensated by a further event; the fuel of 4 is never used up.\<close>

abbreviation handle_event :: "('c, 'g, 'fd, 'x) executor \<Rightarrow> ('c, 'g, 'fd) master_env \<Rightarrow> instant \<Rightarrow> ('c, 'g, 'fd, 'x) event_handler" where
  "handle_event \<equiv> apply_replacement_event 4"

section \<open>Observations\<close>

definition observe_frame :: "('c, 'g, 'fd) master_env \<Rightarrow> 'fd authenticated_frame \<Rightarrow> observation" where
  "observe_frame env frame =
     (if fh_message_type (af_header frame) = ACK
      then (case decode_ack frame of Ok ack \<Rightarrow> ObsAck ack | Err _ \<Rightarrow> ObsProtocolFailure)
      else if fh_message_type (af_header frame) = STATUS_MESSAGE
      then (case decode_status (me_reserve env) frame of Ok status \<Rightarrow> ObsStatus status | Err _ \<Rightarrow> ObsProtocolFailure)
      else ObsProtocolFailure)"

definition observe ::
  "('c, 'g, 'fd) master_env \<Rightarrow> worker_role \<Rightarrow> ('c, 'g, 'fd, 'x) master \<Rightarrow> ('c, 'g, 'fd, 'x, observed option) master_result" where
  "observe env role m =
     (if role = ActiveRole \<and> m_deferred_active_exit m \<noteq> None \<and> master_phase m = Some ActivatingCandidate
      then (m, Ok None)
      else
        case worker m role of
          None \<Rightarrow> (m, Ok None)
        | Some w \<Rightarrow>
            let (process, acts, res) = process_poll_event (me_exit env role) (mw_process w);
                w1 = w\<lparr>mw_process := process\<rparr>;
                m1 = (set_worker role (Some w1) m)\<lparr>m_trace := m_trace m @ acts\<rparr>
            in case res of
                 Err e \<Rightarrow> (m1, Err (MasterIo e))
               | Ok (Some (ProcessGroupExited status)) \<Rightarrow>
                   (m1, Ok (Some \<lparr>ob_instance_id = mw_instance_id w, ob_observation = ObsExit status\<rparr>))
               | Ok None \<Rightarrow>
                   if \<not> mw_channel_open w then (m1, Ok None)
                   else
                     let (process, acts, received) = channel_try_receive (me_fd env) (me_receive env role) (mw_process w1);
                         w2 = w1\<lparr>mw_process := process,
                           mw_channel_open := (case received of Err e \<Rightarrow> \<not> channel_disconnected e | Ok _ \<Rightarrow> True)\<rparr>;
                         m2 = (set_worker role (Some w2) m1)\<lparr>m_trace := m_trace m1 @ acts\<rparr>;
                         observation = (case received of
                             Ok (Some frame) \<Rightarrow> Some (observe_frame env frame)
                           | Ok None \<Rightarrow> None
                           | Err (WorkerGroupExited status) \<Rightarrow> Some (ObsExit status)
                           | Err e \<Rightarrow> Some (if channel_disconnected e then ObsDisconnected else ObsProtocolFailure))
                     in (m2, Ok (map_option (\<lambda>ob. \<lparr>ob_instance_id = mw_instance_id w, ob_observation = ob\<rparr>) observation)))"

fun observe_all ::
  "('c, 'g, 'fd) master_env \<Rightarrow> worker_role list \<Rightarrow> ('c, 'g, 'fd, 'x) master \<Rightarrow> ('c, 'g, 'fd, 'x, observed list) master_result" where
  "observe_all env [] m = (m, Ok [])"
| "observe_all env (role # roles) m =
     seq_bind (observe env role m) (\<lambda>m first.
     seq_bind (observe_all env roles m) (\<lambda>m rest. (m, Ok (case_option [] (\<lambda>ob. [ob]) first @ rest))))"

definition handle_status ::
  "worker_role \<Rightarrow> worker_status \<Rightarrow> ('c, 'g, 'fd, 'x) master \<Rightarrow> ('c, 'g, 'fd, 'x, unit) master_result" where
  "handle_status role status m =
     (case worker m role of
        None \<Rightarrow> (m, Err (MissingWorker role))
      | Some w \<Rightarrow>
          if s_sequence status \<le> (case mw_status w of None \<Rightarrow> 0 | Some previous \<Rightarrow> s_sequence previous)
          then (emit (StaleStatus role (s_sequence status)) m, Ok ())
          else
            let (history, event_cursor) = record_events (master_generation_role role) (mw_instance_id w) (mw_generation w)
                  (mw_last_event_cursor w) status (m_history m);
                retained = (case mw_status w of None \<Rightarrow> status | Some previous \<Rightarrow> retain_monotonic_status previous status)
            in (emit (WorkerStatusUpdated role (mw_instance_id w) (s_sequence status))
                  (set_worker role (Some (w\<lparr>mw_last_event_cursor := event_cursor, mw_status := Some retained\<rparr>))
                    (m\<lparr>m_history := history\<rparr>)), Ok ()))"

definition handle_phase_success ::
  "('c, 'g, 'fd, 'x) executor \<Rightarrow> ('c, 'g, 'fd) master_env \<Rightarrow> instant \<Rightarrow> worker_role \<Rightarrow> control_phase \<Rightarrow> ('c, 'g, 'fd, 'x) master
    \<Rightarrow> ('c, 'g, 'fd, 'x, unit) master_result" where
  "handle_phase_success ex env now role ph m =
     (case m_stage m of
        BootAdopting \<Rightarrow>
          if role = ActiveRole \<and> ph = AdoptListeners
          then issue_or_compensate (handle_event ex env now) ex env ActiveRole control_phase.Activate now
                 (activation_timeout (m_config m)) Activation (m\<lparr>m_stage := BootActivating\<rparr>)
          else (m, Err UnexpectedAcknowledgement)
      | BootActivating \<Rightarrow>
          if role = ActiveRole \<and> ph = control_phase.Activate
          then
            (case m_active m of
               None \<Rightarrow> (m, Err (MissingWorker ActiveRole))
             | Some w \<Rightarrow>
                 (case supervisor_new \<lparr>inst_id = mw_instance_id w, inst_generation = mw_generation w, inst_lifecycle = Active\<rparr> of
                    Err e \<Rightarrow> (m, Err (MasterReplacement e))
                  | Ok s \<Rightarrow>
                      (emit (InitialActivated (mw_instance_id w)) (m\<lparr>m_supervisor := Some s, m_stage := Operational\<rparr>), Ok ())))
          else (m, Err UnexpectedAcknowledgement)
      | Operational \<Rightarrow>
          if role = CandidateRole \<and> ph = AdoptListeners \<and> master_phase m = Some AdoptingCandidate
          then seq_bind (m, candidate_id m) (\<lambda>m i. handle_event ex env now (CandidatePrepared i) m)
          else if role = ActiveRole \<and> ph = control_phase.Quiesce \<and> master_phase m = Some PhaseQuiescing
          then seq_bind (m, active_id m) (\<lambda>m i. handle_event ex env now (ActiveQuiesced i) m)
          else if role = CandidateRole \<and> ph = control_phase.Activate \<and> master_phase m = Some ActivatingCandidate
          then seq_bind (m, candidate_id m) (\<lambda>m i. handle_event ex env now (CandidateActivated i) m)
          else if role = ActiveRole \<and> ph = control_phase.Reactivate \<and> master_phase m = Some RollingBack
          then seq_bind (m, active_id m) (\<lambda>m i.
               seq_bind (handle_event ex env now (ActiveReactivated i) m) (\<lambda>m _. maybe_finish_rollback m))
          else if role = RetiredRole \<and> ph = control_phase.Drain \<and> master_phase m = Some DrainingRetired
          then seq_bind (m, retired_id m) (\<lambda>m i. handle_event ex env now (RetiredDrained i) m)
          else if role = RetiredRole \<and> ph = control_phase.Shutdown \<and> master_phase m = Some StoppingRetired
          then (m, Ok ())
          else (m, Err UnexpectedAcknowledgement)
      | StageShuttingDown _ _ \<Rightarrow> (m, if ph = control_phase.Shutdown then Ok () else Err UnexpectedAcknowledgement)
      | _ \<Rightarrow> (m, Err UnexpectedAcknowledgement))"

definition handle_ack ::
  "('c, 'g, 'fd, 'x) executor \<Rightarrow> ('c, 'g, 'fd) master_env \<Rightarrow> instant \<Rightarrow> worker_role \<Rightarrow> control_ack \<Rightarrow> ('c, 'g, 'fd, 'x) master
    \<Rightarrow> ('c, 'g, 'fd, 'x, unit) master_result" where
  "handle_ack ex env now role ack m =
     (if (case Option.bind (worker m role) mw_pending of
            None \<Rightarrow> True
          | Some p \<Rightarrow> pd_request_id p \<noteq> ca_request_id ack \<or> pd_phase p \<noteq> ca_phase ack)
      then (emit (StaleAcknowledgement role (ca_request_id ack) (ca_phase ack)) m, Ok ())
      else
        seq_bind (update_worker role (\<lambda>w. w\<lparr>mw_pending := None\<rparr>) m) (\<lambda>m _.
          case ca_outcome ack of
            Rejected _ \<Rightarrow> handle_phase_failure (handle_event ex env now) env role (phase_failure (ca_phase ack)) m
          | Accepted \<Rightarrow> handle_phase_success ex env now role (ca_phase ack) m))"

definition handle_disconnect ::
  "('c, 'g, 'fd, 'x) executor \<Rightarrow> ('c, 'g, 'fd) master_env \<Rightarrow> instant \<Rightarrow> worker_role \<Rightarrow> ('c, 'g, 'fd, 'x) master
    \<Rightarrow> ('c, 'g, 'fd, 'x, unit) master_result" where
  "handle_disconnect ex env now role m =
     seq_bind (m, role_id m role) (\<lambda>m i.
     let m1 = emit (WorkerDisconnected role i) m in
     case map_option mw_state (worker m1 role) of
       Some (Terminating _) \<Rightarrow> (m1, Ok ())
     | _ \<Rightarrow> handle_phase_failure (handle_event ex env now) env role Disconnected m1)"

definition handle_exit ::
  "('c, 'g, 'fd, 'x) executor \<Rightarrow> ('c, 'g, 'fd) master_env \<Rightarrow> instant \<Rightarrow> worker_role \<Rightarrow> exit_status \<Rightarrow> ('c, 'g, 'fd, 'x) master
    \<Rightarrow> ('c, 'g, 'fd, 'x, unit) master_result" where
  "handle_exit ex env now role status m =
     seq_bind (m, role_id m role) (\<lambda>m i.
     let m1 = emit (WorkerExited role i status) m;
         again = handle_event ex env now
     in if master_phase m = Some ActivatingCandidate \<and> role = ActiveRole
        then (m1\<lparr>m_deferred_active_exit := Some status\<rparr>, Ok ())
        else
          case m_stage m1 of
            StageFailing _ \<Rightarrow> (drop_worker env role m1, Ok ())
          | StageShuttingDown _ _ \<Rightarrow> (drop_worker env role m1, Ok ())
          | Operational \<Rightarrow>
              if master_phase m1 = Some RollingBack \<and> role = CandidateRole
              then seq_bind (again (CandidateStopped i) (drop_worker env role m1)) (\<lambda>m _. maybe_finish_rollback m)
              else if master_phase m1 = Some StoppingRetired \<and> role = RetiredRole
              then seq_bind (again (RetiredStopped i) (drop_worker env role m1)) (\<lambda>m _.
                   if m_replacement_failure m \<noteq> None then complete_failed_retired m else complete_replacement m)
              else if master_phase m1 \<in> {Some AdoptingCandidate, Some PhaseQuiescing, Some ActivatingCandidate}
                \<and> role = CandidateRole
              then seq_bind (begin_rollback again env Crash m1) (\<lambda>m _.
                   seq_bind (again (CandidateStopped i) (drop_worker env role m)) (\<lambda>m _. maybe_finish_rollback m))
              else if master_phase m1 = Some DrainingRetired \<and> role = RetiredRole
              then seq_bind (fail_retired again Crash m1) (\<lambda>m _.
                   seq_bind (again (RetiredStopped i) (drop_worker env role m)) (\<lambda>m _. complete_failed_retired m))
              else fail_master env Crash (drop_worker env role m1)
          | _ \<Rightarrow> fail_master env Crash (drop_worker env role m1))"

definition handle_observation ::
  "('c, 'g, 'fd, 'x) executor \<Rightarrow> ('c, 'g, 'fd) master_env \<Rightarrow> instant \<Rightarrow> worker_role \<Rightarrow> observation \<Rightarrow> ('c, 'g, 'fd, 'x) master
    \<Rightarrow> ('c, 'g, 'fd, 'x, unit) master_result" where
  "handle_observation ex env now role ob m =
     (case ob of
        ObsAck ack \<Rightarrow> handle_ack ex env now role ack m
      | ObsStatus status \<Rightarrow> handle_status role status m
      | ObsExit status \<Rightarrow> handle_exit ex env now role status m
      | ObsDisconnected \<Rightarrow> handle_disconnect ex env now role m
      | ObsProtocolFailure \<Rightarrow> handle_phase_failure (handle_event ex env now) env role ProtocolFailure m)"

fun handle_observed ::
  "('c, 'g, 'fd, 'x) executor \<Rightarrow> ('c, 'g, 'fd) master_env \<Rightarrow> instant \<Rightarrow> observed list \<Rightarrow> ('c, 'g, 'fd, 'x) master
    \<Rightarrow> ('c, 'g, 'fd, 'x, unit) master_result" where
  "handle_observed ex env now [] m = (m, Ok ())"
| "handle_observed ex env now (item # items) m =
     (case role_for m (ob_instance_id item) of
        None \<Rightarrow> handle_observed ex env now items m
      | Some role \<Rightarrow>
          seq_bind (handle_observation ex env now role (ob_observation item) m) (\<lambda>m _. handle_observed ex env now items m))"

section \<open>Deadlines\<close>

definition all_roles :: "worker_role list" where
  "all_roles = [ActiveRole, CandidateRole, RetiredRole]"

definition handle_timeout ::
  "('c, 'g, 'fd, 'x) executor \<Rightarrow> ('c, 'g, 'fd) master_env \<Rightarrow> instant \<Rightarrow> ('c, 'g, 'fd, 'x) master
    \<Rightarrow> ('c, 'g, 'fd, 'x, unit) master_result" where
  "handle_timeout ex env now m =
     (case next_deadline m of
        None \<Rightarrow> (m, Ok ())
      | Some deadline \<Rightarrow>
          if now < deadline then (m, Ok ())
          else
            case m_stage m of
              StageShuttingDown deadline forced \<Rightarrow>
                (let m1 = (if forced then m else emit ShutdownForced m)
                 in force_roles env all_roles (m1\<lparr>m_stage := StageShuttingDown deadline True\<rparr>))
            | _ \<Rightarrow>
                if master_phase m = Some StoppingRetired
                  \<and> (case Option.bind (m_retired m) mw_termination_deadline of None \<Rightarrow> False | Some d \<Rightarrow> d \<le> now)
                then
                  seq_bind (m, retired_id m) (\<lambda>m retired.
                  seq_bind (update_worker RetiredRole (\<lambda>w. w\<lparr>mw_termination_deadline := None\<rparr>)
                    (m\<lparr>m_replacement_failure := Some ShutdownFailure\<rparr>)) (\<lambda>m _.
                  handle_event ex env now (TerminationTimedOut retired) m))
                else
                  (case find (\<lambda>role. case Option.bind (worker m role) mw_pending of
                        None \<Rightarrow> False | Some p \<Rightarrow> pd_deadline p \<le> now) all_roles of
                     None \<Rightarrow> (m, Ok ())
                   | Some role \<Rightarrow>
                       let failure = (case Option.bind (worker m role) mw_pending of
                             None \<Rightarrow> ProtocolFailure | Some p \<Rightarrow> phase_failure (pd_phase p))
                       in seq_bind (update_worker role (\<lambda>w. w\<lparr>mw_pending := None\<rparr>) m) (\<lambda>m _.
                          handle_phase_failure (handle_event ex env now) env role failure m)))"

definition finish_terminal_states :: "('c, 'g, 'fd, 'x) master \<Rightarrow> ('c, 'g, 'fd, 'x) master" where
  "finish_terminal_states m =
     (if worker_count m \<noteq> 0 then m
      else
        case m_stage m of
          StageShuttingDown _ forced \<Rightarrow> emit (ShutdownCompleted forced) (m\<lparr>m_stage := StageStopped forced\<rparr>)
        | StageFailing failure \<Rightarrow> emit (FailedClosed failure) (m\<lparr>m_stage := StageFailed\<rparr>)
        | _ \<Rightarrow> m)"

section \<open>Public operations\<close>

definition launch_with_executor ::
  "('c, 'g, 'fd, 'x) executor \<Rightarrow> ('c, 'g, 'fd) master_env \<Rightarrow> master_config \<Rightarrow> 'fd stable_listeners \<Rightarrow> 'x \<Rightarrow> worker_input
    \<Rightarrow> (string, ('c, 'g, 'fd) worker_process) result \<Rightarrow> instant \<Rightarrow> (master_error, ('c, 'g, 'fd, 'x) master) result" where
  "launch_with_executor ex env config listeners executor active spawned now =
     try_bind (validate_identity (in_identity active)) (\<lambda>_.
     try_bind (map_err SpawnError spawned) (\<lambda>process.
     let m = \<lparr>m_config = config, m_listeners = listeners, m_executor = executor, m_supervisor = None,
           m_active = Some (managed_worker_new (in_instance_id active) (wi_generation (in_identity active)) process),
           m_candidate = None, m_retired = None, m_deferred_active_exit = None, m_replacement_failure = None,
           m_stage = BootAdopting, m_next_request_id = 1, m_events = [], m_history = history_new, m_trace = []\<rparr>
     in case issue_adoption ex env ActiveRole now m of
          (m', Ok _) \<Rightarrow> Ok m'
        | (m', Err e) \<Rightarrow>
            (case compensate_issue_error (handle_event ex env now) env ActiveRole AdoptListeners ListenerAdoption e m' of
               (m'', Ok _) \<Rightarrow> Ok m''
             | (_, Err e') \<Rightarrow> Err e')))"

text \<open>\<open>spawned\<close> is what the factory answers when the closure calls it.\<close>

definition replace ::
  "('c, 'g, 'fd, 'x) executor \<Rightarrow> ('c, 'g, 'fd) master_env \<Rightarrow> worker_input \<Rightarrow> (string, ('c, 'g, 'fd) worker_process) result
    \<Rightarrow> instant \<Rightarrow> ('c, 'g, 'fd, 'x) master \<Rightarrow> ('c, 'g, 'fd, 'x, unit) master_result" where
  "replace ex env candidate spawned now m =
     (if state m \<noteq> Some MasterRunning then (m, Err (InvalidState (state m)))
      else
        seq_bind (m, validate_identity (in_identity candidate)) (\<lambda>m _.
        let generation = wi_generation (in_identity candidate);
            i = \<lparr>inst_id = in_instance_id candidate, inst_generation = generation, inst_lifecycle = Spawned\<rparr>
        in case m_supervisor m of
             None \<Rightarrow> (m, Err MissingSupervisor)
           | Some s \<Rightarrow>
               (case apply_event s (Begin i) of
                  (_, Err e) \<Rightarrow> (m, Err (MasterReplacement e))
                | (validated, Ok actions) \<Rightarrow>
                    let spawn = (\<lambda>i. try_bind (map_err SpawnError spawned) (\<lambda>process.
                          Ok (managed_worker_new (inst_id i) generation process)))
                    in case execute_replacement_actions (handle_event ex env now) ex env now (Some spawn) actions
                           (m\<lparr>m_supervisor := Some validated\<rparr>) of
                         (m', Err e) \<Rightarrow> (m'\<lparr>m_supervisor := Some s\<rparr>, Err e)
                       | (m', Ok _) \<Rightarrow>
                           seq_bind (handle_event ex env now (CandidateSpawned (in_instance_id candidate)) m') (\<lambda>m _.
                           handle_event ex env now (CandidateHandshakeComplete (in_instance_id candidate)) m))))"

text \<open>The stable sort by \<open>!candidate_activation\<close>.\<close>

definition activation_first :: "instance_id option \<Rightarrow> observed list \<Rightarrow> observed list" where
  "activation_first candidate items =
     (let activates = (\<lambda>item. candidate = Some (ob_instance_id item)
            \<and> (case ob_observation item of
                 ObsAck ack \<Rightarrow> ca_phase ack = control_phase.Activate \<and> ca_outcome ack = Accepted
               | _ \<Rightarrow> False))
      in filter activates items @ filter (\<lambda>item. \<not> activates item) items)"

definition poll ::
  "('c, 'g, 'fd, 'x) executor \<Rightarrow> ('c, 'g, 'fd) master_env \<Rightarrow> instant \<Rightarrow> ('c, 'g, 'fd, 'x) master
    \<Rightarrow> ('c, 'g, 'fd, 'x, master_event list) master_result" where
  "poll ex env now m =
     seq_bind (handle_timeout ex env now m) (\<lambda>m _.
     seq_bind (case m_stage m of StageFailing failure \<Rightarrow> fail_master env failure m | _ \<Rightarrow> (m, Ok ())) (\<lambda>m _.
     let prioritize = (master_phase m = Some ActivatingCandidate);
         candidate = map_option mw_instance_id (m_candidate m)
     in seq_bind (observe_all env all_roles m) (\<lambda>m observed.
        seq_bind (handle_observed ex env now (if prioritize then activation_first candidate observed else observed) m) (\<lambda>m _.
        let m1 = finish_terminal_states m
        in (m1\<lparr>m_events := []\<rparr>, Ok (m_events m1))))))"

definition master_shutdown_progress :: "('c, 'g, 'fd, 'x) master \<Rightarrow> shutdown_progress" where
  "master_shutdown_progress m =
     (case m_stage m of
        StageStopped forced \<Rightarrow> ShutdownComplete forced
      | StageShuttingDown _ forced \<Rightarrow> ShutdownPending (worker_count m) forced
      | _ \<Rightarrow> ShutdownPending (worker_count m) False)"

definition shutdown_role ::
  "('c, 'g, 'fd, 'x) executor \<Rightarrow> ('c, 'g, 'fd) master_env \<Rightarrow> instant \<Rightarrow> worker_role \<Rightarrow> ('c, 'g, 'fd, 'x) master
    \<Rightarrow> ('c, 'g, 'fd, 'x, unit) master_result" where
  "shutdown_role ex env deadline role m =
     (if worker m role = None then (m, Ok ())
      else
        case issue_at_deadline ex env role control_phase.Shutdown deadline m of
          (m', Ok _) \<Rightarrow> mark_terminating role False m'
        | (m', Err e) \<Rightarrow>
            if is_issue_failure e
            then
              seq_bind (record_issue_failure role control_phase.Shutdown e m') (\<lambda>m _.
              seq_bind (force_role env role m) (\<lambda>m _.
              (case m_stage m of StageShuttingDown d _ \<Rightarrow> m\<lparr>m_stage := StageShuttingDown d True\<rparr> | _ \<Rightarrow> m, Ok ())))
            else (m', Err e))"

fun shutdown_roles ::
  "('c, 'g, 'fd, 'x) executor \<Rightarrow> ('c, 'g, 'fd) master_env \<Rightarrow> instant \<Rightarrow> worker_role list \<Rightarrow> ('c, 'g, 'fd, 'x) master
    \<Rightarrow> ('c, 'g, 'fd, 'x, unit) master_result" where
  "shutdown_roles ex env deadline [] m = (m, Ok ())"
| "shutdown_roles ex env deadline (role # roles) m =
     seq_bind (shutdown_role ex env deadline role m) (\<lambda>m _. shutdown_roles ex env deadline roles m)"

definition begin_shutdown ::
  "('c, 'g, 'fd, 'x) executor \<Rightarrow> ('c, 'g, 'fd) master_env \<Rightarrow> instant \<Rightarrow> ('c, 'g, 'fd, 'x) master
    \<Rightarrow> ('c, 'g, 'fd, 'x, unit) master_result" where
  "begin_shutdown ex env now m =
     seq_bind (m, ok_or DeadlineOverflow (instant_add now (shutdown_timeout (m_config m)))) (\<lambda>m deadline.
     let m1 = (case m_deferred_active_exit m of
                 None \<Rightarrow> m
               | Some _ \<Rightarrow> drop_worker env ActiveRole (m\<lparr>m_deferred_active_exit := None\<rparr>))
     in shutdown_roles ex env deadline all_roles
          (emit ShutdownStarted (m1\<lparr>m_stage := StageShuttingDown deadline False, m_supervisor := None,
             m_replacement_failure := None\<rparr>)))"

definition shutdown ::
  "('c, 'g, 'fd, 'x) executor \<Rightarrow> ('c, 'g, 'fd) master_env \<Rightarrow> instant \<Rightarrow> ('c, 'g, 'fd, 'x) master
    \<Rightarrow> ('c, 'g, 'fd, 'x, shutdown_progress) master_result" where
  "shutdown ex env now m =
     seq_bind (case m_stage m of
         StageShuttingDown _ _ \<Rightarrow> (m, Ok ())
       | StageStopped _ \<Rightarrow> (m, Ok ())
       | _ \<Rightarrow> begin_shutdown ex env now m) (\<lambda>m _.
     seq_bind (handle_timeout ex env now m) (\<lambda>m _. (m, Ok (master_shutdown_progress m))))"

definition snapshot_sources :: "('c, 'g, 'fd, 'x) master \<Rightarrow> snapshot_source list" where
  "snapshot_sources m =
     List.map_filter (\<lambda>role. Option.bind (worker m role) (\<lambda>w. map_option (\<lambda>status.
         \<lparr>src_role = master_generation_role role, src_instance_id = mw_instance_id w, src_generation_id = mw_generation w,
          src_status = status\<rparr>) (mw_status w))) all_roles"

definition master_snapshot ::
  "('c, 'g, 'fd, 'x) master \<Rightarrow> ('r, 't) catalog \<Rightarrow> (snapshot_error, 'r supervisor_snapshot) result" where
  "master_snapshot m catalog = snapshot (m_history m) catalog (snapshot_sources m)"

end
