(* ===== verification/Master_View.thy ===== *)
theory Master_View
  imports Master
begin

text \<open>
  A view of the master that keeps what its control flow depends on: the stage, the supervisor, the
  deferred exit, the failure of a replacement, the next request identity and, for each role, the
  identity, the pending request and the state of the worker. The contract \<open>ends\<close> states what a
  computation leaves in the view and what it returns; its rules follow the structure of the code.
\<close>

section \<open>The view\<close>

record worker_view =
  v_id :: instance_id
  v_generation :: generation_id
  v_pending :: "pending option"
  v_state :: worker_state

record master_view =
  v_stage :: stage
  v_supervisor :: "supervisor option"
  v_deferred :: "exit_status option"
  v_failure :: "failure_phase option"
  v_worker :: "worker_role \<Rightarrow> worker_view option"
  v_next :: u64

definition worker_view :: "('c, 'g, 'fd) managed_worker \<Rightarrow> worker_view" where
  "worker_view w = \<lparr>v_id = mw_instance_id w, v_generation = mw_generation w, v_pending = mw_pending w, v_state = mw_state w\<rparr>"

definition view :: "('c, 'g, 'fd, 'x) master \<Rightarrow> master_view" where
  "view m = \<lparr>v_stage = m_stage m, v_supervisor = m_supervisor m, v_deferred = m_deferred_active_exit m,
     v_failure = m_replacement_failure m, v_worker = (\<lambda>role. map_option worker_view (worker m role)),
     v_next = m_next_request_id m\<rparr>"

lemma worker_view_simps [simp]:
  "v_id (worker_view w) = mw_instance_id w"
  "v_generation (worker_view w) = mw_generation w"
  "v_pending (worker_view w) = mw_pending w"
  "v_state (worker_view w) = mw_state w"
  "worker_view (w\<lparr>mw_process := p\<rparr>) = worker_view w"
  "worker_view (w\<lparr>mw_channel_open := b\<rparr>) = worker_view w"
  "worker_view (w\<lparr>mw_status := s\<rparr>) = worker_view w"
  "worker_view (w\<lparr>mw_last_event_cursor := c\<rparr>) = worker_view w"
  "worker_view (w\<lparr>mw_termination_deadline := d\<rparr>) = worker_view w"
  "worker_view (w\<lparr>mw_pending := p'\<rparr>) = (worker_view w)\<lparr>v_pending := p'\<rparr>"
  "worker_view (w\<lparr>mw_state := st\<rparr>) = (worker_view w)\<lparr>v_state := st\<rparr>"
  by (simp_all add: worker_view_def)

text \<open>The fields of the master are read through the view.\<close>

lemma to_view [simp]:
  "m_stage m = v_stage (view m)" "m_supervisor m = v_supervisor (view m)" "m_deferred_active_exit m = v_deferred (view m)"
  "m_replacement_failure m = v_failure (view m)" "m_next_request_id m = v_next (view m)"
  "m_active m = worker m ActiveRole" "m_candidate m = worker m CandidateRole" "m_retired m = worker m RetiredRole"
  by (simp_all add: view_def)

declare worker.simps [simp del]

lemma v_worker_view: "v_worker (view m) role = map_option worker_view (worker m role)"
  by (simp add: view_def del: to_view)

lemma worker_SomeD: "worker m role = Some w \<Longrightarrow> v_worker (view m) role = Some (worker_view w)"
  by (simp add: v_worker_view)

lemma worker_state_view [simp]: "map_option mw_state (worker m role) = map_option v_state (v_worker (view m) role)"
  by (simp add: v_worker_view option.map_comp comp_def)

lemma worker_pending_view [simp]: "Option.bind (worker m role) mw_pending = Option.bind (v_worker (view m) role) v_pending"
  by (cases "worker m role") (simp_all add: v_worker_view)

lemma worker_None [simp]: "worker m role = None \<longleftrightarrow> v_worker (view m) role = None"
  by (simp add: v_worker_view)

lemma worker_fields [simp]:
  "worker (m\<lparr>m_config := a\<rparr>) role = worker m role"
  "worker (m\<lparr>m_executor := b\<rparr>) role = worker m role"
  "worker (m\<lparr>m_supervisor := c\<rparr>) role = worker m role"
  "worker (m\<lparr>m_deferred_active_exit := d\<rparr>) role = worker m role"
  "worker (m\<lparr>m_replacement_failure := e\<rparr>) role = worker m role"
  "worker (m\<lparr>m_stage := f\<rparr>) role = worker m role"
  "worker (m\<lparr>m_next_request_id := g\<rparr>) role = worker m role"
  "worker (m\<lparr>m_events := h\<rparr>) role = worker m role"
  "worker (m\<lparr>m_history := i\<rparr>) role = worker m role"
  "worker (m\<lparr>m_trace := j\<rparr>) role = worker m role"
  "worker (emit event m) role = worker m role"
  by (cases role; simp add: emit_def worker.simps del: to_view)+

lemma worker_set_worker [simp]: "worker (set_worker role w m) role' = (if role' = role then w else worker m role')"
  by (cases role; cases role'; simp add: worker.simps del: to_view)

lemma worker_set_roles [simp]:
  "worker (m\<lparr>m_active := w\<rparr>) role = (if role = ActiveRole then w else worker m role)"
  "worker (m\<lparr>m_candidate := w\<rparr>) role = (if role = CandidateRole then w else worker m role)"
  "worker (m\<lparr>m_retired := w\<rparr>) role = (if role = RetiredRole then w else worker m role)"
  by (cases role; simp add: worker.simps del: to_view)+

lemma view_fields [simp]:
  "view (m\<lparr>m_config := a\<rparr>) = view m"
  "view (m\<lparr>m_executor := b\<rparr>) = view m"
  "view (m\<lparr>m_supervisor := c\<rparr>) = (view m)\<lparr>v_supervisor := c\<rparr>"
  "view (m\<lparr>m_deferred_active_exit := d\<rparr>) = (view m)\<lparr>v_deferred := d\<rparr>"
  "view (m\<lparr>m_replacement_failure := e\<rparr>) = (view m)\<lparr>v_failure := e\<rparr>"
  "view (m\<lparr>m_stage := f\<rparr>) = (view m)\<lparr>v_stage := f\<rparr>"
  "view (m\<lparr>m_next_request_id := g\<rparr>) = (view m)\<lparr>v_next := g\<rparr>"
  "view (m\<lparr>m_events := h\<rparr>) = view m"
  "view (m\<lparr>m_history := i\<rparr>) = view m"
  "view (m\<lparr>m_trace := j\<rparr>) = view m"
  "view (emit event m) = view m"
  by (simp_all add: view_def emit_def fun_eq_iff del: to_view)

lemma set_worker_fields [simp]:
  "m_config (set_worker role w m) = m_config m" "m_listeners (set_worker role w m) = m_listeners m"
  "m_executor (set_worker role w m) = m_executor m" "m_trace (set_worker role w m) = m_trace m"
  "m_history (set_worker role w m) = m_history m" "m_events (set_worker role w m) = m_events m"
  by (cases role; simp)+

lemma emit_fields [simp]:
  "m_config (emit e m) = m_config m" "m_listeners (emit e m) = m_listeners m"
  "m_executor (emit e m) = m_executor m" "m_trace (emit e m) = m_trace m" "m_history (emit e m) = m_history m"
  by (simp_all add: emit_def)

lemma view_set_worker [simp]:
  "view (set_worker role w m) = (view m)\<lparr>v_worker := (v_worker (view m))(role := map_option worker_view w)\<rparr>"
  by (cases role) (simp_all add: view_def fun_eq_iff del: to_view)

lemma view_set_roles [simp]:
  "view (m\<lparr>m_active := w\<rparr>) = (view m)\<lparr>v_worker := (v_worker (view m))(ActiveRole := map_option worker_view w)\<rparr>"
  "view (m\<lparr>m_candidate := w\<rparr>) = (view m)\<lparr>v_worker := (v_worker (view m))(CandidateRole := map_option worker_view w)\<rparr>"
  "view (m\<lparr>m_retired := w\<rparr>) = (view m)\<lparr>v_worker := (v_worker (view m))(RetiredRole := map_option worker_view w)\<rparr>"
  using view_set_worker [of ActiveRole w m] view_set_worker [of CandidateRole w m] view_set_worker [of RetiredRole w m]
  by simp_all

lemma view_drop_worker [simp]:
  "view (drop_worker env role m) = (view m)\<lparr>v_worker := (v_worker (view m))(role := None)\<rparr>"
  by (simp add: drop_worker_def take_worker_def split: option.split)

definition view_phase :: "master_view \<Rightarrow> replacement_phase option" where
  "view_phase v = Option.bind (v_supervisor v) phase"

lemma master_phase_view: "master_phase m = view_phase (view m)"
  by (simp add: master_phase_def view_phase_def)

definition view_role :: "master_view \<Rightarrow> instance_id \<Rightarrow> worker_role option" where
  "view_role v i = find (\<lambda>role. map_option v_id (v_worker v role) = Some i) [ActiveRole, CandidateRole, RetiredRole]"

lemma role_for_view: "role_for m i = view_role (view m) i"
proof -
  have "(case worker m role of None \<Rightarrow> False | Some w \<Rightarrow> mw_instance_id w = i)
      = (map_option v_id (v_worker (view m) role) = Some i)" for role
    by (simp add: v_worker_view del: worker_None split: option.split)
  then show ?thesis by (simp only: role_for_def view_role_def)
qed

lemma role_id_view: "role_id m role = ok_or (MissingWorker role) (map_option v_id (v_worker (view m) role))"
  by (simp add: role_id_def v_worker_view option.map_comp comp_def del: worker_None)

section \<open>Contracts of computations\<close>

definition ends :: "('c, 'g, 'fd, 'x, 'a) master_result \<Rightarrow> (master_view \<Rightarrow> (master_error, 'a) result \<Rightarrow> bool) \<Rightarrow> bool" where
  "ends c Q \<longleftrightarrow> Q (view (fst c)) (snd c)"

named_theorems ends_intro \<open>contracts of the operations of the master\<close>

lemma ends_return [simp]: "ends (m, r) Q = Q (view m) r"
  by (simp add: ends_def)

lemma ends_mono: "ends c P \<Longrightarrow> (\<And>v r. P v r \<Longrightarrow> Q v r) \<Longrightarrow> ends c Q"
  by (simp add: ends_def)

lemma ends_seq:
  assumes "ends c P" and "\<And>m a. P (view m) (Ok a) \<Longrightarrow> ends (k m a) Q" and "\<And>v e. P v (Err e) \<Longrightarrow> Q v (Err e)"
  shows "ends (seq_bind c k) Q"
  using assms by (cases c; cases "snd c") (auto simp: ends_def)

lemma ends_try:
  assumes "\<And>a. r = Ok a \<Longrightarrow> ends (k m a) Q" and "\<And>e. r = Err e \<Longrightarrow> Q (view m) (Err e)"
  shows "ends (seq_bind (m, r) k) Q"
  using assms by (cases r) auto

text \<open>A computation that always succeeds and leaves a view with \<open>P\<close>.\<close>

abbreviation ends_ok :: "('c, 'g, 'fd, 'x, 'a) master_result \<Rightarrow> (master_view \<Rightarrow> bool) \<Rightarrow> bool" where
  "ends_ok c P \<equiv> ends c (\<lambda>v r. is_ok r \<and> P v)"

lemma ends_ok_seq:
  assumes "ends_ok c P" and "\<And>m a. P (view m) \<Longrightarrow> ends (k m a) Q"
  shows "ends (seq_bind c k) Q"
  using assms by (cases c; cases "snd c") (auto simp: ends_def)

text \<open>The system calls of one call succeed: signals reach the group or find it gone, and the status
  of a child can be read.\<close>

definition os_ok :: "('c, 'g, 'fd) master_env \<Rightarrow> bool" where
  "os_ok env \<longleftrightarrow> (\<forall>g. os_kill_cgroup (me_kill env) g = Ok ())
     \<and> (\<forall>p s. os_kill_group (me_kill env) p s = Ok () \<or> os_kill_group (me_kill env) p s = Err ESRCH)
     \<and> (\<forall>role c. is_ok (os_try_wait (me_exit env role) c))"

lemma signal_group_ok: "os_ok env \<Longrightarrow> signal_group (me_kill env) p s = Ok ()"
  by (cases "os_kill_group (me_kill env) p s") (auto simp: os_ok_def signal_group_def, metis Inl_inject sum.distinct(1))

lemma request_kill_ok: "os_ok env \<Longrightarrow> \<exists>acts. request_kill (me_kill env) process = (process, acts, Ok ())"
proof -
  assume os: "os_ok env"
  then have "os_kill_cgroup (me_kill env) g = Ok ()" for g by (simp add: os_ok_def)
  with os show ?thesis
    by (simp add: request_kill_def leader_signal_group_def signal_group_ok split: option.split)
qed

lemma leader_refresh_ok:
  assumes "\<And>c. is_ok (os_try_wait env c)"
  shows "\<exists>ls' acts st. leader_refresh env ls = (ls', acts, Ok st)"
proof (cases "ls_status ls")
  case None
  show ?thesis
  proof (cases "ls_child ls")
    case (Some c)
    then obtain st where "os_try_wait env c = Ok st" using assms [of c] by (auto simp: is_ok_iff)
    with None Some show ?thesis by (cases st) (simp_all add: leader_refresh_def split: prod.split)
  qed (simp add: None leader_refresh_def)
qed (simp add: leader_refresh_def)

lemma poll_event_ok: "os_ok env \<Longrightarrow> \<exists>process' acts ev. process_poll_event (me_exit env role) process = (process', acts, Ok ev)"
proof -
  assume "os_ok env"
  then obtain ls acts st where "leader_refresh (me_exit env role) (wp_leader process) = (ls, acts, Ok st)"
    using leader_refresh_ok [of "me_exit env role" "wp_leader process"] by (auto simp: os_ok_def)
  then show ?thesis by (cases st) (simp_all add: process_poll_event_def leader_poll_event_def)
qed

section \<open>Contracts of requests\<close>

lemma view_same [simp]:
  "v_worker v role = Some w \<Longrightarrow> v\<lparr>v_worker := (v_worker v)(role := Some w)\<rparr> = v"
  by (cases v) (simp add: fun_eq_iff)

lemma view_next_eq [simp]:
  "v\<lparr>v_next := n\<rparr> = v\<lparr>v_next := n'\<rparr> \<longleftrightarrow> n = n'" "v = v\<lparr>v_next := n\<rparr> \<longleftrightarrow> n = v_next v" "v\<lparr>v_next := n\<rparr> = v \<longleftrightarrow> n = v_next v"
  by (cases v; auto)+

definition sent :: "master_view \<Rightarrow> worker_role \<Rightarrow> pending \<Rightarrow> master_view" where
  "sent v role p = v\<lparr>v_worker := (v_worker v)(role := map_option (\<lambda>w. w\<lparr>v_pending := Some p\<rparr>) (v_worker v role))\<rparr>"

lemma prepare_step_ends:
  "ends (prepare_step ex role ph step m) (\<lambda>v r. v = view m \<and> (r = Ok () \<or> (\<exists>e. r = Err e \<and> is_issue_failure e)))"
  by (auto simp: prepare_step_def is_issue_failure_def map_err_def split: prod.split sum.split)

lemma take_request_id_ends:
  "ends (map_prod id (map_err (Preparation RequestIdStep)) (take_request_id m))
     (\<lambda>v r. (r = Ok (v_next (view m)) \<and> (\<exists>n. v_next (view m) < n \<and> v = (view m)\<lparr>v_next := n\<rparr>))
       \<or> (\<exists>e. r = Err e \<and> is_issue_failure e \<and> v = view m))"
  by (auto simp: take_request_id_def is_issue_failure_def dest: u64_checked_add_1_Some split: option.split)

lemma deadline_failure: "ok_or (Preparation step pe) x = Err e \<Longrightarrow> is_issue_failure e"
  by (cases x) (auto simp: is_issue_failure_def)

lemma request_payload_failure: "request_payload env m rid ph adoption = Err e \<Longrightarrow> is_issue_failure e"
  by (cases "encode_adopt_request (me_alloc_limit env) rid (st_manifest (m_listeners m))")
    (auto simp: request_payload_def is_issue_failure_def Let_def split: if_splits)

text \<open>Preparing a request only moves the next request identity on.\<close>

definition prepared :: "master_view \<Rightarrow> control_phase \<Rightarrow> master_view \<Rightarrow> (master_error, prepared_request) result \<Rightarrow> bool" where
  "prepared v ph v' r \<longleftrightarrow>
     (\<exists>n. v' = v\<lparr>v_next := n\<rparr>
      \<and> (case r of
           Ok request \<Rightarrow> pd_phase (pr_pending request) = ph \<and> pd_request_id (pr_pending request) = v_next v \<and> v_next v < n
         | Err e \<Rightarrow> is_issue_failure e \<and> v_next v \<le> n))"

lemma prepare_request_at_deadline_ends:
  "ends (prepare_request_at_deadline ex env role ph deadline adoption m) (prepared (view m) ph)"
  unfolding prepare_request_at_deadline_def
  by (rule ends_seq [OF prepare_step_ends] ends_seq [OF take_request_id_ends] ends_try)+
    (auto simp: prepared_def dest: request_payload_failure)

lemma prepare_request_ends: "ends (prepare_request ex env role ph now timeout adoption m) (prepared (view m) ph)"
  unfolding prepare_request_def
  by (rule ends_seq [OF prepare_step_ends] ends_try)+
    (auto simp: prepared_def dest: deadline_failure intro: ends_mono [OF prepare_request_at_deadline_ends])

text \<open>A request that was sent is the pending one of its role; a failed one changes nothing else.\<close>

definition issued :: "master_view \<Rightarrow> worker_role \<Rightarrow> control_phase \<Rightarrow> master_view \<Rightarrow> (master_error, 'a) result \<Rightarrow> bool" where
  "issued v role ph v' r \<longleftrightarrow>
     (case r of
        Ok _ \<Rightarrow> \<exists>n p. pd_phase p = ph \<and> pd_request_id p = v_next v \<and> v_next v < n \<and> v' = sent (v\<lparr>v_next := n\<rparr>) role p
      | Err e \<Rightarrow> is_issue_failure e \<and> (\<exists>n. v_next v \<le> n \<and> v' = v\<lparr>v_next := n\<rparr>))"

lemma dispatch_ends:
  assumes "v_worker (view m) role \<noteq> None"
  shows "ends (dispatch ex role request fds m) (\<lambda>v r.
    (r = Ok () \<and> v = sent (view m) role (pr_pending request)) \<or> (\<exists>e. r = Err e \<and> is_issue_failure e \<and> v = view m))"
proof -
  obtain w where w: "worker m role = Some w" using assms by (auto simp: v_worker_view simp del: worker_None)
  obtain x process acts res where "ex_send ex (m_executor m) role (mw_process w) (pd_phase (pr_pending request))
      (pr_payload request) fds = (x, process, acts, res)"
    by (metis prod_cases4)
  with w worker_SomeD [OF w] show ?thesis
    by (cases res) (simp_all add: dispatch_def sent_def is_issue_failure_def Let_def)
qed

lemma issue_ends:
  assumes "v_worker (view m) role \<noteq> None"
  shows "ends (issue ex env role ph now timeout m) (issued (view m) role ph)"
  unfolding issue_def
  by (rule ends_seq [OF prepare_request_ends] ends_seq [OF dispatch_ends])+
    (use assms in \<open>auto simp: prepared_def issued_def\<close>, blast)

lemma issue_at_deadline_ends:
  assumes "v_worker (view m) role \<noteq> None"
  shows "ends (issue_at_deadline ex env role ph deadline m) (issued (view m) role ph)"
  unfolding issue_at_deadline_def
  by (rule ends_seq [OF prepare_step_ends] ends_seq [OF prepare_request_at_deadline_ends])+
    (use assms in \<open>auto simp: prepared_def issued_def intro!: ends_mono [OF dispatch_ends], blast\<close>)

lemma issue_adoption_ends:
  assumes "v_worker (view m) role \<noteq> None"
  shows "ends (issue_adoption ex env role now m) (issued (view m) role AdoptListeners)"
  unfolding issue_adoption_def
proof (rule ends_seq [OF prepare_request_ends])
  fix m1 :: "('a, 'b, 'c, 'd) master" and request
  assume "prepared (view m) AdoptListeners (view m1) (Ok request)"
  then obtain n where m1: "view m1 = (view m)\<lparr>v_next := n\<rparr>" and r: "pd_phase (pr_pending request) = AdoptListeners"
    "pd_request_id (pr_pending request) = v_next (view m)" "v_next (view m) < n"
    by (auto simp: prepared_def)
  obtain x dup where "ex_duplicate ex (m_executor m1) role (m_listeners m1) = (x, dup)" by fastforce
  with m1 r assms show "ends (let (x, duplicates) = ex_duplicate ex (m_executor m1) role (m_listeners m1) in
      seq_bind (m1\<lparr>m_executor := x\<rparr>, map_err (Action DuplicateListeners) duplicates) (\<lambda>m duplicates.
      dispatch ex role request duplicates m)) (issued (view m) role AdoptListeners)"
    by (cases dup) (auto simp: issued_def is_issue_failure_def intro!: ends_mono [OF dispatch_ends], blast+)
qed (auto simp: prepared_def issued_def)

section \<open>Contracts of termination\<close>

definition forced :: "worker_view \<Rightarrow> worker_view" where
  "forced w = (if v_state w = Terminating True then w else w\<lparr>v_pending := None, v_state := Terminating True\<rparr>)"

definition force_view :: "worker_role \<Rightarrow> master_view \<Rightarrow> master_view" where
  "force_view role v = v\<lparr>v_worker := (v_worker v)(role := map_option forced (v_worker v role))\<rparr>"

lemma force_role_ends:
  assumes "os_ok env" and "v_worker (view m) role \<noteq> None"
  shows "ends_ok (force_role env role m) (\<lambda>v. v = force_view role (view m))"
proof -
  obtain w where w: "worker m role = Some w" using assms(2) by (auto simp: v_worker_view simp del: worker_None)
  obtain acts where "request_kill (me_kill env) (mw_process w) = (mw_process w, acts, Ok ())"
    using request_kill_ok [OF assms(1)] by blast
  with w worker_SomeD [OF w] show ?thesis
    by (simp add: force_role_def force_view_def forced_def Let_def)
qed

definition force_all :: "master_view \<Rightarrow> master_view" where
  "force_all v = v\<lparr>v_worker := (\<lambda>role. map_option forced (v_worker v role))\<rparr>"

lemma forced_forced [simp]: "forced (forced w) = forced w"
  by (simp add: forced_def)

lemma forced_fields [simp]: "v_id (forced w) = v_id w" "v_generation (forced w) = v_generation w"
  "v_state (forced w) = Terminating True"
  by (simp_all add: forced_def)

lemma force_view_idle [simp]: "v_worker v role = None \<Longrightarrow> force_view role v = v"
  by (cases v) (simp add: force_view_def fun_eq_iff)

lemma force_roles_ends:
  assumes "os_ok env"
  shows "ends_ok (force_roles env roles m) (\<lambda>v. v = fold force_view roles (view m))"
proof (induction roles arbitrary: m)
  case (Cons role roles)
  have "ends_ok (if worker m role \<noteq> None then force_role env role m else (m, Ok ())) (\<lambda>v. v = force_view role (view m))"
    using force_role_ends [OF assms, of m role] by simp
  then show ?case unfolding force_roles.simps
    by (rule ends_ok_seq) (rule ends_mono [OF Cons.IH], simp)
qed simp

lemma all_worker_roles: "(\<forall>role. P role) \<longleftrightarrow> P ActiveRole \<and> P CandidateRole \<and> P RetiredRole"
  by (metis worker_role.exhaust)

lemma force_all_fold: "fold force_view [ActiveRole, CandidateRole, RetiredRole] v = force_all v"
  by (simp add: force_view_def force_all_def fun_eq_iff all_worker_roles)

text \<open>Failing closed drops the worker whose exit was deferred and kills the others.\<close>

definition fail_view :: "failure_phase \<Rightarrow> master_view \<Rightarrow> master_view" where
  "fail_view ph v =
     (let v1 = (case v_stage v of StageFailing _ \<Rightarrow> v | _ \<Rightarrow> v\<lparr>v_stage := StageFailing ph\<rparr>)
      in force_all (if v_deferred v = None then v1 else v1\<lparr>v_deferred := None, v_worker := (v_worker v)(ActiveRole := None)\<rparr>))"

lemma fail_master_ends:
  assumes "os_ok env" and "v_stage (view m) \<noteq> StageFailed"
  shows "ends_ok (fail_master env ph m) (\<lambda>v. v = fail_view ph (view m))"
proof -
  define m1 where "m1 = (case m_stage m of StageFailing _ \<Rightarrow> m | _ \<Rightarrow> emit (FailClosed ph) (m\<lparr>m_stage := StageFailing ph\<rparr>))"
  define m2 where "m2 = (case m_deferred_active_exit m1 of
      None \<Rightarrow> m1 | Some _ \<Rightarrow> drop_worker env ActiveRole (m1\<lparr>m_deferred_active_exit := None\<rparr>))"
  have "fail_master env ph m = force_roles env [ActiveRole, CandidateRole, RetiredRole] m2"
    using assms(2) by (simp only: fail_master_def to_view m1_def m2_def Let_def if_False)
  moreover have "v_deferred (view m1) = v_deferred (view m)" "v_worker (view m1) = v_worker (view m)"
    by (simp_all add: m1_def split: stage.split)
  then have "fail_view ph (view m) = force_all (view m2)"
    by (simp add: fail_view_def m2_def m1_def Let_def split: stage.split option.split)
  ultimately show ?thesis
    using force_roles_ends [OF assms(1), of "[ActiveRole, CandidateRole, RetiredRole]" m2]
    by (simp only: force_all_fold)
qed

lemma update_worker_ends:
  assumes "v_worker (view m) role = Some w" and "\<And>w. worker_view (f w) = g (worker_view w)"
  shows "ends_ok (update_worker role f m) (\<lambda>v. v = (view m)\<lparr>v_worker := (v_worker (view m))(role := Some (g w))\<rparr>)"
  using assms by (auto simp: update_worker_def v_worker_view simp del: worker_None split: option.splits)

lemma mark_terminating_ends:
  assumes "v_worker (view m) role = Some w"
  shows "ends_ok (mark_terminating role b m)
    (\<lambda>v. v = (view m)\<lparr>v_worker := (v_worker (view m))(role := Some (w\<lparr>v_state := Terminating b\<rparr>))\<rparr>)"
  unfolding mark_terminating_def
  by (rule ends_ok_seq [OF update_worker_ends [OF assms, where g = "\<lambda>w. w\<lparr>v_state := Terminating b\<rparr>"]]) simp_all

lemma supervisor_apply_ends:
  assumes "v_supervisor (view m) = Some s"
  shows "supervisor_apply event m = (m\<lparr>m_supervisor := Some (fst (apply_event s event))\<rparr>, map_err MasterReplacement (snd (apply_event s event)))"
  using assms by (simp add: supervisor_apply_def split: prod.split)

lemma record_issue_failure_ends:
  "is_issue_failure e \<Longrightarrow> ends_ok (record_issue_failure role ph e m) (\<lambda>v. v = view m)"
  by (auto simp: record_issue_failure_def is_issue_failure_def split: master_error.splits)

end
