(* ===== verification/Master_Invariant.thy ===== *)
theory Master_Invariant
  imports Master_View
begin

text \<open>
  The invariant of the master between two calls: in which stage it is, which workers it then owns, how
  they agree with the supervisor, and which requests they may owe an answer to.
\<close>

section \<open>The invariant\<close>

fun sup_role :: "supervisor \<Rightarrow> worker_role \<Rightarrow> service_instance option" where
  "sup_role s ActiveRole = Some (sup_active s)"
| "sup_role s CandidateRole = sup_candidate s"
| "sup_role s RetiredRole = sup_retired s"

text \<open>The request that an instance in a role and a lifecycle may owe an answer to.\<close>

fun awaited :: "worker_role \<Rightarrow> lifecycle \<Rightarrow> control_phase \<Rightarrow> bool" where
  "awaited ActiveRole l ph \<longleftrightarrow> l = Quiescing \<and> ph = control_phase.Quiesce \<or> l = Reactivating \<and> ph = control_phase.Reactivate"
| "awaited CandidateRole l ph \<longleftrightarrow> l = Preparing \<and> ph = AdoptListeners \<or> l = Activating \<and> ph = control_phase.Activate"
| "awaited RetiredRole l ph \<longleftrightarrow> l = Draining \<and> ph = control_phase.Drain \<or> l = Stopping \<and> ph = control_phase.Shutdown"

fun state_fits :: "worker_role \<Rightarrow> lifecycle \<Rightarrow> worker_state \<Rightarrow> bool" where
  "state_fits ActiveRole l st \<longleftrightarrow> st = WorkerRunning"
| "state_fits CandidateRole l st \<longleftrightarrow> st = (if l = Stopping then Terminating True else WorkerRunning)"
| "state_fits RetiredRole l st \<longleftrightarrow> (l = Stopping) = (st \<noteq> WorkerRunning)"

definition same_instance :: "service_instance \<Rightarrow> worker_view \<Rightarrow> bool" where
  "same_instance i w \<longleftrightarrow> inst_id i = v_id w \<and> inst_generation i = v_generation w"

definition fits :: "worker_role \<Rightarrow> service_instance \<Rightarrow> worker_view \<Rightarrow> bool" where
  "fits role i w \<longleftrightarrow> same_instance i w \<and> state_fits role (inst_lifecycle i) (v_state w)
     \<and> (\<forall>p. v_pending w = Some p \<longrightarrow> awaited role (inst_lifecycle i) (pd_phase p))"

text \<open>
  What is compared over a run: request identities are either among those pending at its start or at
  least the next one at its start, and the active worker is one of those that may serve.
\<close>

record baseline =
  b_next :: u64
  b_pending :: "u64 set"
  b_serves :: "instance_id \<Rightarrow> generation_id \<Rightarrow> bool"

type_synonym workers = "worker_role \<Rightarrow> worker_view option"

definition known :: "baseline \<Rightarrow> u64 \<Rightarrow> pending \<Rightarrow> bool" where
  "known b n p \<longleftrightarrow> pd_request_id p < n \<and> (pd_request_id p \<in> b_pending b \<or> b_next b \<le> pd_request_id p)"

definition numbered :: "baseline \<Rightarrow> u64 \<Rightarrow> workers \<Rightarrow> bool" where
  "numbered b n ws \<longleftrightarrow> b_next b \<le> n \<and> (\<forall>role w p. ws role = Some w \<longrightarrow> v_pending w = Some p \<longrightarrow> known b n p)"

definition linked :: "baseline \<Rightarrow> supervisor option \<Rightarrow> workers \<Rightarrow> bool" where
  "linked b sv ws \<longleftrightarrow>
     (\<forall>w. ws ActiveRole = Some w \<longrightarrow> b_serves b (v_id w) (v_generation w))
     \<and> (\<forall>role role' w w'. ws role = Some w \<longrightarrow> ws role' = Some w' \<longrightarrow> v_id w = v_id w' \<longrightarrow> role = role')
     \<and> (\<forall>role w. ws role = Some w \<longrightarrow> v_state w = Terminating True \<longrightarrow> v_pending w = None)
     \<and> (\<forall>s. sv = Some s \<longrightarrow> supervisor_inv s
          \<and> (\<forall>role w. ws role = Some w \<longrightarrow> (\<exists>i. sup_role s role = Some i \<and> same_instance i w)))"

definition sound :: "baseline \<Rightarrow> master_view \<Rightarrow> bool" where
  "sound b v \<longleftrightarrow> numbered b (v_next v) (v_worker v) \<and> linked b (v_supervisor v) (v_worker v)"

definition killed :: "worker_view \<Rightarrow> bool" where
  "killed w \<longleftrightarrow> v_pending w = None \<and> v_state w = Terminating True"

definition failing :: "baseline \<Rightarrow> master_view \<Rightarrow> bool" where
  "failing b v \<longleftrightarrow> sound b v \<and> (\<exists>f. v_stage v = StageFailing f)
     \<and> (\<forall>role w. v_worker v role = Some w \<longrightarrow> killed w)"

definition steady :: "baseline \<Rightarrow> master_view \<Rightarrow> supervisor \<Rightarrow> bool" where
  "steady b v s \<longleftrightarrow> sound b v \<and> v_stage v = Operational \<and> v_supervisor v = Some s
     \<and> (\<forall>role. rel_option (fits role) (sup_role s role) (v_worker v role))
     \<and> (phase s = Some ActivatingCandidate \<longrightarrow> (\<forall>w. v_worker v ActiveRole = Some w \<longrightarrow> v_pending w = None))
     \<and> (v_deferred v \<noteq> None \<longrightarrow> phase s = Some ActivatingCandidate)"

definition sustained :: "baseline \<Rightarrow> master_view \<Rightarrow> bool" where
  "sustained b v \<longleftrightarrow> failing b v \<or> (\<exists>s. steady b v s)"

definition boot :: "baseline \<Rightarrow> control_phase \<Rightarrow> master_view \<Rightarrow> bool" where
  "boot b ph v \<longleftrightarrow> sound b v \<and> v_supervisor v = None \<and> v_deferred v = None
     \<and> v_worker v CandidateRole = None \<and> v_worker v RetiredRole = None
     \<and> (\<exists>w. v_worker v ActiveRole = Some w \<and> v_state w = WorkerRunning \<and> (\<forall>p. v_pending w = Some p \<longrightarrow> pd_phase p = ph))"

definition closing :: "baseline \<Rightarrow> master_view \<Rightarrow> bool" where
  "closing b v \<longleftrightarrow> sound b v \<and> v_supervisor v = None \<and> v_deferred v = None
     \<and> (\<forall>role w. v_worker v role = Some w \<longrightarrow> v_state w \<noteq> WorkerRunning
          \<and> (\<forall>p. v_pending w = Some p \<longrightarrow> pd_phase p = control_phase.Shutdown))"

definition idle :: "baseline \<Rightarrow> master_view \<Rightarrow> bool" where
  "idle b v \<longleftrightarrow> sound b v \<and> (\<forall>role. v_worker v role = None)"

definition master_ok :: "baseline \<Rightarrow> master_view \<Rightarrow> bool" where
  "master_ok b v \<longleftrightarrow>
     (case v_stage v of
        BootAdopting \<Rightarrow> boot b AdoptListeners v
      | BootActivating \<Rightarrow> boot b control_phase.Activate v
      | Operational \<Rightarrow> \<exists>s. steady b v s
      | StageShuttingDown _ _ \<Rightarrow> closing b v
      | StageFailing _ \<Rightarrow> failing b v
      | StageStopped _ \<Rightarrow> idle b v
      | StageFailed \<Rightarrow> idle b v)"

section \<open>Lemmas on the invariant\<close>

lemma force_view_fields [simp]:
  "v_stage (force_view role v) = v_stage v" "v_supervisor (force_view role v) = v_supervisor v"
  "v_deferred (force_view role v) = v_deferred v" "v_failure (force_view role v) = v_failure v"
  "v_next (force_view role v) = v_next v"
  "v_worker (force_view role v) = (v_worker v)(role := map_option forced (v_worker v role))"
  by (simp_all add: force_view_def)

lemma sent_fields [simp]:
  "v_stage (sent v role p) = v_stage v" "v_supervisor (sent v role p) = v_supervisor v"
  "v_deferred (sent v role p) = v_deferred v" "v_failure (sent v role p) = v_failure v" "v_next (sent v role p) = v_next v"
  "v_worker (sent v role p) = (v_worker v)(role := map_option (\<lambda>w. w\<lparr>v_pending := Some p\<rparr>) (v_worker v role))"
  by (simp_all add: sent_def)

lemma fail_view_fields [simp]:
  "v_supervisor (fail_view ph v) = v_supervisor v" "v_deferred (fail_view ph v) = None"
  "v_failure (fail_view ph v) = v_failure v" "v_next (fail_view ph v) = v_next v"
  "v_stage (fail_view ph v) = (case v_stage v of StageFailing f \<Rightarrow> StageFailing f | _ \<Rightarrow> StageFailing ph)"
  "v_worker (fail_view ph v) role =
     (if v_deferred v \<noteq> None \<and> role = ActiveRole then None else map_option forced (v_worker v role))"
  by (simp_all add: fail_view_def force_all_def Let_def split: stage.split)

lemma sound_updates [simp]:
  "sound b (v\<lparr>v_stage := st\<rparr>) = sound b v"
  "sound b (v\<lparr>v_deferred := d\<rparr>) = sound b v"
  "sound b (v\<lparr>v_failure := f\<rparr>) = sound b v"
  by (simp_all add: sound_def)

lemma known_next: "known b n p \<Longrightarrow> n \<le> n' \<Longrightarrow> known b n' p"
  by (auto simp: known_def)

lemma numbered_next: "numbered b n ws \<Longrightarrow> n \<le> n' \<Longrightarrow> numbered b n' ws"
  by (auto simp: numbered_def intro: known_next)

lemma sound_next: "sound b v \<Longrightarrow> v_next v \<le> n \<Longrightarrow> sound b (v\<lparr>v_next := n\<rparr>)"
  by (auto simp: sound_def intro: numbered_next)

lemma numbered_update:
  "numbered b n ws \<Longrightarrow> (\<And>p w. w' = Some w \<Longrightarrow> v_pending w = Some p \<Longrightarrow> known b n p) \<Longrightarrow> numbered b n (ws(role := w'))"
  by (auto simp: numbered_def)

lemma forced_pending: "v_pending (forced w) = (if v_state w = Terminating True then v_pending w else None)"
  by (simp add: forced_def)

lemma numbered_force: "numbered b n ws \<Longrightarrow> numbered b n (\<lambda>role. map_option forced (ws role))"
  by (auto simp: numbered_def forced_pending split: if_splits)

lemma same_instance_forced [simp]: "same_instance i (forced w) = same_instance i w"
  by (simp add: same_instance_def)

lemma linked_force: "linked b sv ws \<Longrightarrow> linked b sv (\<lambda>role. map_option forced (ws role))"
  by (auto simp: linked_def forced_pending split: if_splits)

lemma sound_force_all: "sound b v \<Longrightarrow> sound b (force_all v)"
  by (simp add: sound_def force_all_def numbered_force linked_force)

lemma numbered_drop: "numbered b n ws \<Longrightarrow> numbered b n (ws(role := None))"
  by (rule numbered_update) auto

lemma linked_drop: "linked b sv ws \<Longrightarrow> linked b sv (ws(role := None))"
  by (auto simp: linked_def)

lemma sound_drop: "sound b v \<Longrightarrow> sound b (v\<lparr>v_worker := (v_worker v)(role := None)\<rparr>)"
  by (simp add: sound_def numbered_drop linked_drop)

lemma killed_forced: "linked b sv ws \<Longrightarrow> ws role = Some w \<Longrightarrow> killed (forced w)"
  by (auto simp: killed_def linked_def forced_pending)

lemma failing_fail_view:
  assumes "sound b v" and "v_stage v \<noteq> StageFailed"
  shows "failing b (fail_view ph v)"
proof -
  have "sound b (fail_view ph v)"
    using assms sound_force_all [of b v] sound_force_all [OF sound_drop [of b v ActiveRole]]
    by (auto simp: fail_view_def Let_def force_all_def sound_def split: stage.split)
  with assms killed_forced [of b "v_supervisor v" "v_worker v"] show ?thesis
    by (auto simp: failing_def sound_def split: stage.splits)
qed

lemma force_view_killed [simp]:
  assumes "\<And>w. v_worker v role = Some w \<Longrightarrow> killed w"
  shows "force_view role v = v"
proof (cases "v_worker v role")
  case (Some w)
  then have "forced w = w" using assms by (simp add: killed_def forced_def)
  with Some show ?thesis by (simp add: force_view_def)
qed simp

lemma failing_force [simp]: "failing b v \<Longrightarrow> force_view role v = v"
  by (rule force_view_killed) (simp add: failing_def)

lemma linked_inv: "linked b (Some s) ws \<Longrightarrow> supervisor_inv s"
  by (simp add: linked_def)

lemma linked_same: "linked b (Some s) ws \<Longrightarrow> ws role = Some w \<Longrightarrow> \<exists>i. sup_role s role = Some i \<and> same_instance i w"
  by (simp add: linked_def)

lemma linked_None: "linked b (Some s) ws \<Longrightarrow> sup_role s role = None \<Longrightarrow> ws role = None"
  using linked_same [of b s ws role] by (cases "ws role") auto

lemma retired_excludes:
  "supervisor_inv s \<Longrightarrow> sup_retired s = Some r \<Longrightarrow> sup_candidate s = None \<and> inst_lifecycle (sup_active s) = Active"
  by (auto elim: supervisor_shapes)

lemma candidate_excludes: "supervisor_inv s \<Longrightarrow> sup_candidate s = Some c \<Longrightarrow> sup_retired s = None"
  by (auto elim: supervisor_shapes)

lemma view_role_Some:
  assumes "linked b sv (v_worker v)" and "v_worker v role = Some w"
  shows "view_role v (v_id w) = Some role"
proof -
  have "v_id w' \<noteq> v_id w" if "role' \<noteq> role" "v_worker v role' = Some w'" for role' w'
    using that assms unfolding linked_def by metis
  with assms(2) show ?thesis
    by (cases role) (auto simp: view_role_def)
qed

lemma issue_or_compensate_ends:
  assumes "v_worker (view m) role \<noteq> None"
    and "\<And>n p. pd_phase p = ph \<Longrightarrow> pd_request_id p = v_next (view m) \<Longrightarrow> v_next (view m) < n \<Longrightarrow>
      Q (sent ((view m)\<lparr>v_next := n\<rparr>) role p) (Ok ())"
    and "\<And>m' n. view m' = (view m)\<lparr>v_next := n\<rparr> \<Longrightarrow> v_next (view m) \<le> n \<Longrightarrow>
      ends (handle_phase_failure again env role failure m') Q"
  shows "ends (issue_or_compensate again ex env role ph now timeout failure m) Q"
proof -
  obtain m1 r where i: "issue ex env role ph now timeout m = (m1, r)" by fastforce
  have issued: "issued (view m) role ph (view m1) r"
    using issue_ends [OF assms(1), of ex env ph now timeout] by (simp add: i)
  show ?thesis
  proof (cases r)
    case (Inl e)
    with issued obtain n where e: "is_issue_failure e" and n: "v_next (view m) \<le> n" "view m1 = (view m)\<lparr>v_next := n\<rparr>"
      by (auto simp: issued_def)
    have "ends (compensate_issue_error again env role ph failure e m1) Q"
      unfolding compensate_issue_error_def
      by (rule ends_ok_seq [OF record_issue_failure_ends [OF e]]) (rule assms(3), use n in simp_all)
    then show ?thesis by (simp add: issue_or_compensate_def i Inl)
  next
    case (Inr d)
    with issued assms(2) show ?thesis by (auto simp: issue_or_compensate_def i issued_def)
  qed
qed

lemma steadyD:
  assumes "steady b v s"
  shows "sound b v" "linked b (Some s) (v_worker v)" "supervisor_inv s" "v_stage v = Operational" "v_supervisor v = Some s"
    "\<exists>w. v_worker v ActiveRole = Some w \<and> fits ActiveRole (sup_active s) w"
    "rel_option (fits CandidateRole) (sup_candidate s) (v_worker v CandidateRole)"
    "rel_option (fits RetiredRole) (sup_retired s) (v_worker v RetiredRole)"
  using assms by (auto simp: steady_def sound_def all_worker_roles option_rel_Some1 dest: linked_inv)

lemma steady_role:
  "steady b v s \<Longrightarrow> sup_role s role = Some i \<Longrightarrow> \<exists>w. v_worker v role = Some w \<and> fits role i w \<and> v_id w = inst_id i"
  by (cases role) (auto simp: steady_def all_worker_roles option_rel_Some1 fits_def same_instance_def)

lemma linked_change:
  assumes "linked b sv ws" and "\<And>s. sv' = Some s \<Longrightarrow> supervisor_inv s"
    and "\<And>s role w. sv' = Some s \<Longrightarrow> ws role = Some w \<Longrightarrow> \<exists>i. sup_role s role = Some i \<and> same_instance i w"
  shows "linked b sv' ws"
  using assms unfolding linked_def by simp

text \<open>The supervisor may move an instance through its lifecycle without the link being lost.\<close>

lemma linked_supervisor:
  assumes "linked b (Some s) ws" and "supervisor_inv s'"
    and "\<And>role i. sup_role s role = Some i \<Longrightarrow> \<exists>i'. sup_role s' role = Some i' \<and> inst_id i' = inst_id i \<and> inst_generation i' = inst_generation i"
  shows "linked b (Some s') ws"
proof -
  have "\<exists>i. sup_role s' role = Some i \<and> same_instance i w" if "ws role = Some w" for role w
    using linked_same [OF assms(1) that] assms(3) [of role] unfolding same_instance_def by fastforce
  with assms(1,2) show ?thesis by (intro linked_change [OF assms(1)]) simp_all
qed

section \<open>Events whose actions apply no further event\<close>

definition same_roles :: "master_view \<Rightarrow> master_view \<Rightarrow> bool" where
  "same_roles v v' \<longleftrightarrow> (\<forall>role. (v_worker v' role = None) = (v_worker v role = None))"

definition stopping_candidate :: "instance_id \<Rightarrow> master_view \<Rightarrow> bool" where
  "stopping_candidate i v \<longleftrightarrow>
     (\<exists>s c. v_supervisor v = Some s \<and> sup_candidate s = Some c \<and> inst_id c = i \<and> inst_lifecycle c = Stopping)"

lemma fail_candidate_effect:
  assumes "supervisor_inv s" and "sup_candidate s = Some c"
  defines "c' \<equiv> c\<lparr>inst_lifecycle := Stopping\<rparr>"
  shows "apply_event s (CandidateFailed (inst_id c)) =
    (if inst_lifecycle (sup_active s) = Quiescing
     then (s\<lparr>sup_candidate := Some c', sup_active := (sup_active s)\<lparr>inst_lifecycle := Reactivating\<rparr>\<rparr>,
           Ok [replacement_action.Activate (inst_id (sup_active s)), replacement_action.Terminate (inst_id c)])
     else (s\<lparr>sup_candidate := Some c'\<rparr>, Ok [replacement_action.Terminate (inst_id c)]))"
  using assms by (auto elim!: supervisor_shapes simp: sup_defs c'_def)

lemma execute_terminate_candidate:
  assumes "os_ok env" and "linked b (v_supervisor (view m)) (v_worker (view m))"
    and "v_worker (view m) CandidateRole = Some w"
  shows "ends_ok (execute_terminate again ex env now (v_id w) m) (\<lambda>v. v = force_view CandidateRole (view m))"
  using view_role_Some [OF assms(2,3)] force_role_ends [OF assms(1), of m CandidateRole] assms(3)
  by (simp add: execute_terminate_def role_for_view)

text \<open>Most events keep who holds which role.\<close>

fun keeps_roles :: "replacement_event \<Rightarrow> bool" where
  "keeps_roles (Begin _) = False"
| "keeps_roles (CandidateActivated _) = False"
| "keeps_roles (CandidateStopped _) = False"
| "keeps_roles (RetiredStopped _) = False"
| "keeps_roles _ = True"

lemma apply_event_roles:
  assumes "supervisor_inv s" and "keeps_roles e" and "sup_role s role = Some i"
  shows "\<exists>i'. sup_role (fst (apply_event s e)) role = Some i' \<and> inst_id i' = inst_id i \<and> inst_generation i' = inst_generation i"
  using assms(1)
  by (cases rule: supervisor_shapes; cases e; cases role; insert assms(2,3); elim insertE emptyE) (auto simp: sup_defs)

lemma apply_event_no_role:
  assumes "supervisor_inv s" and "keeps_roles e" and "sup_role s role = None"
  shows "sup_role (fst (apply_event s e)) role = None"
  using assms(1)
  by (cases rule: supervisor_shapes; cases e; cases role; insert assms(2,3); elim insertE emptyE) (auto simp: sup_defs)

declare apply_event.simps [simp del]

lemma sound_supervisor:
  assumes "sound b v" and "v_supervisor v = Some s" and "keeps_roles e"
  shows "sound b (v\<lparr>v_supervisor := Some (fst (apply_event s e))\<rparr>)"
proof -
  have l: "linked b (Some s) (v_worker v)" using assms(1,2) by (simp add: sound_def)
  have inv: "supervisor_inv s" by (rule linked_inv [OF l])
  from linked_supervisor [OF l supervisor_inv_step [OF inv] apply_event_roles [OF inv assms(3)]] assms(1)
  show ?thesis by (simp add: sound_def)
qed

lemma steadyI:
  assumes "sound b v" and "v_stage v = Operational" and "v_supervisor v = Some s"
    and "v_worker v ActiveRole = Some a" and "fits ActiveRole (sup_active s) a"
    and "rel_option (fits CandidateRole) (sup_candidate s) (v_worker v CandidateRole)"
    and "rel_option (fits RetiredRole) (sup_retired s) (v_worker v RetiredRole)"
    and "phase s = Some ActivatingCandidate \<Longrightarrow> v_pending a = None"
    and "v_deferred v \<noteq> None \<Longrightarrow> phase s = Some ActivatingCandidate"
  shows "steady b v s"
  using assms by (auto simp: steady_def all_worker_roles option_rel_Some1)

lemma fits_sent: "fits role i w \<Longrightarrow> awaited role (inst_lifecycle i) (pd_phase p) \<Longrightarrow> fits role i (w\<lparr>v_pending := Some p\<rparr>)"
  by (simp add: fits_def same_instance_def)

lemma fits_forced:
  "same_instance i w \<Longrightarrow> inst_lifecycle i = Stopping \<Longrightarrow> role \<noteq> ActiveRole \<Longrightarrow> killed (forced w) \<Longrightarrow> fits role i (forced w)"
  by (cases role) (auto simp: fits_def killed_def)

lemma known_new: "numbered b n ws \<Longrightarrow> pd_request_id p = n \<Longrightarrow> n < n' \<Longrightarrow> known b n' p"
  by (simp add: known_def numbered_def)

lemma linked_update:
  assumes "linked b sv ws" and "ws role = Some w" and "v_id w' = v_id w" and "v_generation w' = v_generation w"
    and "v_state w' = Terminating True \<Longrightarrow> v_pending w' = None"
  shows "linked b sv (ws(role := Some w'))"
  using assms unfolding linked_def same_instance_def by (auto simp del: sup_role.simps)

text \<open>A request may be sent to a worker that was not killed.\<close>

lemma sound_sent:
  assumes "sound b v" and "v_worker v role = Some w" and "v_state w \<noteq> Terminating True"
    and "pd_request_id p = v_next v" and "v_next v < n"
  shows "sound b (sent (v\<lparr>v_next := n\<rparr>) role p)"
proof -
  have "numbered b n ((v_worker v)(role := Some (w\<lparr>v_pending := Some p\<rparr>)))"
    using assms numbered_next [of b "v_next v" "v_worker v" n] known_new [of b "v_next v" "v_worker v" p n]
    by (auto simp: sound_def intro!: numbered_update)
  moreover have "linked b (v_supervisor v) ((v_worker v)(role := Some (w\<lparr>v_pending := Some p\<rparr>)))"
    using assms by (auto simp: sound_def intro!: linked_update)
  ultimately show ?thesis using assms(2) by (simp add: sound_def sent_def)
qed

lemma sound_force:
  assumes "sound b v"
  shows "sound b (force_view role v)"
proof (cases "v_worker v role")
  case (Some w)
  then have "v_pending (forced w) = None" using assms killed_forced [of b "v_supervisor v" "v_worker v" role w]
    by (simp add: sound_def killed_def)
  with Some assms show ?thesis
    by (auto simp: sound_def force_view_def intro!: numbered_update linked_update)
qed (use assms in simp)

lemma fail_master_failing:
  assumes "os_ok env" and "sound b (view m)" and "v_stage (view m) \<noteq> StageFailed"
  shows "ends_ok (fail_master env ph m) (\<lambda>v. failing b v \<and> v = fail_view ph (view m))"
  using fail_master_ends [OF assms(1,3)] by (rule ends_mono) (use failing_fail_view [OF assms(2,3)] in simp)

lemma failing_sound: "failing b v \<Longrightarrow> sound b v"
  by (simp add: failing_def)

text \<open>
  A candidate that failed, in three moments: \<open>failed_candidate\<close> once the supervisor knows,
  \<open>rolling_back\<close> once the active worker was reactivated where that is needed, and \<open>rolled_back\<close>
  after the candidate was killed.
\<close>

definition rolled_back :: "baseline \<Rightarrow> instance_id \<Rightarrow> master_view \<Rightarrow> master_view \<Rightarrow> bool" where
  "rolled_back b i v v' \<longleftrightarrow> sustained b v' \<and> v_deferred v' = None \<and> stopping_candidate i v' \<and> same_roles v v'"

definition failed_candidate :: "baseline \<Rightarrow> supervisor \<Rightarrow> service_instance \<Rightarrow> master_view \<Rightarrow> bool" where
  "failed_candidate b s c v \<longleftrightarrow> sound b v \<and> v_supervisor v = Some s \<and> v_deferred v = None
     \<and> sup_candidate s = Some (c\<lparr>inst_lifecycle := Stopping\<rparr>) \<and> sup_retired s = None \<and> v_worker v RetiredRole = None
     \<and> (\<exists>w. v_worker v CandidateRole = Some w \<and> same_instance c w)"

definition rolling_back :: "baseline \<Rightarrow> supervisor \<Rightarrow> service_instance \<Rightarrow> master_view \<Rightarrow> bool" where
  "rolling_back b s c v \<longleftrightarrow> failed_candidate b s c v
     \<and> (failing b v \<or> v_stage v = Operational \<and> (\<exists>a. v_worker v ActiveRole = Some a \<and> fits ActiveRole (sup_active s) a))"

lemmas rolling_back_defs = rolling_back_def failed_candidate_def

lemma rolling_back_kill:
  assumes "rolling_back b s c v" and "same_roles v0 v"
  shows "rolled_back b (inst_id c) v0 (force_view CandidateRole v)"
proof -
  obtain w where w: "v_worker v CandidateRole = Some w" "same_instance c w" using assms(1) by (auto simp: rolling_back_defs)
  have "sustained b (force_view CandidateRole v)"
  proof (cases "failing b v")
    case True
    with w(1) show ?thesis by (simp add: sustained_def)
  next
    case False
    with assms(1) obtain a where a: "v_worker v ActiveRole = Some a" "fits ActiveRole (sup_active s) a" "v_stage v = Operational"
      by (auto simp: rolling_back_defs)
    have "fits CandidateRole (c\<lparr>inst_lifecycle := Stopping\<rparr>) (forced w)"
      using w assms(1) killed_forced [of b "v_supervisor v" "v_worker v" CandidateRole w]
      by (intro fits_forced) (auto simp: same_instance_def sound_def rolling_back_defs)
    with a w assms(1) have "steady b (force_view CandidateRole v) s"
      by (intro steadyI [where a = a]) (auto simp: rolling_back_defs phase_def intro: sound_force)
    then show ?thesis by (auto simp: sustained_def)
  qed
  moreover have "same_roles v0 (force_view CandidateRole v)"
    using assms(2) w(1) by (auto simp: same_roles_def dest: spec [of _ CandidateRole])
  ultimately show ?thesis
    using assms(1) by (auto simp: rolled_back_def rolling_back_defs stopping_candidate_def)
qed

lemma rolling_back_terminate:
  assumes os: "os_ok env" and v: "rolling_back b s c (view m)" "same_roles v0 (view m)"
  shows "ends_ok (execute_replacement_actions h ex env now None [replacement_action.Terminate (inst_id c)] m)
    (rolled_back b (inst_id c) v0)"
proof -
  obtain w where w: "v_worker (view m) CandidateRole = Some w" "v_id w = inst_id c"
    using v(1) by (auto simp: rolling_back_defs same_instance_def)
  then have "ends_ok (execute_terminate h ex env now (inst_id c) m) (\<lambda>v. v = force_view CandidateRole (view m))"
    using execute_terminate_candidate [OF os, where m = m and b = b and w = w] v(1) by (auto simp: sound_def rolling_back_defs)
  then show ?thesis unfolding execute_replacement_actions.simps
    by (rule ends_ok_seq) (simp add: rolling_back_kill [OF v])
qed

lemma rolling_back_reactivate:
  assumes os: "os_ok env" and v: "failed_candidate b s c (view m)" "v_stage (view m) = Operational"
    and a: "v_worker (view m) ActiveRole = Some a" "v_id a = inst_id (sup_active s)" "v_state a = WorkerRunning"
      "same_instance (sup_active s) a" "inst_lifecycle (sup_active s) = Reactivating"
  shows "ends_ok (execute_activate h ex env now (inst_id (sup_active s)) m) (\<lambda>v. rolling_back b s c v \<and> same_roles (view m) v)"
proof -
  have sound: "sound b (view m)" using v(1) by (simp add: rolling_back_defs)
  have role: "role_for m (inst_id (sup_active s)) = Some ActiveRole"
    using view_role_Some [of b "v_supervisor (view m)" "view m" ActiveRole a] sound a by (simp add: role_for_view sound_def)
  have "ends_ok (issue_or_compensate h ex env ActiveRole control_phase.Reactivate now (activation_timeout (m_config m)) Reactivation m)
      (\<lambda>v. rolling_back b s c v \<and> same_roles (view m) v)"
  proof (rule issue_or_compensate_ends)
    fix n and p :: pending assume p: "pd_phase p = control_phase.Reactivate" "pd_request_id p = v_next (view m)" "v_next (view m) < n"
    have "fits ActiveRole (sup_active s) (a\<lparr>v_pending := Some p\<rparr>)" using a p(1) by (simp add: fits_def same_instance_def)
    moreover have "sound b (sent ((view m)\<lparr>v_next := n\<rparr>) ActiveRole p)"
      using a by (intro sound_sent [OF sound _ _ p(2,3), where w = a]) simp_all
    ultimately show "is_ok (Ok ()) \<and> rolling_back b s c (sent ((view m)\<lparr>v_next := n\<rparr>) ActiveRole p)
        \<and> same_roles (view m) (sent ((view m)\<lparr>v_next := n\<rparr>) ActiveRole p)"
      using v a by (auto simp: rolling_back_defs same_roles_def)
  next
    fix m' :: "('a, 'b, 'c, 'd) master" and n assume m': "view m' = (view m)\<lparr>v_next := n\<rparr>" "v_next (view m) \<le> n"
    have "phase s = Some RollingBack" using v(1) by (simp add: rolling_back_defs phase_def)
    then have "handle_phase_failure h env ActiveRole Reactivation m' = fail_master env Reactivation m'"
      using v by (simp add: handle_phase_failure_def m' master_phase_view view_phase_def rolling_back_defs)
    moreover have "ends_ok (fail_master env Reactivation m') (\<lambda>v. failing b v \<and> v = fail_view Reactivation (view m'))"
      using v(2) sound_next [OF sound m'(2)] by (intro fail_master_failing [OF os]) (simp_all add: m')
    ultimately show "ends_ok (handle_phase_failure h env ActiveRole Reactivation m')
        (\<lambda>v. rolling_back b s c v \<and> same_roles (view m) v)"
      using v a by (auto simp: m' rolling_back_defs same_roles_def all_worker_roles same_instance_def elim!: ends_mono dest: failing_sound)
  qed (simp add: a(1))
  then show ?thesis by (simp add: execute_activate_def role)
qed

lemma candidate_failed_ends:
  assumes os: "os_ok env" and st: "steady b (view m) s" and d: "v_deferred (view m) = None" and c: "sup_candidate s = Some c"
  shows "ends_ok (apply_replacement_event (Suc k) ex env now (CandidateFailed (inst_id c)) m) (rolled_back b (inst_id c) (view m))"
proof -
  define s' where "s' = fst (apply_event s (CandidateFailed (inst_id c)))"
  define m1 where "m1 = m\<lparr>m_supervisor := Some s'\<rparr>"
  obtain w where w: "v_worker (view m) CandidateRole = Some w" "fits CandidateRole c w"
    using steady_role [OF st, of CandidateRole c] c by auto
  obtain a where a: "v_worker (view m) ActiveRole = Some a" "fits ActiveRole (sup_active s) a" "v_id a = inst_id (sup_active s)"
    using steady_role [OF st, of ActiveRole] by auto
  have inv: "supervisor_inv s" using steadyD(3) [OF st] .
  note failed = fail_candidate_effect [OF inv c]
  have retired: "sup_retired s = None" by (rule candidate_excludes [OF inv c])
  have v1: "view m1 = (view m)\<lparr>v_supervisor := Some s'\<rparr>" by (simp add: m1_def)
  have sound: "sound b (view m1)"
    using sound_supervisor [OF steadyD(1,5) [OF st], of "CandidateFailed (inst_id c)"] by (simp add: v1 s'_def)
  have base: "failed_candidate b s' c (view m1)" "v_stage (view m1) = Operational" "v_worker (view m1) ActiveRole = Some a"
    using sound d w a(1) retired steadyD(8) [OF st] steadyD(4) [OF st]
    by (auto simp: failed_candidate_def v1 s'_def failed fits_def)
  have roles: "same_roles (view m) (view m1)" by (simp add: v1 same_roles_def)
  have apply_eq: "apply_replacement_event (Suc k) ex env now (CandidateFailed (inst_id c)) m =
      execute_replacement_actions (apply_replacement_event k ex env now) ex env now None
        (if inst_lifecycle (sup_active s) = Quiescing
         then [replacement_action.Activate (inst_id (sup_active s)), replacement_action.Terminate (inst_id c)]
         else [replacement_action.Terminate (inst_id c)]) m1"
    by (simp add: supervisor_apply_ends [OF steadyD(5) [OF st]] m1_def s'_def failed)
  show ?thesis
  proof (cases "inst_lifecycle (sup_active s) = Quiescing")
    case False
    then have "sup_active s' = sup_active s" by (simp add: s'_def failed)
    then have "rolling_back b s' c (view m1)" using base a(2) by (simp add: rolling_back_def)
    from rolling_back_terminate [OF os this roles] False show ?thesis unfolding apply_eq by simp
  next
    case True
    then have "sup_active s' = (sup_active s)\<lparr>inst_lifecycle := Reactivating\<rparr>" by (simp add: s'_def failed)
    then have "ends_ok (execute_activate (apply_replacement_event k ex env now) ex env now (inst_id (sup_active s)) m1)
        (\<lambda>v. rolling_back b s' c v \<and> same_roles (view m1) v)"
      using rolling_back_reactivate [OF os base] a(2,3) by (simp add: fits_def same_instance_def)
    then show ?thesis unfolding apply_eq if_P [OF True] execute_replacement_actions.simps(4)
      by (rule ends_ok_seq) (rule rolling_back_terminate [OF os], use roles in \<open>auto simp: same_roles_def\<close>)
  qed
qed

lemma retired_failed_ends:
  assumes os: "os_ok env" and sound: "sound b (view m)" and st: "v_stage (view m) = Operational" "v_supervisor (view m) = Some s"
    and r: "sup_retired s = Some r" and a: "v_worker (view m) ActiveRole = Some a" "fits ActiveRole (sup_active s) a"
    and w: "v_worker (view m) RetiredRole = Some w"
  defines "s' \<equiv> s\<lparr>sup_retired := Some (r\<lparr>inst_lifecycle := Stopping\<rparr>)\<rparr>"
  shows "v_deferred (view m) = None \<Longrightarrow> ends_ok (apply_replacement_event (Suc k) ex env now (RetiredFailed (inst_id r)) m)
    (\<lambda>v. v = force_view RetiredRole ((view m)\<lparr>v_supervisor := Some s'\<rparr>) \<and> steady b v s')"
proof -
  assume d: "v_deferred (view m) = None"
  have l: "linked b (Some s) (v_worker (view m))" using sound st(2) by (simp add: sound_def)
  have inv: "supervisor_inv s" by (rule linked_inv [OF l])
  have id: "same_instance r w" using linked_same [OF l w] r by simp
  have c: "sup_candidate s = None" "v_worker (view m) CandidateRole = None"
    using retired_excludes [OF inv r] linked_None [OF l, of CandidateRole] by simp_all
  have eff: "apply_event s (RetiredFailed (inst_id r)) = (s', Ok [replacement_action.Kill (inst_id r)])"
    using inv r by (auto elim!: supervisor_shapes simp: apply_event.simps sup_defs s'_def)
  define m1 where "m1 = m\<lparr>m_supervisor := Some s'\<rparr>"
  have v1: "view m1 = (view m)\<lparr>v_supervisor := Some s'\<rparr>" by (simp add: m1_def)
  have sound1: "sound b (view m1)" using sound_supervisor [OF sound st(2), of "RetiredFailed (inst_id r)"] by (simp add: v1 eff)
  have role: "role_for m1 (inst_id r) = Some RetiredRole"
    using view_role_Some [of b "v_supervisor (view m1)" "view m1" RetiredRole w] sound1 w id by (simp add: role_for_view sound_def v1 same_instance_def)
  have "steady b (force_view RetiredRole (view m1)) s'"
    using st a c w id d killed_forced [of b "Some s" "v_worker (view m)" RetiredRole w] l
    by (intro steadyI [OF sound_force [OF sound1], where a = a])
      (auto simp: v1 s'_def phase_def intro!: fits_forced simp: same_instance_def)
  moreover have "ends_ok (execute_kill env (inst_id r) m1) (\<lambda>v. v = force_view RetiredRole (view m1))"
    using force_role_ends [OF os, of m1 RetiredRole] w by (simp add: execute_kill_def role v1)
  moreover have "apply_replacement_event (Suc k) ex env now (RetiredFailed (inst_id r)) m = seq_bind (execute_kill env (inst_id r) m1) (\<lambda>m _. (m, Ok ()))"
    by (simp add: supervisor_apply_ends [OF st(2)] eff m1_def)
  ultimately show ?thesis unfolding v1 by (simp only:) (erule ends_ok_seq, simp)
qed

lemma retired_stopped_ends:
  assumes "v_supervisor (view m) = Some s" and "sup_retired s = Some r" and "inst_lifecycle r = Stopping"
  shows "apply_replacement_event (Suc k) ex env now (RetiredStopped (inst_id r)) m
    = (m\<lparr>m_supervisor := Some (s\<lparr>sup_retired := None\<rparr>)\<rparr>, Ok ())"
  using assms by (simp add: supervisor_apply_ends [OF assms(1)] apply_event.simps sup_defs)

lemma candidate_stopped_ends:
  assumes "v_supervisor (view m) = Some s" and "sup_candidate s = Some c" and "inst_lifecycle c = Stopping"
  shows "apply_replacement_event (Suc k) ex env now (CandidateStopped (inst_id c)) m
    = (m\<lparr>m_supervisor := Some (s\<lparr>sup_candidate := None\<rparr>)\<rparr>, Ok ())"
  using assms by (simp add: supervisor_apply_ends [OF assms(1)] apply_event.simps sup_defs)

end
