(* ===== verification/Master_Events.thy ===== *)
theory Master_Events
  imports Master_Invariant
begin

text \<open>
  Every replacement event that the master applies, and every failure that it compensates, leads from
  the invariant to the invariant and never returns an error.
\<close>

section \<open>Failures\<close>

lemma steady_ok: "steady b v s \<Longrightarrow> master_ok b v"
  using steadyD(4) [of b v s] by (auto simp: master_ok_def)

lemma failing_ok: "failing b v \<Longrightarrow> master_ok b v"
  by (auto simp: master_ok_def failing_def)

lemma sustained_ok: "sustained b v \<Longrightarrow> master_ok b v"
  by (auto simp: sustained_def intro: steady_ok failing_ok)

lemma sustained_sound: "sustained b v \<Longrightarrow> sound b v"
  by (auto simp: sustained_def dest: steadyD(1) failing_sound)

lemma sound_inv: "sound b v \<Longrightarrow> v_supervisor v = Some s \<Longrightarrow> supervisor_inv s"
  by (auto simp: sound_def dest: linked_inv)

lemma steady_phase_candidate:
  "steady b v s \<Longrightarrow> view_phase v \<in> {Some AdoptingCandidate, Some PhaseQuiescing, Some ActivatingCandidate} \<Longrightarrow> \<exists>c. sup_candidate s = Some c"
  by (auto simp: view_phase_def phase_def steadyD(5) split: option.splits lifecycle.splits if_splits)

lemma steady_phase_retired:
  "steady b v s \<Longrightarrow> view_phase v \<in> {Some DrainingRetired, Some StoppingRetired} \<Longrightarrow> \<exists>r. sup_retired s = Some r"
  by (auto simp: view_phase_def phase_def steadyD(5) split: option.splits lifecycle.splits if_splits)

lemma steady_failure [simp]: "steady b (v\<lparr>v_failure := f\<rparr>) s = steady b v s"
  by (simp add: steady_def)

lemma stopping_candidate_phase:
  "sustained b v \<Longrightarrow> stopping_candidate i v \<Longrightarrow> view_phase v = Some RollingBack"
  by (auto simp: stopping_candidate_def view_phase_def phase_def candidate_excludes dest!: sustained_sound sound_inv)

lemma begin_rollback_ends:
  assumes os: "os_ok env" and st: "steady b (view m) s" and c: "sup_candidate s = Some c"
  shows "v_deferred (view m) = None \<Longrightarrow> ends_ok (begin_rollback (apply_replacement_event (Suc k) ex env now) env failure m)
      (\<lambda>v. sustained b v \<and> v_deferred v = None \<and> stopping_candidate (inst_id c) v \<and> same_roles (view m) v)"
    and "v_deferred (view m) \<noteq> None \<Longrightarrow> begin_rollback again env failure m = fail_master env Crash m"
proof -
  assume d: "v_deferred (view m) = None"
  define m1 where "m1 = emit (RollbackStarted (inst_id c) failure) (m\<lparr>m_replacement_failure := Some failure\<rparr>)"
  have v1: "view m1 = (view m)\<lparr>v_failure := Some failure\<rparr>" by (simp add: m1_def)
  have "begin_rollback (apply_replacement_event (Suc k) ex env now) env failure m =
      seq_bind (apply_replacement_event (Suc k) ex env now (CandidateFailed (inst_id c)) m1) (\<lambda>m _. maybe_finish_rollback m)"
    using d c by (simp only: begin_rollback_def to_view steadyD(5) [OF st] bind.bind_lunit option.case m1_def simp_thms if_False)
  moreover have "ends_ok (apply_replacement_event (Suc k) ex env now (CandidateFailed (inst_id c)) m1)
      (\<lambda>v. sustained b v \<and> v_deferred v = None \<and> stopping_candidate (inst_id c) v \<and> same_roles (view m1) v)"
    unfolding rolled_back_def [symmetric] using st d c by (intro candidate_failed_ends [OF os]) (simp_all add: v1)
  ultimately show "ends_ok (begin_rollback (apply_replacement_event (Suc k) ex env now) env failure m)
      (\<lambda>v. sustained b v \<and> v_deferred v = None \<and> stopping_candidate (inst_id c) v \<and> same_roles (view m) v)"
    by (auto simp only:) (erule ends_ok_seq, auto simp: maybe_finish_rollback_def master_phase_view
      stopping_candidate_phase same_roles_def v1)
qed (simp add: begin_rollback_def)

text \<open>The state of a retired worker does not matter when it is failed.\<close>

lemma fail_retired_ends:
  assumes os: "os_ok env" and sound: "sound b (view m)" and st: "v_stage (view m) = Operational" "v_supervisor (view m) = Some s"
    and r: "sup_retired s = Some r" and a: "v_worker (view m) ActiveRole = Some a" "fits ActiveRole (sup_active s) a"
    and w: "v_worker (view m) RetiredRole = Some w" and d: "v_deferred (view m) = None"
  defines "s' \<equiv> s\<lparr>sup_retired := Some (r\<lparr>inst_lifecycle := Stopping\<rparr>)\<rparr>"
  shows "ends_ok (fail_retired (apply_replacement_event (Suc k) ex env now) failure m)
    (\<lambda>v. v = force_view RetiredRole ((view m)\<lparr>v_failure := Some failure, v_supervisor := Some s'\<rparr>) \<and> steady b v s')"
proof -
  let ?m = "m\<lparr>m_replacement_failure := Some failure\<rparr>"
  have "same_instance r w" using sound st(2) linked_same [of b s "v_worker (view m)" RetiredRole w] r w by (auto simp: sound_def)
  moreover have "ends_ok (apply_replacement_event (Suc k) ex env now (RetiredFailed (inst_id r)) ?m)
      (\<lambda>v. v = force_view RetiredRole ((view ?m)\<lparr>v_supervisor := Some s'\<rparr>) \<and> steady b v s')"
    unfolding s'_def by (rule retired_failed_ends [OF os, where w = w and a = a]) (use sound st r a w d in simp_all)
  ultimately show ?thesis using w by (simp add: fail_retired_def role_id_view same_instance_def)
qed

lemma fail_retired_steady:
  assumes os: "os_ok env" and st: "steady b (view m) s" and r: "sup_retired s = Some r"
  defines "s' \<equiv> s\<lparr>sup_retired := Some (r\<lparr>inst_lifecycle := Stopping\<rparr>)\<rparr>"
  shows "ends_ok (fail_retired (apply_replacement_event (Suc k) ex env now) failure m)
    (\<lambda>v. v = force_view RetiredRole ((view m)\<lparr>v_failure := Some failure, v_supervisor := Some s'\<rparr>) \<and> steady b v s')"
proof -
  obtain w where w: "v_worker (view m) RetiredRole = Some w" using steady_role [OF st, of RetiredRole r] r by auto
  obtain a where a: "v_worker (view m) ActiveRole = Some a" "fits ActiveRole (sup_active s) a" using steadyD(6) [OF st] by auto
  have "v_deferred (view m) = None" using st r by (auto simp: steady_def phase_def split: lifecycle.splits)
  with fail_retired_ends [OF os steadyD(1,4,5) [OF st] r a w] show ?thesis by (simp add: s'_def)
qed

lemma master_ok_sound: "master_ok b v \<Longrightarrow> sound b v"
  by (auto simp: master_ok_def boot_def closing_def failing_def idle_def dest: steadyD(1) split: stage.splits)

lemma ends_ok_mono: "ends_ok c P \<Longrightarrow> (\<And>v. P v \<Longrightarrow> Q v) \<Longrightarrow> ends_ok c Q"
  by (simp add: ends_def)

lemma fail_master_ok:
  assumes "os_ok env" and "sound b (view m)" and "v_stage (view m) \<noteq> StageFailed"
  shows "ends_ok (fail_master env ph m) (master_ok b)"
  by (rule ends_ok_mono [OF fail_master_failing [OF assms]]) (simp add: failing_ok)

lemma closing_force:
  assumes "closing b v"
  shows "closing b (force_view role v)"
proof -
  have "killed (forced w)" if "v_worker v role = Some w" for w
    using assms that killed_forced by (auto simp: closing_def sound_def)
  with assms show ?thesis
    by (auto simp: closing_def killed_def intro: sound_force)
qed

lemma handle_phase_failure_ends:
  assumes os: "os_ok env" and ok: "master_ok b (view m)" and w: "v_worker (view m) role \<noteq> None"
  shows "ends_ok (handle_phase_failure (apply_replacement_event (Suc k) ex env now) env role failure m) (master_ok b)"
proof (cases "v_stage (view m)")
  case Operational
  then obtain s where st: "steady b (view m) s" using ok by (auto simp: master_ok_def)
  have failed: "ends_ok (fail_master env failure m) (master_ok b)" for failure
    by (rule fail_master_ok [OF os steadyD(1) [OF st]]) (simp add: Operational)
  let ?C = "role = CandidateRole \<and> view_phase (view m) \<in> {Some AdoptingCandidate, Some PhaseQuiescing, Some ActivatingCandidate}
    \<or> role = ActiveRole \<and> view_phase (view m) = Some PhaseQuiescing"
  let ?R = "role = RetiredRole \<and> view_phase (view m) \<in> {Some DrainingRetired, Some StoppingRetired}"
  have unfolded: "handle_phase_failure again env role failure m =
      (if ?C then begin_rollback again env failure m else if ?R then fail_retired again failure m else fail_master env failure m)"
    for again by (simp only: handle_phase_failure_def to_view Operational master_phase_view stage.case)
  consider (candidate) ?C | (retired) "\<not> ?C" ?R | (other) "\<not> ?C" "\<not> ?R" by blast
  then show ?thesis
  proof cases
    case candidate
    then obtain c where c: "sup_candidate s = Some c" using steady_phase_candidate [OF st] by auto
    show ?thesis
      unfolding unfolded if_P [OF candidate]
      using begin_rollback_ends(2) [OF os st c] ends_ok_mono [OF begin_rollback_ends(1) [OF os st c]] failed
      by (cases "v_deferred (view m) = None") (auto simp: sustained_ok)
  next
    case retired
    then obtain r where r: "sup_retired s = Some r" using steady_phase_retired [OF st] by auto
    show ?thesis
      unfolding unfolded if_not_P [OF retired(1)] if_P [OF retired(2)]
      by (rule ends_ok_mono [OF fail_retired_steady [OF os st r]]) (auto simp: steady_ok)
  next
    case other
    show ?thesis unfolding unfolded if_not_P [OF other(1)] if_not_P [OF other(2)] by (rule failed)
  qed
next
  case (StageShuttingDown d f)
  then have "closing b (view m)" using ok by (simp add: master_ok_def)
  with StageShuttingDown ends_ok_mono [OF force_role_ends [OF os w]] show ?thesis
    by (auto simp: handle_phase_failure_def master_ok_def closing_force)
next
  case StageFailed
  with ok w show ?thesis by (simp add: master_ok_def idle_def)
qed (use fail_master_ok [OF os master_ok_sound [OF ok]] in \<open>simp_all add: handle_phase_failure_def\<close>)

section \<open>Requests\<close>

lemma steady_next: "steady b v s \<Longrightarrow> v_next v \<le> n \<Longrightarrow> steady b (v\<lparr>v_next := n\<rparr>) s"
  by (auto simp: steady_def intro: sound_next)

lemma steady_sent:
  assumes st: "steady b v s" and i: "sup_role s role = Some i" and aw: "awaited role (inst_lifecycle i) (pd_phase p)"
    and running: "inst_lifecycle i \<noteq> Stopping" and active: "role = ActiveRole \<Longrightarrow> phase s \<noteq> Some ActivatingCandidate"
    and p: "pd_request_id p = v_next v" "v_next v < n"
  shows "steady b (sent (v\<lparr>v_next := n\<rparr>) role p) s"
proof -
  obtain w where w: "v_worker v role = Some w" "fits role i w" using steady_role [OF st i] by auto
  have "sound b (sent (v\<lparr>v_next := n\<rparr>) role p)"
    using w running by (intro sound_sent [OF steadyD(1) [OF st] w(1) _ p]) (cases role; simp add: fits_def)
  with st w fits_sent [OF w(2) aw] i active show ?thesis
    by (auto simp: steady_def)
qed

lemma issue_steady:
  assumes os: "os_ok env" and st: "steady b (view m) s" and i: "sup_role s role = Some i"
    and aw: "awaited role (inst_lifecycle i) ph" and running: "inst_lifecycle i \<noteq> Stopping"
    and active: "role = ActiveRole \<Longrightarrow> phase s \<noteq> Some ActivatingCandidate"
  shows "ends_ok (issue_or_compensate (apply_replacement_event (Suc k) ex env now) ex env role ph now timeout failure m) (master_ok b)"
proof (rule issue_or_compensate_ends)
  show "v_worker (view m) role \<noteq> None" using steady_role [OF st i] by auto
next
  fix n and p :: pending assume "pd_phase p = ph" "pd_request_id p = v_next (view m)" "v_next (view m) < n"
  then have "steady b (sent ((view m)\<lparr>v_next := n\<rparr>) role p) s"
    using steady_sent [OF st i _ running active] aw by simp
  then show "is_ok (Ok ()) \<and> master_ok b (sent ((view m)\<lparr>v_next := n\<rparr>) role p)" by (simp add: steady_ok)
next
  fix m' :: "('a, 'b, 'c, 'd) master" and n assume "view m' = (view m)\<lparr>v_next := n\<rparr>" "v_next (view m) \<le> n"
  then show "ends_ok (handle_phase_failure (apply_replacement_event (Suc k) ex env now) env role failure m') (master_ok b)"
    using steady_next [OF st] steady_role [OF st i] by (intro handle_phase_failure_ends [OF os]) (auto intro: steady_ok)
qed

section \<open>Events\<close>

lemma event_starts:
  assumes "v_supervisor (view m) = Some s" and "apply_event s e = (s', Ok actions)"
  shows "apply_replacement_event (Suc k) ex env now e m =
    execute_replacement_actions (apply_replacement_event k ex env now) ex env now None actions (m\<lparr>m_supervisor := Some s'\<rparr>)"
  using assms by (simp add: supervisor_apply_ends [OF assms(1)])

text \<open>An event that keeps the roles leaves the master steady when the workers fit the new lifecycles.\<close>

lemma steady_event:
  assumes st: "steady b v s" and e: "fst (apply_event s e) = s'" "keeps_roles e"
    and "\<And>role i w. sup_role s role = Some i \<Longrightarrow> v_worker v role = Some w \<Longrightarrow> fits role i w \<Longrightarrow>
      fits role (the (sup_role s' role)) w"
    and "phase s' = Some ActivatingCandidate \<Longrightarrow> v_deferred v = None \<and> (\<forall>w. v_worker v ActiveRole = Some w \<longrightarrow> v_pending w = None)"
    and "v_deferred v = None"
  shows "steady b (v\<lparr>v_supervisor := Some s'\<rparr>) s'"
proof -
  have "rel_option (fits role) (sup_role s' role) (v_worker v role)" for role
  proof (cases "sup_role s role")
    case None
    then have "sup_role s' role = None" "v_worker v role = None"
      using apply_event_no_role [OF steadyD(3) [OF st] e(2)] e(1) linked_None [OF steadyD(2) [OF st]] by auto
    then show ?thesis by simp
  next
    case (Some i)
    then obtain w where w: "v_worker v role = Some w" "fits role i w" using steady_role [OF st] by auto
    moreover obtain i' where "sup_role s' role = Some i'"
      using apply_event_roles [OF steadyD(3) [OF st] e(2) Some] e(1) by auto
    ultimately show ?thesis using assms(4) [OF Some w] by simp
  qed
  then show ?thesis
    using st assms sound_supervisor [OF steadyD(1,5) [OF st] e(2)] by (auto simp: steady_def)
qed

lemma role_for_steady: "steady b (view m) s \<Longrightarrow> sup_role s role = Some i \<Longrightarrow> role_for m (inst_id i) = Some role"
  using steady_role [of b "view m" s role i] view_role_Some [of b "v_supervisor (view m)" "view m" role] steadyD(2,5) [of b "view m" s]
  by (auto simp: role_for_view)

lemma supervisor_same: "v_supervisor v = Some s \<Longrightarrow> v\<lparr>v_supervisor := Some s\<rparr> = v"
  by (cases v) simp

lemma ends_ok_last:
  "ends_ok c P \<Longrightarrow> ends_ok (seq_bind c (\<lambda>m _. (m, Ok ()))) P"
  by (erule ends_ok_seq) simp

lemma candidate_prepared_ends:
  assumes os: "os_ok env" and st: "steady b (view m) s" and c: "sup_candidate s = Some c" "inst_lifecycle c = Preparing"
    and w: "v_worker (view m) CandidateRole = Some w" "v_pending w = None"
  shows "ends_ok (apply_replacement_event (Suc (Suc k)) ex env now (CandidatePrepared (inst_id c)) m) (master_ok b)"
proof -
  define s' where "s' = s\<lparr>sup_candidate := Some (c\<lparr>inst_lifecycle := Ready\<rparr>), sup_active := (sup_active s)\<lparr>inst_lifecycle := Quiescing\<rparr>\<rparr>"
  have inv: "supervisor_inv s" by (rule steadyD(3) [OF st])
  have a: "inst_lifecycle (sup_active s) = Active" using inv c by (auto elim!: supervisor_shapes)
  have eff: "apply_event s (CandidatePrepared (inst_id c)) = (s', Ok [replacement_action.Quiesce (inst_id (sup_active s))])"
    using c a by (simp add: apply_event.simps sup_defs s'_def)
  have ph: "phase s' = Some PhaseQuiescing" using candidate_excludes [OF inv c(1)] by (simp add: phase_def s'_def)
  have d: "v_deferred (view m) = None" using st c candidate_excludes [OF inv c(1)] by (auto simp: steady_def phase_def)
  have st': "steady b ((view m)\<lparr>v_supervisor := Some s'\<rparr>) s'"
  proof (rule steady_event [OF st _ _ _ _ d, where e = "CandidatePrepared (inst_id c)"])
    fix role i u assume "sup_role s role = Some i" "v_worker (view m) role = Some u" "fits role i u"
    then show "fits role (the (sup_role s' role)) u"
      using w c a candidate_excludes [OF inv c(1)] by (cases role) (auto simp: s'_def fits_def same_instance_def)
  qed (simp_all add: eff ph)
  let ?m = "m\<lparr>m_supervisor := Some s'\<rparr>"
  have "role_for ?m (inst_id (sup_active s)) = Some ActiveRole"
    using role_for_steady [of b ?m s' ActiveRole "sup_active s'"] st' by (simp add: s'_def)
  then have "ends_ok (execute_quiesce (apply_replacement_event (Suc k) ex env now) ex env now (inst_id (sup_active s)) ?m) (master_ok b)"
    using issue_steady [OF os, of b ?m s' ActiveRole "sup_active s'"] st' ph by (simp add: execute_quiesce_def s'_def)
  then show ?thesis
    unfolding event_starts [OF steadyD(5) [OF st] eff] execute_replacement_actions.simps by (rule ends_ok_last)
qed

lemma active_quiesced_ends:
  assumes os: "os_ok env" and st: "steady b (view m) s" and c: "sup_candidate s = Some c" "inst_lifecycle c = Ready"
    and w: "v_worker (view m) ActiveRole = Some w" "v_pending w = None"
  shows "ends_ok (apply_replacement_event (Suc (Suc k)) ex env now (ActiveQuiesced (inst_id (sup_active s))) m) (master_ok b)"
proof -
  define s' where "s' = s\<lparr>sup_candidate := Some (c\<lparr>inst_lifecycle := Activating\<rparr>)\<rparr>"
  have inv: "supervisor_inv s" by (rule steadyD(3) [OF st])
  have a: "inst_lifecycle (sup_active s) = Quiescing" using inv c by (auto elim!: supervisor_shapes)
  have eff: "apply_event s (ActiveQuiesced (inst_id (sup_active s))) = (s', Ok [replacement_action.Activate (inst_id c)])"
    using c a by (simp add: apply_event.simps sup_defs s'_def)
  have d: "v_deferred (view m) = None" using st c candidate_excludes [OF inv c(1)] by (auto simp: steady_def phase_def)
  have st': "steady b ((view m)\<lparr>v_supervisor := Some s'\<rparr>) s'"
  proof (rule steady_event [OF st _ _ _ _ d, where e = "ActiveQuiesced (inst_id (sup_active s))"])
    fix role i u assume "sup_role s role = Some i" "v_worker (view m) role = Some u" "fits role i u"
    then show "fits role (the (sup_role s' role)) u"
      using w c a candidate_excludes [OF inv c(1)] by (cases role) (auto simp: s'_def fits_def same_instance_def)
  qed (use w d in \<open>simp_all add: eff\<close>)
  let ?m = "m\<lparr>m_supervisor := Some s'\<rparr>"
  have "role_for ?m (inst_id c) = Some CandidateRole"
    using role_for_steady [of b ?m s' CandidateRole "c\<lparr>inst_lifecycle := Activating\<rparr>"] st' by (simp add: s'_def)
  then have "ends_ok (execute_activate (apply_replacement_event (Suc k) ex env now) ex env now (inst_id c) ?m) (master_ok b)"
    using issue_steady [OF os, of b ?m s' CandidateRole "c\<lparr>inst_lifecycle := Activating\<rparr>"] st'
    by (simp add: execute_activate_def s'_def)
  then show ?thesis
    unfolding event_starts [OF steadyD(5) [OF st] eff] execute_replacement_actions.simps by (rule ends_ok_last)
qed

lemma active_reactivated_ends:
  assumes st: "steady b (view m) s" and a: "inst_lifecycle (sup_active s) = Reactivating"
    and w: "v_worker (view m) ActiveRole = Some w" "v_pending w = None"
  shows "ends_ok (apply_replacement_event (Suc k) ex env now (ActiveReactivated (inst_id (sup_active s))) m) (\<lambda>v. \<exists>s. steady b v s)"
proof -
  define s' where "s' = s\<lparr>sup_active := (sup_active s)\<lparr>inst_lifecycle := Active\<rparr>\<rparr>"
  have inv: "supervisor_inv s" by (rule steadyD(3) [OF st])
  have eff: "apply_event s (ActiveReactivated (inst_id (sup_active s))) = (s', Ok [])"
    using a by (simp add: apply_event.simps sup_defs s'_def)
  have ph: "phase s \<noteq> Some ActivatingCandidate" "phase s' \<noteq> Some ActivatingCandidate"
    using inv a by (auto elim!: supervisor_shapes simp: phase_def s'_def)
  have d: "v_deferred (view m) = None" using st ph by (auto simp: steady_def)
  have st': "steady b ((view m)\<lparr>v_supervisor := Some s'\<rparr>) s'"
  proof (rule steady_event [OF st _ _ _ _ d, where e = "ActiveReactivated (inst_id (sup_active s))"])
    fix role i u assume "sup_role s role = Some i" "v_worker (view m) role = Some u" "fits role i u"
    then show "fits role (the (sup_role s' role)) u"
      using w a by (cases role) (auto simp: s'_def fits_def same_instance_def)
  qed (simp_all add: eff ph)
  then show ?thesis
    unfolding event_starts [OF steadyD(5) [OF st] eff] execute_replacement_actions.simps by auto
qed

lemma termination_timed_out_ends:
  assumes os: "os_ok env" and sound: "sound b (view m)" and st: "v_supervisor (view m) = Some s"
    and r: "sup_retired s = Some r" "inst_lifecycle r = Stopping" and w: "v_worker (view m) RetiredRole = Some w"
  shows "ends_ok (apply_replacement_event (Suc k) ex env now (TerminationTimedOut (inst_id r)) m) (\<lambda>v. v = force_view RetiredRole (view m))"
proof -
  have l: "linked b (Some s) (v_worker (view m))" using sound st by (simp add: sound_def)
  have id: "v_id w = inst_id r" using linked_same [OF l w] r by (simp add: same_instance_def)
  have eff: "apply_event s (TerminationTimedOut (inst_id r)) = (s, Ok [replacement_action.Kill (inst_id r)])"
    using r by (simp add: apply_event.simps sup_defs)
  have "ends_ok (execute_kill env (inst_id r) (m\<lparr>m_supervisor := Some s\<rparr>)) (\<lambda>v. v = force_view RetiredRole (view m))"
    using force_role_ends [OF os, of "m\<lparr>m_supervisor := Some s\<rparr>" RetiredRole] w view_role_Some [of b "v_supervisor (view m)" "view m" RetiredRole w] l st
    by (simp add: execute_kill_def role_for_view id supervisor_same)
  then show ?thesis
    unfolding event_starts [OF st eff] execute_replacement_actions.simps by (rule ends_ok_last)
qed

lemma issue_adoption_steady:
  assumes os: "os_ok env" and st: "steady b (view m) s" and c: "sup_candidate s = Some c" "inst_lifecycle c = Preparing"
  shows "ends_ok (execute_prepare (apply_replacement_event (Suc k) ex env now) ex env now (inst_id c) m) (master_ok b)"
proof -
  have role: "role_for m (inst_id c) = Some CandidateRole" using role_for_steady [OF st, of CandidateRole c] c by simp
  obtain w where w: "v_worker (view m) CandidateRole = Some w" using steady_role [OF st, of CandidateRole c] c by auto
  obtain m1 r where i: "issue_adoption ex env CandidateRole now m = (m1, r)" by fastforce
  have issued: "issued (view m) CandidateRole AdoptListeners (view m1) r"
    using issue_adoption_ends [of m CandidateRole ex env now] w by (simp add: i)
  show ?thesis
  proof (cases r)
    case (Inl e)
    with issued obtain n where e: "is_issue_failure e" and n: "v_next (view m) \<le> n" "view m1 = (view m)\<lparr>v_next := n\<rparr>"
      by (auto simp: issued_def)
    have "ends_ok (compensate_issue_error (apply_replacement_event (Suc k) ex env now) env CandidateRole AdoptListeners ListenerAdoption e m1) (master_ok b)"
      unfolding compensate_issue_error_def
      using steady_next [OF st n(1)] w n(2)
      by (intro ends_ok_seq [OF record_issue_failure_ends [OF e]] handle_phase_failure_ends [OF os]) (auto intro: steady_ok)
    then show ?thesis by (simp add: execute_prepare_def role i Inl)
  next
    case (Inr u)
    with issued st c have "steady b (view m1) s"
      by (auto simp: issued_def intro!: steady_sent [where i = c])
    then show ?thesis by (simp add: execute_prepare_def role i Inr steady_ok)
  qed
qed

lemma candidate_spawned_ends:
  assumes st: "steady b (view m) s" and c: "sup_candidate s = Some c" "inst_lifecycle c = Spawned"
  defines "s' \<equiv> s\<lparr>sup_candidate := Some (c\<lparr>inst_lifecycle := Handshaking\<rparr>)\<rparr>"
  shows "ends_ok (apply_replacement_event (Suc k) ex env now (CandidateSpawned (inst_id c)) m) (\<lambda>v. steady b v s')"
proof -
  have inv: "supervisor_inv s" by (rule steadyD(3) [OF st])
  have eff: "apply_event s (CandidateSpawned (inst_id c)) = (s', Ok [])"
    using c by (simp add: apply_event.simps sup_defs s'_def)
  have d: "v_deferred (view m) = None" using st c candidate_excludes [OF inv c(1)] by (auto simp: steady_def phase_def)
  have "steady b ((view m)\<lparr>v_supervisor := Some s'\<rparr>) s'"
  proof (rule steady_event [OF st _ _ _ _ d, where e = "CandidateSpawned (inst_id c)"])
    fix role i u assume "sup_role s role = Some i" "v_worker (view m) role = Some u" "fits role i u"
    then show "fits role (the (sup_role s' role)) u"
      using c by (cases role) (auto simp: s'_def fits_def same_instance_def)
  qed (use candidate_excludes [OF inv c(1)] in \<open>simp_all add: eff phase_def s'_def\<close>)
  then show ?thesis
    unfolding event_starts [OF steadyD(5) [OF st] eff] execute_replacement_actions.simps by auto
qed

lemma candidate_handshake_ends:
  assumes os: "os_ok env" and st: "steady b (view m) s" and c: "sup_candidate s = Some c" "inst_lifecycle c = Handshaking"
  shows "ends_ok (apply_replacement_event (Suc (Suc k)) ex env now (CandidateHandshakeComplete (inst_id c)) m) (master_ok b)"
proof -
  define s' where "s' = s\<lparr>sup_candidate := Some (c\<lparr>inst_lifecycle := Preparing\<rparr>)\<rparr>"
  have inv: "supervisor_inv s" by (rule steadyD(3) [OF st])
  have eff: "apply_event s (CandidateHandshakeComplete (inst_id c)) = (s', Ok [replacement_action.Prepare (inst_id c)])"
    using c by (simp add: apply_event.simps sup_defs s'_def)
  have d: "v_deferred (view m) = None" using st c candidate_excludes [OF inv c(1)] by (auto simp: steady_def phase_def)
  have st': "steady b ((view m)\<lparr>v_supervisor := Some s'\<rparr>) s'"
  proof (rule steady_event [OF st _ _ _ _ d, where e = "CandidateHandshakeComplete (inst_id c)"])
    fix role i u assume "sup_role s role = Some i" "v_worker (view m) role = Some u" "fits role i u"
    then show "fits role (the (sup_role s' role)) u"
      using c by (cases role) (auto simp: s'_def fits_def same_instance_def)
  qed (use candidate_excludes [OF inv c(1)] in \<open>simp_all add: eff phase_def s'_def\<close>)
  then have "ends_ok (execute_prepare (apply_replacement_event (Suc k) ex env now) ex env now (inst_id c) (m\<lparr>m_supervisor := Some s'\<rparr>)) (master_ok b)"
    using issue_adoption_steady [OF os, of b "m\<lparr>m_supervisor := Some s'\<rparr>" s' "c\<lparr>inst_lifecycle := Preparing\<rparr>"] by (simp add: s'_def)
  then show ?thesis
    unfolding event_starts [OF steadyD(5) [OF st] eff] execute_replacement_actions.simps by (rule ends_ok_last)
qed

lemma shutdown_sent_steady:
  assumes sound: "sound b v" and st: "v_stage v = Operational" "v_supervisor v = Some s"
    and r: "sup_retired s = Some r" "inst_lifecycle r = Stopping" and a: "v_worker v ActiveRole = Some a" "fits ActiveRole (sup_active s) a"
    and w: "v_worker v RetiredRole = Some w" "v_state w = WorkerRunning" and d: "v_deferred v = None"
    and p: "pd_phase p = control_phase.Shutdown" "pd_request_id p = v_next v" "v_next v < n"
  shows "steady b (v\<lparr>v_next := n, v_worker := (v_worker v)(RetiredRole := Some (w\<lparr>v_pending := Some p, v_state := Terminating False\<rparr>))\<rparr>) s"
proof -
  have l: "linked b (Some s) (v_worker v)" using sound st(2) by (simp add: sound_def)
  have c: "sup_candidate s = None" "v_worker v CandidateRole = None"
    using retired_excludes [OF linked_inv [OF l] r(1)] linked_None [OF l, of CandidateRole] by simp_all
  have same: "same_instance r w" using linked_same [OF l w(1)] r by simp
  have "numbered b n ((v_worker v)(RetiredRole := Some (w\<lparr>v_pending := Some p, v_state := Terminating False\<rparr>)))"
    using sound p numbered_next [of b "v_next v" "v_worker v" n] known_new [of b "v_next v" "v_worker v" p n]
    by (auto simp: sound_def intro!: numbered_update)
  moreover have "linked b (Some s) ((v_worker v)(RetiredRole := Some (w\<lparr>v_pending := Some p, v_state := Terminating False\<rparr>)))"
    by (rule linked_update [OF l w(1)]) simp_all
  ultimately show ?thesis
    using st a c r same p d by (intro steadyI [where a = a]) (auto simp: sound_def fits_def same_instance_def phase_def)
qed

lemma terminate_marks_retired:
  assumes "v_worker (view m) RetiredRole = Some w"
  shows "ends_ok (seq_bind (mark_terminating RetiredRole False m) (\<lambda>m _.
      update_worker RetiredRole (\<lambda>w. w\<lparr>mw_termination_deadline := Some dl\<rparr>) m))
    (\<lambda>v. v = (view m)\<lparr>v_worker := (v_worker (view m))(RetiredRole := Some (w\<lparr>v_state := Terminating False\<rparr>))\<rparr>)"
proof (rule ends_ok_seq [OF mark_terminating_ends [OF assms]])
  fix m2 :: "('a, 'b, 'c, 'd) master"
  assume "view m2 = (view m)\<lparr>v_worker := (v_worker (view m))(RetiredRole := Some (w\<lparr>v_state := Terminating False\<rparr>))\<rparr>"
  then show "ends_ok (update_worker RetiredRole (\<lambda>w. w\<lparr>mw_termination_deadline := Some dl\<rparr>) m2)
      (\<lambda>v. v = (view m)\<lparr>v_worker := (v_worker (view m))(RetiredRole := Some (w\<lparr>v_state := Terminating False\<rparr>))\<rparr>)"
    by (intro ends_ok_mono [OF update_worker_ends [where g = "\<lambda>w. w" and w = "w\<lparr>v_state := Terminating False\<rparr>"]]) auto
qed

lemma terminate_retired_ends:
  assumes os: "os_ok env" and sound: "sound b (view m)" and st: "v_stage (view m) = Operational" "v_supervisor (view m) = Some s"
    and r: "sup_retired s = Some r" "inst_lifecycle r = Stopping" and a: "v_worker (view m) ActiveRole = Some a" "fits ActiveRole (sup_active s) a"
    and w: "v_worker (view m) RetiredRole = Some w" "v_state w = WorkerRunning" and d: "v_deferred (view m) = None"
  shows "ends_ok (execute_terminate (apply_replacement_event (Suc k) ex env now) ex env now (inst_id r) m) (master_ok b)"
proof -
  have l: "linked b (Some s) (v_worker (view m))" using sound st(2) by (simp add: sound_def)
  have role: "role_for m (inst_id r) = Some RetiredRole"
    using view_role_Some [of b "v_supervisor (view m)" "view m" RetiredRole w] l st w linked_same [OF l w(1)] r by (simp add: role_for_view same_instance_def)
  obtain m1 res where i: "issue ex env RetiredRole control_phase.Shutdown now (shutdown_timeout (m_config m)) m = (m1, res)" by fastforce
  have issued: "issued (view m) RetiredRole control_phase.Shutdown (view m1) res"
    using issue_ends [of m RetiredRole ex env control_phase.Shutdown now "shutdown_timeout (m_config m)"] w(1) by (simp add: i)
  show ?thesis
  proof (cases res)
    case (Inl e)
    with issued obtain n where e: "is_issue_failure e" and n: "v_next (view m) \<le> n" "view m1 = (view m)\<lparr>v_next := n\<rparr>"
      by (auto simp: issued_def)
    have "ends_ok (seq_bind (record_issue_failure RetiredRole control_phase.Shutdown e m1) (\<lambda>m _.
        fail_retired (apply_replacement_event (Suc k) ex env now) ShutdownFailure m)) (master_ok b)"
      by (rule ends_ok_seq [OF record_issue_failure_ends [OF e]],
          rule ends_ok_mono [OF fail_retired_ends [OF os, where b = b and s = s and w = w and a = a and r = r]])
        (use sound_next [OF sound n(1)] st r a w d n in \<open>auto intro: steady_ok\<close>)
    then show ?thesis using e by (simp add: execute_terminate_def role i Inl)
  next
    case (Inr dl)
    with issued obtain n p where p: "pd_phase p = control_phase.Shutdown" "pd_request_id p = v_next (view m)" "v_next (view m) < n"
      "view m1 = sent ((view m)\<lparr>v_next := n\<rparr>) RetiredRole p"
      by (auto simp: issued_def)
    have "ends_ok (seq_bind (mark_terminating RetiredRole False m1) (\<lambda>m _.
        update_worker RetiredRole (\<lambda>w. w\<lparr>mw_termination_deadline := Some dl\<rparr>) m)) (master_ok b)"
      by (rule ends_ok_mono [OF terminate_marks_retired [where w = "w\<lparr>v_pending := Some p\<rparr>"]])
        (use steady_ok [OF shutdown_sent_steady [OF sound st r a w d p(1-3)]] w in \<open>simp_all add: p sent_def\<close>)
    then show ?thesis by (simp add: execute_terminate_def role i Inr)
  qed
qed

lemma retired_drained_ends:
  assumes os: "os_ok env" and st: "steady b (view m) s" and r: "sup_retired s = Some r" "inst_lifecycle r = Draining"
  shows "ends_ok (apply_replacement_event (Suc (Suc k)) ex env now (RetiredDrained (inst_id r)) m) (master_ok b)"
proof -
  define s1 where "s1 = s\<lparr>sup_retired := Some (r\<lparr>inst_lifecycle := Snapshotting\<rparr>)\<rparr>"
  define s2 where "s2 = s\<lparr>sup_retired := Some (r\<lparr>inst_lifecycle := Stopping\<rparr>)\<rparr>"
  have eff1: "apply_event s (RetiredDrained (inst_id r)) = (s1, Ok [replacement_action.Snapshot (inst_id r)])"
    using r by (simp add: apply_event.simps sup_defs s1_def)
  have eff2: "apply_event s1 (RetiredSnapshotCaptured (inst_id r)) = (s2, Ok [replacement_action.Terminate (inst_id r)])"
    by (simp add: apply_event.simps sup_defs s1_def s2_def)
  let ?m1 = "m\<lparr>m_supervisor := Some s1\<rparr>" and ?m2 = "m\<lparr>m_supervisor := Some s2\<rparr>"
  have "sound b (view ?m1)" using sound_supervisor [OF steadyD(1,5) [OF st], of "RetiredDrained (inst_id r)"] by (simp add: eff1)
  from sound_supervisor [OF this, of s1 "RetiredSnapshotCaptured (inst_id r)"] have sound: "sound b (view ?m2)" by (simp add: eff2)
  obtain w where w: "v_worker (view m) RetiredRole = Some w" "fits RetiredRole r w" using steady_role [OF st, of RetiredRole r] r by auto
  obtain a where a: "v_worker (view m) ActiveRole = Some a" "fits ActiveRole (sup_active s) a" using steadyD(6) [OF st] by auto
  have d: "v_deferred (view m) = None" using st r by (auto simp: steady_def phase_def)
  have "ends_ok (execute_terminate (apply_replacement_event (Suc k) ex env now) ex env now (inst_id r) ?m2) (master_ok b)"
    using terminate_retired_ends [OF os sound, where s = s2 and r = "r\<lparr>inst_lifecycle := Stopping\<rparr>" and a = a and w = w] steadyD(4) [OF st] w a d r
    by (simp add: s2_def fits_def)
  moreover have "supervisor_apply (RetiredSnapshotCaptured (inst_id r)) ?m1 = (?m2, Ok [replacement_action.Terminate (inst_id r)])"
    using supervisor_apply_ends [of ?m1 s1] by (simp add: eff2)
  ultimately show ?thesis
    unfolding event_starts [OF steadyD(5) [OF st] eff1] by (simp add: ends_ok_last)
qed

definition rotated :: "master_view \<Rightarrow> master_view" where
  "rotated v = v\<lparr>v_worker := (v_worker v)(ActiveRole := v_worker v CandidateRole, CandidateRole := None, RetiredRole := v_worker v ActiveRole)\<rparr>"

lemma master_commit_candidate_ends:
  assumes "v_supervisor (view m) = Some s" and "v_worker (view m) ActiveRole = Some a" and "v_id a = retired"
    and "v_worker (view m) CandidateRole = Some c" and "v_id c = inst_id (sup_active s)"
  shows "ends_ok (master_commit_candidate retired m) (\<lambda>v. v = rotated (view m))"
  using assms by (auto simp: master_commit_candidate_def role_id_view rotated_def Let_def v_worker_view simp del: worker_None)

lemma activation_rotates:
  assumes st: "steady b v s" and c: "sup_candidate s = Some c" "inst_lifecycle c = Activating"
    and w: "v_worker v CandidateRole = Some w" "v_pending w = None" and serves: "b_serves b (inst_id c) (inst_generation c)"
  defines "s' \<equiv> \<lparr>sup_active = c\<lparr>inst_lifecycle := Active\<rparr>, sup_candidate = None, sup_retired = Some ((sup_active s)\<lparr>inst_lifecycle := Draining\<rparr>)\<rparr>"
  shows "steady b (rotated (v\<lparr>v_supervisor := Some s', v_deferred := None\<rparr>)) s'"
proof -
  have inv: "supervisor_inv s" by (rule steadyD(3) [OF st])
  have q: "inst_lifecycle (sup_active s) = Quiescing" "inst_generation (sup_active s) < inst_generation c" "inst_id c \<noteq> inst_id (sup_active s)"
    using inv c by (auto elim!: supervisor_shapes)
  obtain a where a: "v_worker v ActiveRole = Some a" "fits ActiveRole (sup_active s) a" using steadyD(6) [OF st] by auto
  have p: "v_pending a = None" using st a c candidate_excludes [OF inv c(1)] by (auto simp: steady_def phase_def)
  have fits: "fits CandidateRole c w" using steadyD(7) [OF st] c w by simp
  have inv': "supervisor_inv s'" using q by (simp add: supervisor_inv_def s'_def)
  have "sound b (rotated (v\<lparr>v_supervisor := Some s', v_deferred := None\<rparr>))"
    using steadyD(1) [OF st] w a p fits q inv' serves
    by (auto simp: sound_def numbered_def linked_def all_worker_roles rotated_def s'_def fits_def same_instance_def)
  then show ?thesis
    using w a p fits q steadyD(4) [OF st] c
    by (intro steadyI [where a = w]) (auto simp: rotated_def s'_def fits_def same_instance_def phase_def)
qed

text \<open>A worker that has stopped leaves its role in the master and in the supervisor.\<close>

definition without :: "worker_role \<Rightarrow> supervisor \<Rightarrow> supervisor" where
  "without role s = (case role of CandidateRole \<Rightarrow> s\<lparr>sup_candidate := None\<rparr> | RetiredRole \<Rightarrow> s\<lparr>sup_retired := None\<rparr> | ActiveRole \<Rightarrow> s)"

definition gone :: "worker_role \<Rightarrow> supervisor \<Rightarrow> master_view \<Rightarrow> master_view" where
  "gone role s v = v\<lparr>v_worker := (v_worker v)(role := None), v_supervisor := Some (without role s)\<rparr>"

lemma gone_fields [simp]:
  "v_stage (gone role s v) = v_stage v" "v_supervisor (gone role s v) = Some (without role s)"
  "v_deferred (gone role s v) = v_deferred v" "v_failure (gone role s v) = v_failure v" "v_next (gone role s v) = v_next v"
  "v_worker (gone role s v) = (v_worker v)(role := None)"
  by (simp_all add: gone_def)

lemma sup_role_without: "role \<noteq> ActiveRole \<Longrightarrow> sup_role (without role s) role' = (if role' = role then None else sup_role s role')"
  by (cases role; cases role') (simp_all add: without_def)

lemma without_inv:
  "supervisor_inv s \<Longrightarrow> role \<noteq> ActiveRole \<Longrightarrow> sup_role s role = Some i \<Longrightarrow> inst_lifecycle i = Stopping \<Longrightarrow> supervisor_inv (without role s)"
  by (cases role; erule supervisor_shapes) (auto simp: without_def supervisor_inv_def)

lemma sound_gone:
  assumes "sound b v" and "v_supervisor v = Some s" and i: "role \<noteq> ActiveRole" "sup_role s role = Some i" "inst_lifecycle i = Stopping"
  shows "sound b (gone role s v)"
proof -
  have l: "linked b (Some s) (v_worker v)" using assms(1,2) by (simp add: sound_def)
  have inv: "supervisor_inv (without role s)" by (rule without_inv [OF linked_inv [OF l] i])
  have "linked b (Some (without role s)) ((v_worker v)(role := None))"
  proof (rule linked_change [OF linked_drop [OF l]])
    fix t role' w assume "Some (without role s) = Some t" and w: "((v_worker v)(role := None)) role' = Some w"
    then have "t = without role s" "role' \<noteq> role" "v_worker v role' = Some w" by (auto split: if_splits)
    then show "\<exists>i. sup_role t role' = Some i \<and> same_instance i w"
      using linked_same [OF l, of role' w] i(1) by (simp add: sup_role_without)
  qed (use inv in simp)
  with assms(1) show ?thesis by (simp add: sound_def numbered_drop)
qed

lemma phase_without:
  assumes "supervisor_inv s" and "role \<noteq> ActiveRole" and "sup_role s role = Some i"
  shows "phase (without role s) \<noteq> Some ActivatingCandidate"
  using assms(1) by (cases rule: supervisor_shapes; cases role) (use assms in \<open>auto simp: phase_def without_def\<close>)

lemma steady_gone:
  assumes st: "steady b v s" and i: "role \<noteq> ActiveRole" "sup_role s role = Some i" "inst_lifecycle i = Stopping"
  shows "steady b (gone role s v) (without role s)"
proof -
  have "phase s \<noteq> Some ActivatingCandidate"
    using steadyD(3) [OF st] i by (cases role) (auto elim!: supervisor_shapes simp: phase_def)
  with st i sound_gone [OF steadyD(1,5) [OF st] i] phase_without [OF steadyD(3) [OF st] i(1,2)]
  show ?thesis by (auto simp: steady_def sup_role_without)
qed

lemma failing_gone:
  assumes "failing b v" and "v_supervisor v = Some s" and i: "role \<noteq> ActiveRole" "sup_role s role = Some i" "inst_lifecycle i = Stopping"
  shows "failing b (gone role s v)"
  using assms(1) sound_gone [OF failing_sound [OF assms(1)] assms(2) i] by (auto simp: failing_def)

lemma retired_exit_tail:
  assumes st: "steady b (view m) s" and r: "sup_retired s = Some r" "inst_lifecycle r = Stopping"
  shows "v_failure (view m) \<noteq> None \<Longrightarrow> ends_ok (seq_bind (apply_replacement_event (Suc k) ex env now (RetiredStopped (inst_id r)) (drop_worker env RetiredRole m))
      (\<lambda>m _. complete_failed_retired m)) (master_ok b)"
    and "ends_ok (seq_bind (apply_replacement_event (Suc k) ex env now (RetiredStopped (inst_id r)) (drop_worker env RetiredRole m))
      (\<lambda>m _. if m_replacement_failure m \<noteq> None then complete_failed_retired m else complete_replacement m)) (master_ok b)"
proof -
  define m1 where "m1 = (drop_worker env RetiredRole m)\<lparr>m_supervisor := Some (s\<lparr>sup_retired := None\<rparr>)\<rparr>"
  have v1: "view m1 = gone RetiredRole s (view m)" by (simp add: m1_def gone_def without_def)
  have e: "apply_replacement_event (Suc k) ex env now (RetiredStopped (inst_id r)) (drop_worker env RetiredRole m) = (m1, Ok ())"
    using steadyD(5) [OF st] r by (simp only: m1_def) (rule retired_stopped_ends, simp_all)
  have st1: "steady b (view m1) (without RetiredRole s)" unfolding v1 by (rule steady_gone [OF st]) (use r in simp_all)
  obtain a where a: "v_worker (view m) ActiveRole = Some a" using steadyD(6) [OF st] by auto
  have ok: "master_ok b (view m1)" "master_ok b ((view m1)\<lparr>v_failure := f\<rparr>)" for f
    using st1 steady_ok [of b _ "without RetiredRole s"] by simp_all
  show "v_failure (view m) \<noteq> None \<Longrightarrow> ends_ok (seq_bind (apply_replacement_event (Suc k) ex env now (RetiredStopped (inst_id r)) (drop_worker env RetiredRole m))
      (\<lambda>m _. complete_failed_retired m)) (master_ok b)"
    using a ok unfolding e by (auto simp: complete_failed_retired_def complete_replacement_def role_id_view v1)
  show "ends_ok (seq_bind (apply_replacement_event (Suc k) ex env now (RetiredStopped (inst_id r)) (drop_worker env RetiredRole m))
      (\<lambda>m _. if m_replacement_failure m \<noteq> None then complete_failed_retired m else complete_replacement m)) (master_ok b)"
    using a ok unfolding e by (auto simp: complete_failed_retired_def complete_replacement_def role_id_view v1)
qed

declare apply_replacement_event.simps [simp del]

lemma rotated_deferred: "rotated (v\<lparr>v_deferred := d\<rparr>) = (rotated v)\<lparr>v_deferred := d\<rparr>"
  by (cases v) (simp add: rotated_def)

lemma deferred_same: "v_deferred v = None \<Longrightarrow> v\<lparr>v_deferred := None\<rparr> = v"
  by (cases v) simp

lemma drain_deferred_ends:
  assumes os: "os_ok env" and st: "steady b (view m) s" and r: "sup_retired s = Some r"
  shows "ends_ok (seq_bind (fail_retired (apply_replacement_event (Suc k) ex env now) Crash m) (\<lambda>m _.
     seq_bind (m, retired_id m) (\<lambda>m retired.
     seq_bind (apply_replacement_event (Suc k) ex env now (RetiredStopped retired) (drop_worker env RetiredRole m)) (\<lambda>m _.
     complete_failed_retired m)))) (master_ok b)"
proof (rule ends_ok_seq [OF fail_retired_steady [OF os st r]])
  fix m1 :: "('a, 'b, 'c, 'd) master"
  let ?s = "s\<lparr>sup_retired := Some (r\<lparr>inst_lifecycle := Stopping\<rparr>)\<rparr>"
  assume m1: "view m1 = force_view RetiredRole ((view m)\<lparr>v_failure := Some Crash, v_supervisor := Some ?s\<rparr>) \<and> steady b (view m1) ?s"
  obtain w where "v_worker (view m1) RetiredRole = Some w" "v_id w = inst_id r"
    using steady_role [OF conjunct2 [OF m1], of RetiredRole "r\<lparr>inst_lifecycle := Stopping\<rparr>"] by auto
  then have id: "retired_id m1 = Ok (inst_id r)" by (simp add: role_id_view)
  have "v_failure (view m1) \<noteq> None" using m1 by simp
  then show "ends_ok (seq_bind (m1, retired_id m1) (\<lambda>m retired.
     seq_bind (apply_replacement_event (Suc k) ex env now (RetiredStopped retired) (drop_worker env RetiredRole m)) (\<lambda>m _.
     complete_failed_retired m))) (master_ok b)"
    using retired_exit_tail(1) [OF conjunct2 [OF m1], of "r\<lparr>inst_lifecycle := Stopping\<rparr>"] by (simp add: id)
qed

lemma candidate_activated_ends:
  assumes os: "os_ok env" and st: "steady b (view m) s" and c: "sup_candidate s = Some c" "inst_lifecycle c = Activating"
    and w: "v_worker (view m) CandidateRole = Some w" "v_pending w = None" and serves: "b_serves b (inst_id c) (inst_generation c)"
  shows "ends_ok (apply_replacement_event (Suc (Suc k)) ex env now (CandidateActivated (inst_id c)) m) (master_ok b)"
proof -
  define r where "r = (sup_active s)\<lparr>inst_lifecycle := Draining\<rparr>"
  define s' where "s' = \<lparr>sup_active = c\<lparr>inst_lifecycle := Active\<rparr>, sup_candidate = None, sup_retired = Some r\<rparr>"
  have inv: "supervisor_inv s" by (rule steadyD(3) [OF st])
  have q: "inst_lifecycle (sup_active s) = Quiescing" using inv c by (auto elim!: supervisor_shapes)
  have eff: "apply_event s (CandidateActivated (inst_id c)) = (s', Ok [replacement_action.Drain (inst_id r)])"
    using c q by (simp add: apply_event.simps sup_defs s'_def r_def)
  have st': "steady b (rotated ((view m)\<lparr>v_supervisor := Some s', v_deferred := None\<rparr>)) s'"
    unfolding s'_def r_def by (rule activation_rotates [OF st c w serves])
  obtain a where a: "v_worker (view m) ActiveRole = Some a" "v_id a = inst_id (sup_active s)"
    using steady_role [OF st, of ActiveRole] by auto
  have wid: "v_id w = inst_id c" using steady_role [OF st, of CandidateRole c] c w by auto
  let ?m = "m\<lparr>m_supervisor := Some s'\<rparr>"
  have "ends_ok (execute_drain (apply_replacement_event (Suc k) ex env now) ex env now (inst_id r) ?m) (master_ok b)"
    unfolding execute_drain_def
  proof (rule ends_ok_seq [OF master_commit_candidate_ends [where s = s' and a = a and c = w]])
    fix m1 :: "('a, 'b, 'c, 'd) master" assume m1: "view m1 = rotated (view ?m)"
    show "ends_ok (case m_deferred_active_exit m1 of
         Some _ \<Rightarrow>
           seq_bind (fail_retired (apply_replacement_event (Suc k) ex env now) Crash (m1\<lparr>m_deferred_active_exit := None\<rparr>)) (\<lambda>m _.
           seq_bind (m, retired_id m) (\<lambda>m retired.
           seq_bind (apply_replacement_event (Suc k) ex env now (RetiredStopped retired) (drop_worker env RetiredRole m)) (\<lambda>m _.
           complete_failed_retired m)))
       | None \<Rightarrow>
           issue_or_compensate (apply_replacement_event (Suc k) ex env now) ex env RetiredRole control_phase.Drain now
             (drain_timeout (m_config m1)) DrainFailure m1) (master_ok b)"
    proof (cases "v_deferred (view m1)")
      case None
      with m1 have "rotated ((view m)\<lparr>v_supervisor := Some s', v_deferred := None\<rparr>) = view m1"
        by (simp add: rotated_def deferred_same)
      with st' have "steady b (view m1) s'" by simp
      from issue_steady [OF os this, of RetiredRole r control_phase.Drain] None show ?thesis by (simp add: s'_def r_def)
    next
      case (Some d)
      have "steady b (view (m1\<lparr>m_deferred_active_exit := None\<rparr>)) s'" using m1 st' by (simp add: rotated_deferred)
      from drain_deferred_ends [OF os this] Some show ?thesis by (simp add: s'_def)
    qed
  qed (use a w wid in \<open>simp_all add: s'_def r_def\<close>)
  then show ?thesis
    unfolding event_starts [OF steadyD(5) [OF st] eff] execute_replacement_actions.simps by (rule ends_ok_last)
qed

end
