(* ===== verification/Master_Runs.thy ===== *)
theory Master_Runs
  imports Master_Events
begin

text \<open>
  The observations, the deadlines and the public operations of the master keep its invariant.
\<close>

section \<open>Exits\<close>

lemma maybe_finish_rollback_ends:
  assumes "sustained b (view m)" and "v_worker (view m) ActiveRole \<noteq> None"
  shows "ends_ok (maybe_finish_rollback m) (sustained b)"
proof -
  have "sustained b ((view m)\<lparr>v_failure := None\<rparr>)" using assms(1) by (simp add: sustained_def failing_def)
  with assms show ?thesis by (auto simp: maybe_finish_rollback_def role_id_view)
qed

lemma candidate_exit_tail:
  assumes sus: "sustained b (view m)" and c: "stopping_candidate i (view m)" and a: "v_worker (view m) ActiveRole \<noteq> None"
  shows "ends_ok (seq_bind (apply_replacement_event (Suc k) ex env now (CandidateStopped i) (drop_worker env CandidateRole m))
      (\<lambda>m _. maybe_finish_rollback m)) (master_ok b)"
proof -
  obtain s c where s: "v_supervisor (view m) = Some s" "sup_candidate s = Some c" "inst_id c = i" "inst_lifecycle c = Stopping"
    using c by (auto simp: stopping_candidate_def)
  define m1 where "m1 = (drop_worker env CandidateRole m)\<lparr>m_supervisor := Some (s\<lparr>sup_candidate := None\<rparr>)\<rparr>"
  have v1: "view m1 = gone CandidateRole s (view m)" by (simp add: m1_def gone_def without_def)
  have e: "apply_replacement_event (Suc k) ex env now (CandidateStopped i) (drop_worker env CandidateRole m) = (m1, Ok ())"
    using candidate_stopped_ends [of "drop_worker env CandidateRole m" s c k ex env now] s by (simp add: m1_def)
  have "sustained b (view m1)"
    using sus unfolding sustained_def v1
  proof (elim disjE exE)
    assume "failing b (view m)"
    with s show "failing b (gone CandidateRole s (view m)) \<or> (\<exists>t. steady b (gone CandidateRole s (view m)) t)"
      by (intro disjI1 failing_gone [where i = c]) simp_all
  next
    fix t assume st: "steady b (view m) t"
    then have "t = s" using steadyD(5) [OF st] s by simp
    with st s steady_gone [of b "view m" s CandidateRole c]
    show "failing b (gone CandidateRole s (view m)) \<or> (\<exists>t. steady b (gone CandidateRole s (view m)) t)" by auto
  qed
  from maybe_finish_rollback_ends [OF this] a show ?thesis
    unfolding e seq_bind_Ok v1 by (auto intro: ends_ok_mono sustained_ok)
qed

lemma failing_drop: "failing b v \<Longrightarrow> failing b (v\<lparr>v_worker := (v_worker v)(role := None)\<rparr>)"
  by (auto simp: failing_def sound_drop)

lemma closing_drop: "closing b v \<Longrightarrow> closing b (v\<lparr>v_worker := (v_worker v)(role := None)\<rparr>)"
  by (auto simp: closing_def sound_drop)

text \<open>
  The error of an exit of the candidate that follows the deferred exit of the active worker: the
  master has already failed closed, so the supervisor never moved the candidate to \<open>Stopping\<close>.
\<close>

definition double_crash :: "master_view \<Rightarrow> (master_error, 'a) result \<Rightarrow> bool" where
  "double_crash v r \<longleftrightarrow> r = Err (MasterReplacement (UnexpectedLifecycle ''candidate'' Stopping Activating))
     \<and> (\<exists>f. v_stage v = StageFailing f) \<and> (\<forall>role. v_worker v role = None)"

abbreviation observed_ok :: "baseline \<Rightarrow> master_view \<Rightarrow> (master_error, 'a) result \<Rightarrow> bool" where
  "observed_ok b v r \<equiv> master_ok b v \<and> (is_ok r \<or> double_crash v r)"

lemma ends_ok_observed: "ends_ok c (master_ok b) \<Longrightarrow> ends c (observed_ok b)"
  by (auto simp: ends_def)

lemma rollback_phase_candidate:
  assumes st: "steady b v s" and p: "view_phase v = Some RollingBack" and w: "v_worker v CandidateRole = Some w"
  shows "stopping_candidate (v_id w) v"
proof -
  obtain c where "sup_candidate s = Some c" "fits CandidateRole c w" using steadyD(7) [OF st] w by (auto simp: option_rel_Some2)
  with p steadyD(3,5) [OF st] show ?thesis
    by (auto elim!: supervisor_shapes simp: stopping_candidate_def view_phase_def phase_def fits_def same_instance_def)
qed

lemma stopping_phase_retired:
  assumes st: "steady b v s" and p: "view_phase v = Some StoppingRetired"
  obtains r where "sup_retired s = Some r" "inst_lifecycle r = Stopping"
  using steadyD(3,5) [OF st] p by (auto elim!: supervisor_shapes simp: view_phase_def phase_def split: if_splits)

lemma double_crash_ends:
  assumes os: "os_ok env" and st: "steady b (view m) s" and c: "sup_candidate s = Some c" and d: "v_deferred (view m) \<noteq> None"
  shows "ends (seq_bind (fail_master env Crash m) (\<lambda>m _.
      seq_bind (apply_replacement_event (Suc k) ex env now (CandidateStopped (inst_id c)) (drop_worker env CandidateRole m)) (\<lambda>m _. maybe_finish_rollback m)))
    (\<lambda>v r. failing b v \<and> double_crash v r)"
proof (rule ends_ok_seq [OF fail_master_failing [OF os steadyD(1) [OF st]]])
  show "v_stage (view m) \<noteq> StageFailed" using steadyD(4) [OF st] by simp
next
  fix m1 :: "('a, 'b, 'c, 'd) master" assume m1: "failing b (view m1) \<and> view m1 = fail_view Crash (view m)"
  have ph: "phase s = Some ActivatingCandidate" using st d by (auto simp: steady_def)
  have s: "v_supervisor (view (drop_worker env CandidateRole m1)) = Some s" using m1 steadyD(5) [OF st] by simp
  have life: "inst_lifecycle c = Activating"
    using ph c candidate_excludes [OF steadyD(3) [OF st] c] by (auto simp: phase_def split: lifecycle.splits)
  then have "apply_event s (CandidateStopped (inst_id c)) = (s, Err (UnexpectedLifecycle ''candidate'' Stopping Activating))"
    using c by (simp add: apply_event.simps sup_defs)
  then have "apply_replacement_event (Suc k) ex env now (CandidateStopped (inst_id c)) (drop_worker env CandidateRole m1) =
      ((drop_worker env CandidateRole m1)\<lparr>m_supervisor := Some s\<rparr>, Err (MasterReplacement (UnexpectedLifecycle ''candidate'' Stopping Activating)))"
    by (simp add: apply_replacement_event.simps supervisor_apply_ends [OF s])
  moreover have "failing b (view (drop_worker env CandidateRole m1))" using failing_drop [OF conjunct1 [OF m1]] by simp
  moreover have "v_worker (view m) RetiredRole = None" using steadyD(8) [OF st] candidate_excludes [OF steadyD(3) [OF st] c] by simp
  then have "v_worker (view (drop_worker env CandidateRole m1)) role = None" for role
    using d unfolding view_drop_worker conjunct2 [OF m1] by (cases role) simp_all
  ultimately show "ends (seq_bind (apply_replacement_event (Suc k) ex env now (CandidateStopped (inst_id c)) (drop_worker env CandidateRole m1))
      (\<lambda>m _. maybe_finish_rollback m)) (\<lambda>v r. failing b v \<and> double_crash v r)"
    using s by (simp add: double_crash_def failing_def supervisor_same del: view_drop_worker)
qed

lemma drop_fails_ok:
  assumes "os_ok env" and "sound b (view m)" and "v_stage (view m) \<noteq> StageFailed"
  shows "ends_ok (fail_master env ph (drop_worker env role m)) (master_ok b)"
  by (rule fail_master_ok [OF assms(1)]) (use assms(2,3) in \<open>simp_all add: sound_drop\<close>)

lemma candidate_crash_ends:
  assumes os: "os_ok env" and st: "steady b (view m) s" and c: "sup_candidate s = Some c"
  shows "ends (seq_bind (begin_rollback (apply_replacement_event (Suc k) ex env now) env Crash m) (\<lambda>m _.
      seq_bind (apply_replacement_event (Suc k) ex env now (CandidateStopped (inst_id c)) (drop_worker env CandidateRole m)) (\<lambda>m _.
      maybe_finish_rollback m))) (observed_ok b)"
proof (cases "v_deferred (view m) = None")
  case True
  obtain a where a: "v_worker (view m) ActiveRole = Some a" using steadyD(6) [OF st] by auto
  show ?thesis
    by (rule ends_ok_observed, rule ends_ok_seq [OF begin_rollback_ends(1) [OF os st c True]], rule candidate_exit_tail)
      (use a in \<open>auto simp: same_roles_def\<close>)
next
  case False
  show ?thesis
    unfolding begin_rollback_ends(2) [OF os st c False]
    by (rule ends_mono [OF double_crash_ends [OF os st c False]]) (auto intro: failing_ok)
qed

lemma retired_crash_ends:
  assumes os: "os_ok env" and st: "steady b (view m) s" and r: "sup_retired s = Some r"
  shows "ends_ok (seq_bind (fail_retired (apply_replacement_event (Suc k) ex env now) Crash m) (\<lambda>m _.
      seq_bind (apply_replacement_event (Suc k) ex env now (RetiredStopped (inst_id r)) (drop_worker env RetiredRole m)) (\<lambda>m _.
      complete_failed_retired m))) (master_ok b)"
proof (rule ends_ok_seq [OF fail_retired_steady [OF os st r]])
  fix m1 :: "('a, 'b, 'c, 'd) master"
  let ?s = "s\<lparr>sup_retired := Some (r\<lparr>inst_lifecycle := Stopping\<rparr>)\<rparr>"
  assume m1: "view m1 = force_view RetiredRole ((view m)\<lparr>v_failure := Some Crash, v_supervisor := Some ?s\<rparr>) \<and> steady b (view m1) ?s"
  then have "v_failure (view m1) \<noteq> None" by simp
  then show "ends_ok (seq_bind (apply_replacement_event (Suc k) ex env now (RetiredStopped (inst_id r)) (drop_worker env RetiredRole m1)) (\<lambda>m _.
      complete_failed_retired m)) (master_ok b)"
    using retired_exit_tail(1) [OF conjunct2 [OF m1], of "r\<lparr>inst_lifecycle := Stopping\<rparr>"] by simp
qed

lemma handle_exit_operational_eq:
  assumes st: "steady b (view m) s" and w: "v_worker (view m) role = Some w"
    and a: "\<not> (view_phase (view m) = Some ActivatingCandidate \<and> role = ActiveRole)"
    and m1: "m1 = emit (WorkerExited role (v_id w) status) m" and h: "h = handle_event ex env now"
  shows "handle_exit ex env now role status m =
      (if view_phase (view m) = Some RollingBack \<and> role = CandidateRole
       then seq_bind (h (CandidateStopped (v_id w)) (drop_worker env role m1)) (\<lambda>m _. maybe_finish_rollback m)
       else if view_phase (view m) = Some StoppingRetired \<and> role = RetiredRole
       then seq_bind (h (RetiredStopped (v_id w)) (drop_worker env role m1)) (\<lambda>m _.
              if m_replacement_failure m \<noteq> None then complete_failed_retired m else complete_replacement m)
       else if view_phase (view m) \<in> {Some AdoptingCandidate, Some PhaseQuiescing, Some ActivatingCandidate} \<and> role = CandidateRole
       then seq_bind (begin_rollback h env Crash m1) (\<lambda>m _.
              seq_bind (h (CandidateStopped (v_id w)) (drop_worker env role m)) (\<lambda>m _. maybe_finish_rollback m))
       else if view_phase (view m) = Some DrainingRetired \<and> role = RetiredRole
       then seq_bind (fail_retired h Crash m1) (\<lambda>m _.
              seq_bind (h (RetiredStopped (v_id w)) (drop_worker env role m)) (\<lambda>m _. complete_failed_retired m))
       else fail_master env Crash (drop_worker env role m1))"
  using a w steadyD(4) [OF st]
  by (simp only: handle_exit_def role_id_view option.map ok_or_simps seq_bind_simps Let_def master_phase_view view_fields to_view
      stage.case if_False m1 h)

lemma handle_exit_operational:
  assumes os: "os_ok env" and st: "steady b (view m) s" and w: "v_worker (view m) role = Some w"
    and a: "\<not> (view_phase (view m) = Some ActivatingCandidate \<and> role = ActiveRole)"
  shows "ends (handle_exit ex env now role status m) (observed_ok b)"
proof -
  let ?m = "emit (WorkerExited role (v_id w) status) m" and ?p = "view_phase (view m)" and ?h = "handle_event ex env now"
  have st1: "steady b (view ?m) s" using st by simp
  note exit = handle_exit_operational_eq [OF st w a refl refl, of ex env now status]
  have four: "(4 :: nat) = Suc (Suc 2)" by simp
  consider "?p = Some RollingBack \<and> role = CandidateRole" | "?p = Some StoppingRetired \<and> role = RetiredRole"
    | "?p \<in> {Some AdoptingCandidate, Some PhaseQuiescing, Some ActivatingCandidate} \<and> role = CandidateRole"
    | "?p = Some DrainingRetired \<and> role = RetiredRole"
    | (other) "\<not> (?p = Some RollingBack \<and> role = CandidateRole)" "\<not> (?p = Some StoppingRetired \<and> role = RetiredRole)"
        "\<not> (?p \<in> {Some AdoptingCandidate, Some PhaseQuiescing, Some ActivatingCandidate} \<and> role = CandidateRole)"
        "\<not> (?p = Some DrainingRetired \<and> role = RetiredRole)"
    by blast
  then show ?thesis
  proof cases
    case 1
    obtain a where "v_worker (view m) ActiveRole = Some a" using steadyD(6) [OF st] by auto
    then have "ends (seq_bind (?h (CandidateStopped (v_id w)) (drop_worker env CandidateRole ?m)) (\<lambda>m _. maybe_finish_rollback m)) (observed_ok b)"
      unfolding four using 1 w st1 rollback_phase_candidate [OF st1]
      by (intro ends_ok_observed candidate_exit_tail) (auto simp: sustained_def)
    with 1 show ?thesis unfolding exit by simp
  next
    case 2
    then obtain r where r: "sup_retired s = Some r" "inst_lifecycle r = Stopping" using stopping_phase_retired [OF st] by blast
    then have "v_id w = inst_id r" using steady_role [OF st, of RetiredRole r] w 2 by auto
    with 2 show ?thesis unfolding exit using ends_ok_observed [OF retired_exit_tail(2) [OF st1 r, where k = 3]] by simp
  next
    case 3
    then obtain c where c: "sup_candidate s = Some c" using steady_phase_candidate [OF st] by auto
    then have "v_id w = inst_id c" using steady_role [OF st, of CandidateRole c] w 3 by auto
    with 3 show ?thesis unfolding exit using candidate_crash_ends [OF os st1 c, where k = 3] by auto
  next
    case 4
    then obtain r where r: "sup_retired s = Some r" using steady_phase_retired [OF st] by auto
    then have "v_id w = inst_id r" using steady_role [OF st, of RetiredRole r] w 4 by auto
    with 4 show ?thesis unfolding exit using ends_ok_observed [OF retired_crash_ends [OF os st1 r, where k = 3]] by simp
  next
    case other
    show ?thesis unfolding exit if_not_P [OF other(1)] if_not_P [OF other(2)] if_not_P [OF other(3)] if_not_P [OF other(4)]
      by (rule ends_ok_observed, rule drop_fails_ok [OF os]) (use steadyD(1,4) [OF st] in simp_all)
  qed
qed

lemma handle_exit_double_crash:
  assumes os: "os_ok env" and st: "steady b (view m) s" and w: "v_worker (view m) CandidateRole = Some w" and d: "v_deferred (view m) \<noteq> None"
  shows "ends (handle_exit ex env now CandidateRole status m) double_crash"
proof -
  have ph: "view_phase (view m) = Some ActivatingCandidate" using st d by (auto simp: steady_def view_phase_def)
  then obtain c where c: "sup_candidate s = Some c" using steady_phase_candidate [OF st] by auto
  have id: "v_id w = inst_id c" using steady_role [OF st, of CandidateRole c] c w by auto
  let ?m = "emit (WorkerExited CandidateRole (inst_id c) status) m"
  have st1: "steady b (view ?m) s" and d1: "v_deferred (view ?m) \<noteq> None" using st d by simp_all
  have "handle_exit ex env now CandidateRole status m = seq_bind (begin_rollback (handle_event ex env now) env Crash ?m) (\<lambda>m _.
      seq_bind (handle_event ex env now (CandidateStopped (inst_id c)) (drop_worker env CandidateRole m)) (\<lambda>m _. maybe_finish_rollback m))"
    using ph w id steadyD(4) [OF st] by (simp add: handle_exit_def role_id_view master_phase_view Let_def)
  also have "\<dots> = seq_bind (fail_master env Crash ?m) (\<lambda>m _.
      seq_bind (handle_event ex env now (CandidateStopped (inst_id c)) (drop_worker env CandidateRole m)) (\<lambda>m _. maybe_finish_rollback m))"
    unfolding begin_rollback_ends(2) [OF os st1 c d1] ..
  finally show ?thesis
    using ends_mono [OF double_crash_ends [OF os st1 c d1, where k = 3]] by simp
qed

lemma handle_exit_ends:
  assumes os: "os_ok env" and ok: "master_ok b (view m)" and w: "v_worker (view m) role = Some w"
  shows "ends (handle_exit ex env now role status m) (observed_ok b)"
proof (cases "view_phase (view m) = Some ActivatingCandidate \<and> role = ActiveRole")
  case True
  have "handle_exit ex env now role status m
      = ((emit (WorkerExited role (v_id w) status) m)\<lparr>m_deferred_active_exit := Some status\<rparr>, Ok ())"
    using True w by (simp add: handle_exit_def role_id_view master_phase_view)
  moreover have "master_ok b ((view m)\<lparr>v_deferred := Some status\<rparr>)"
    using ok w True by (auto simp: master_ok_def boot_def closing_def idle_def failing_def view_phase_def steady_def split: stage.splits)
  ultimately show ?thesis by simp
next
  case False
  let ?m = "emit (WorkerExited role (v_id w) status) m"
  have exit: "handle_exit ex env now role status m = fail_master env Crash (drop_worker env role ?m)"
    if "v_stage (view m) \<in> {BootAdopting, BootActivating}"
    using False that w by (auto simp: handle_exit_def role_id_view master_phase_view)
  show ?thesis
  proof (cases "v_stage (view m)")
    case Operational
    then obtain s where "steady b (view m) s" using ok by (auto simp: master_ok_def)
    from handle_exit_operational [OF os this w False] show ?thesis .
  next
    case (StageShuttingDown d f)
    with ok w False show ?thesis
      by (auto simp: handle_exit_def role_id_view master_phase_view master_ok_def closing_drop)
  next
    case (StageFailing f)
    with ok w False show ?thesis
      by (auto simp: handle_exit_def role_id_view master_phase_view master_ok_def failing_drop)
  next
    case BootAdopting
    with exit show ?thesis
      using ends_ok_observed [OF drop_fails_ok [OF os, where m = ?m]] master_ok_sound [OF ok] by simp
  next
    case BootActivating
    with exit show ?thesis
      using ends_ok_observed [OF drop_fails_ok [OF os, where m = ?m]] master_ok_sound [OF ok] by simp
  qed (use ok w in \<open>simp_all add: master_ok_def idle_def\<close>)
qed

section \<open>Acknowledgements\<close>

definition answered :: "worker_role \<Rightarrow> worker_view \<Rightarrow> master_view \<Rightarrow> master_view" where
  "answered role w v = v\<lparr>v_worker := (v_worker v)(role := Some (w\<lparr>v_pending := None\<rparr>))\<rparr>"

lemma answered_fields [simp]:
  "v_stage (answered role w v) = v_stage v" "v_supervisor (answered role w v) = v_supervisor v"
  "v_deferred (answered role w v) = v_deferred v" "v_failure (answered role w v) = v_failure v" "v_next (answered role w v) = v_next v"
  "v_worker (answered role w v) = (v_worker v)(role := Some (w\<lparr>v_pending := None\<rparr>))"
  by (simp_all add: answered_def)

lemma sound_answered:
  assumes "sound b v" and "v_worker v role = Some w"
  shows "sound b (answered role w v)"
  using assms by (auto simp: sound_def intro!: numbered_update linked_update)

lemma steady_answered:
  assumes st: "steady b v s" and w: "v_worker v role = Some w"
  shows "steady b (answered role w v) s"
proof -
  have rel: "rel_option (fits role') (sup_role s role') (v_worker v role')" for role' using st by (simp add: steady_def)
  obtain i where i: "sup_role s role = Some i" "fits role i w" using rel [of role] unfolding w option_rel_Some2 by blast
  then have "fits role i (w\<lparr>v_pending := None\<rparr>)" by (simp add: fits_def same_instance_def)
  then have "rel_option (fits role') (sup_role s role') (v_worker (answered role w v) role')" for role'
    using rel [of role'] i by simp
  moreover have "v_pending a = None" if "phase s = Some ActivatingCandidate" "v_worker (answered role w v) ActiveRole = Some a" for a
    using st that unfolding steady_def answered_fields by (cases "role = ActiveRole") auto
  ultimately show ?thesis
    using st sound_answered [OF steadyD(1) [OF st] w] unfolding steady_def answered_fields by blast
qed

lemma master_ok_answered:
  assumes ok: "master_ok b v" and w: "v_worker v role = Some w"
  shows "master_ok b (answered role w v)"
proof (cases "v_stage v")
  case Operational
  then obtain s where "steady b v s" using ok by (auto simp: master_ok_def)
  from steady_ok [OF steady_answered [OF this w]] show ?thesis .
qed (use ok w sound_answered [OF master_ok_sound [OF ok] w] in
  \<open>auto simp: master_ok_def boot_def closing_def failing_def killed_def idle_def\<close>)

lemma boot_sent:
  assumes "boot b ph' v" and "v_worker v ActiveRole = Some w" and "v_state w = WorkerRunning"
    and "pd_request_id p = v_next v" and "v_next v < n" and "pd_phase p = ph"
  shows "boot b ph (sent (v\<lparr>v_next := n\<rparr>) ActiveRole p)"
  using assms sound_sent [of b v ActiveRole w p n] by (auto simp: boot_def)

lemma boot_adopted_ends:
  assumes os: "os_ok env" and bt: "boot b AdoptListeners (view m)" and st: "v_stage (view m) = BootActivating"
    and w: "v_worker (view m) ActiveRole = Some w" "v_pending w = None"
  shows "ends_ok (issue_or_compensate (apply_replacement_event (Suc k) ex env now) ex env ActiveRole control_phase.Activate now timeout Activation m)
    (master_ok b)"
proof (rule issue_or_compensate_ends)
  fix n and p :: pending
  assume "pd_phase p = control_phase.Activate" "pd_request_id p = v_next (view m)" "v_next (view m) < n"
  then have "boot b control_phase.Activate (sent ((view m)\<lparr>v_next := n\<rparr>) ActiveRole p)"
    using bt w by (intro boot_sent [OF bt w(1)]) (auto simp: boot_def)
  then show "is_ok (Ok ()) \<and> master_ok b (sent ((view m)\<lparr>v_next := n\<rparr>) ActiveRole p)" using st by (simp add: master_ok_def)
next
  fix m' :: "('a, 'b, 'c, 'd) master" and n assume m': "view m' = (view m)\<lparr>v_next := n\<rparr>" "v_next (view m) \<le> n"
  have "master_ok b (view m')" using bt w st sound_next [OF _ m'(2)] by (auto simp: m' master_ok_def boot_def)
  then show "ends_ok (handle_phase_failure (apply_replacement_event (Suc k) ex env now) env ActiveRole Activation m') (master_ok b)"
    by (rule handle_phase_failure_ends [OF os]) (simp add: m' w)
qed (simp add: w)

lemma initial_steady:
  assumes "boot b ph v" and "v_worker v ActiveRole = Some w" and "v_pending w = None"
    and "s = \<lparr>sup_active = \<lparr>inst_id = v_id w, inst_generation = v_generation w, inst_lifecycle = Active\<rparr>, sup_candidate = None, sup_retired = None\<rparr>"
  shows "steady b (v\<lparr>v_supervisor := Some s, v_stage := Operational\<rparr>) s"
proof (rule steadyI [where a = w])
  show "sound b (v\<lparr>v_supervisor := Some s, v_stage := Operational\<rparr>)"
    using assms by (auto simp: boot_def sound_def linked_def all_worker_roles same_instance_def supervisor_inv_def)
qed (use assms in \<open>auto simp: boot_def fits_def same_instance_def\<close>)

lemma handle_phase_success_boot:
  assumes os: "os_ok env" and ok: "master_ok b v" and w: "v_worker v role = Some w" "v_pending w = Some p"
    and m: "view m = answered role w v" and st: "v_stage v \<in> {BootAdopting, BootActivating}"
  shows "ends_ok (handle_phase_success ex env now role (pd_phase p) m) (master_ok b)"
proof -
  have four: "(4 :: nat) = Suc 3" by simp
  have ok': "master_ok b (view m)" unfolding m by (rule master_ok_answered [OF ok w(1)])
  have role: "role = ActiveRole" using ok w st by (cases role) (auto simp: master_ok_def boot_def)
  have w': "v_worker (view m) ActiveRole = Some (w\<lparr>v_pending := None\<rparr>)" using role by (simp add: m)
  obtain u where u: "worker m ActiveRole = Some u" "worker_view u = w\<lparr>v_pending := None\<rparr>"
    using w' by (auto simp: v_worker_view simp del: worker_None)
  show ?thesis
  proof (cases "v_stage v")
    case BootAdopting
    then have ph: "pd_phase p = AdoptListeners" and "boot b AdoptListeners (view m)"
      using ok ok' w role by (auto simp: master_ok_def boot_def m)
    then have "boot b AdoptListeners ((view m)\<lparr>v_stage := BootActivating\<rparr>)" by (simp add: boot_def)
    then have "ends_ok (issue_or_compensate (handle_event ex env now) ex env ActiveRole control_phase.Activate now
        (activation_timeout (m_config m)) Activation (m\<lparr>m_stage := BootActivating\<rparr>)) (master_ok b)"
      unfolding four by (intro boot_adopted_ends [OF os, where w = "w\<lparr>v_pending := None\<rparr>"]) (simp_all add: w')
    with BootAdopting ph role show ?thesis by (simp add: handle_phase_success_def m)
  next
    case BootActivating
    then have ph: "pd_phase p = control_phase.Activate" and bt: "boot b control_phase.Activate (view m)"
      using ok ok' w role by (auto simp: master_ok_def boot_def m)
    have "v_id (worker_view u) = mw_instance_id u" "v_generation (worker_view u) = mw_generation u" by simp_all
    then have id: "mw_instance_id u = v_id w" "mw_generation u = v_generation w" by (simp_all add: u(2))
    from initial_steady [OF bt w' _ refl] have "master_ok b ((view m)\<lparr>v_supervisor := Some
        \<lparr>sup_active = \<lparr>inst_id = v_id w, inst_generation = v_generation w, inst_lifecycle = Active\<rparr>, sup_candidate = None, sup_retired = None\<rparr>,
        v_stage := Operational\<rparr>)"
      by (auto intro: steady_ok)
    with BootActivating ph role show ?thesis by (simp add: handle_phase_success_def m u supervisor_new_def id)
  qed (use st in simp_all)
qed

definition upward :: "baseline \<Rightarrow> bool" where
  "upward b \<longleftrightarrow> (\<forall>i g i' g'. b_serves b i g \<longrightarrow> g < g' \<longrightarrow> b_serves b i' g')"

lemma candidate_may_serve:
  assumes st: "steady b v s" and "upward b" and "sup_candidate s = Some c"
  shows "b_serves b (inst_id c) (inst_generation c)"
proof -
  obtain a where "v_worker v ActiveRole = Some a" "same_instance (sup_active s) a" using steadyD(6) [OF st] by (auto simp: fits_def)
  then have "b_serves b (inst_id (sup_active s)) (inst_generation (sup_active s))"
    using steadyD(2) [OF st] by (simp add: linked_def same_instance_def)
  moreover have "inst_generation (sup_active s) < inst_generation c" using steadyD(3) [OF st] assms(3) by (auto elim: supervisor_shapes)
  ultimately show ?thesis using assms(2) by (auto simp: upward_def)
qed

lemma success_context:
  assumes "steady b (view m) s" and "v_worker (view m) role = Some w" and "sup_role s role = Some i"
  shows "role_id m role = Ok (inst_id i)" and "m_stage m = Operational" and "master_phase m = phase s"
proof -
  have "v_id w = inst_id i" using steady_role [OF assms(1,3)] assms(2) by auto
  with assms(2) show "role_id m role = Ok (inst_id i)" by (simp add: role_id_view)
  show "m_stage m = Operational" "master_phase m = phase s"
    using steadyD(4,5) [OF assms(1)] by (simp_all add: master_phase_view view_phase_def)
qed

lemma active_success_ends:
  assumes os: "os_ok env" and st: "steady b (view m) s" and w: "v_worker (view m) ActiveRole = Some w" "v_pending w = None"
    and aw: "awaited ActiveRole (inst_lifecycle (sup_active s)) ph" and np: "phase s \<noteq> Some ActivatingCandidate"
  shows "ends_ok (handle_phase_success ex env now ActiveRole ph m) (master_ok b)"
proof -
  have four: "(4 :: nat) = Suc (Suc 2)" by simp
  have inv: "supervisor_inv s" by (rule steadyD(3) [OF st])
  note ctx = success_context [OF st w(1), of "sup_active s", simplified]
  consider "inst_lifecycle (sup_active s) = Quiescing" "ph = control_phase.Quiesce"
    | "inst_lifecycle (sup_active s) = Reactivating" "ph = control_phase.Reactivate"
    using aw by auto
  then show ?thesis
  proof cases
    case 1
    with np inv obtain c where c: "sup_candidate s = Some c" "inst_lifecycle c = Ready"
      by (auto elim!: supervisor_shapes simp: phase_def)
    then have "phase s = Some PhaseQuiescing" using candidate_excludes [OF inv] by (simp add: phase_def)
    with 1 w show ?thesis
      using active_quiesced_ends [OF os st c, where k = 2] ctx by (simp add: handle_phase_success_def)
  next
    case 2
    have ph: "phase s = Some RollingBack" using 2 inv by (auto elim!: supervisor_shapes simp: phase_def)
    have "ends_ok (seq_bind (handle_event ex env now (ActiveReactivated (inst_id (sup_active s))) m)
        (\<lambda>m _. maybe_finish_rollback m)) (master_ok b)"
      unfolding four
      by (rule ends_ok_seq [OF active_reactivated_ends [OF st]],
          use 2 in simp, rule w(1), rule w(2), rule ends_ok_mono [OF maybe_finish_rollback_ends])
        (auto simp: sustained_def dest: steadyD(6) intro: sustained_ok steady_ok failing_ok)
    with 2 show ?thesis using ctx ph by (simp add: handle_phase_success_def)
  qed
qed

lemma candidate_success_ends:
  assumes os: "os_ok env" and st: "steady b (view m) s" and w: "v_worker (view m) CandidateRole = Some w" "v_pending w = None"
    and c: "sup_candidate s = Some c" and aw: "awaited CandidateRole (inst_lifecycle c) ph"
    and up: "ph = control_phase.Activate \<Longrightarrow> upward b"
  shows "ends_ok (handle_phase_success ex env now CandidateRole ph m) (master_ok b)"
proof -
  have ex: "sup_retired s = None" by (rule candidate_excludes [OF steadyD(3) [OF st] c])
  note ctx = success_context [OF st w(1), of c, simplified, OF c]
  consider "inst_lifecycle c = Preparing" "ph = AdoptListeners" | "inst_lifecycle c = Activating" "ph = control_phase.Activate"
    using aw by auto
  then show ?thesis
  proof cases
    case 1
    then have "phase s = Some AdoptingCandidate" using c ex by (simp add: phase_def)
    with 1 w show ?thesis
      using candidate_prepared_ends [OF os st c 1(1), where k = 2] ctx by (simp add: handle_phase_success_def)
  next
    case 2
    then have "phase s = Some ActivatingCandidate" using c ex by (simp add: phase_def)
    with 2 w show ?thesis
      using candidate_activated_ends [OF os st c 2(1), where k = 2] candidate_may_serve [OF st up c] ctx
      by (simp add: handle_phase_success_def)
  qed
qed

lemma retired_success_ends:
  assumes os: "os_ok env" and st: "steady b (view m) s" and w: "v_worker (view m) RetiredRole = Some w"
    and r: "sup_retired s = Some r" and aw: "awaited RetiredRole (inst_lifecycle r) ph"
  shows "ends_ok (handle_phase_success ex env now RetiredRole ph m) (master_ok b)"
proof -
  note ctx = success_context [OF st w, of r, simplified, OF r]
  consider "inst_lifecycle r = Draining" "ph = control_phase.Drain" | "inst_lifecycle r = Stopping" "ph = control_phase.Shutdown"
    using aw by auto
  then show ?thesis
  proof cases
    case 1
    then have "phase s = Some DrainingRetired" using r by (simp add: phase_def)
    with 1 show ?thesis
      using retired_drained_ends [OF os st r 1(1), where k = 2] ctx by (simp add: handle_phase_success_def)
  next
    case 2
    then have "phase s = Some StoppingRetired" using r by (simp add: phase_def)
    with 2 show ?thesis using steady_ok [OF st] ctx by (simp add: handle_phase_success_def)
  qed
qed

lemma handle_phase_success_operational:
  assumes os: "os_ok env" and st: "steady b v s" and w: "v_worker v role = Some w" "v_pending w = Some p"
    and m: "view m = answered role w v" and up: "role = CandidateRole \<Longrightarrow> pd_phase p = control_phase.Activate \<Longrightarrow> upward b"
  shows "ends_ok (handle_phase_success ex env now role (pd_phase p) m) (master_ok b)"
proof -
  have st': "steady b (view m) s" unfolding m by (rule steady_answered [OF st w(1)])
  have w': "v_worker (view m) role = Some (w\<lparr>v_pending := None\<rparr>)" by (simp add: m)
  obtain i where i: "sup_role s role = Some i" "fits role i w"
    using st w(1) linked_same [OF steadyD(2) [OF st] w(1)] steady_role [OF st] by force
  then have aw: "awaited role (inst_lifecycle i) (pd_phase p)" using w by (simp add: fits_def)
  show ?thesis
  proof (cases role)
    case ActiveRole
    moreover have "phase s \<noteq> Some ActivatingCandidate" using st w ActiveRole by (auto simp: steady_def)
    ultimately show ?thesis using active_success_ends [OF os st'] w' aw i by simp
  next
    case CandidateRole
    then show ?thesis using candidate_success_ends [OF os st'] w' aw i up by simp
  next
    case RetiredRole
    then show ?thesis using retired_success_ends [OF os st'] w' aw i by simp
  qed
qed

text \<open>The observation that promotes the candidate.\<close>

definition promotion :: "worker_role \<Rightarrow> observation \<Rightarrow> bool" where
  "promotion role ob \<longleftrightarrow> role = CandidateRole
     \<and> (case ob of ObsAck ack \<Rightarrow> ca_phase ack = control_phase.Activate \<and> ca_outcome ack = Accepted | _ \<Rightarrow> False)"

lemma handle_phase_success_ends:
  assumes os: "os_ok env" and ok: "master_ok b v" and w: "v_worker v role = Some w" "v_pending w = Some p"
    and m: "view m = answered role w v" and up: "role = CandidateRole \<Longrightarrow> pd_phase p = control_phase.Activate \<Longrightarrow> upward b"
  shows "ends_ok (handle_phase_success ex env now role (pd_phase p) m) (master_ok b)"
proof (cases "v_stage v")
  case Operational
  then obtain s where st: "steady b v s" using ok by (auto simp: master_ok_def)
  show ?thesis by (rule handle_phase_success_operational [OF os st w m up])
next
  case (StageShuttingDown d f)
  then have "pd_phase p = control_phase.Shutdown" using ok w by (auto simp: master_ok_def closing_def)
  moreover have "master_ok b (view m)" unfolding m by (rule master_ok_answered [OF ok w(1)])
  ultimately show ?thesis using StageShuttingDown by (simp add: handle_phase_success_def m)
next
  case BootAdopting
  then show ?thesis by (intro handle_phase_success_boot [OF os ok w m]) simp
next
  case BootActivating
  then show ?thesis by (intro handle_phase_success_boot [OF os ok w m]) simp
qed (use ok w in \<open>auto simp: master_ok_def failing_def killed_def idle_def\<close>)

lemma handle_ack_ends:
  assumes os: "os_ok env" and ok: "master_ok b (view m)" and w: "v_worker (view m) role = Some w"
    and up: "promotion role (ObsAck ack) \<Longrightarrow> upward b"
  shows "ends_ok (handle_ack ex env now role ack m) (master_ok b)"
proof (cases "\<exists>p. v_pending w = Some p \<and> pd_request_id p = ca_request_id ack \<and> pd_phase p = ca_phase ack")
  case False
  then show ?thesis using ok w by (auto simp: handle_ack_def split: option.split)
next
  case True
  then obtain p where p: "v_pending w = Some p" "pd_request_id p = ca_request_id ack" "ca_phase ack = pd_phase p" by auto
  have "ends_ok (update_worker role (\<lambda>w. w\<lparr>mw_pending := None\<rparr>) m) (\<lambda>v. v = answered role w (view m))"
    unfolding answered_def by (rule update_worker_ends [OF w]) simp
  then have "ends_ok (seq_bind (update_worker role (\<lambda>w. w\<lparr>mw_pending := None\<rparr>) m) (\<lambda>m _.
      case ca_outcome ack of
        Rejected _ \<Rightarrow> handle_phase_failure (handle_event ex env now) env role (phase_failure (ca_phase ack)) m
      | Accepted \<Rightarrow> handle_phase_success ex env now role (ca_phase ack) m)) (master_ok b)"
  proof (rule ends_ok_seq)
    fix m1 :: "('a, 'b, 'c, 'd) master" assume m1: "view m1 = answered role w (view m)"
    have "master_ok b (view m1)" unfolding m1 by (rule master_ok_answered [OF ok w])
    from handle_phase_failure_ends [OF os this, of role 3] handle_phase_success_ends [OF os ok w p(1) m1] up
    show "ends_ok (case ca_outcome ack of
        Rejected _ \<Rightarrow> handle_phase_failure (handle_event ex env now) env role (phase_failure (ca_phase ack)) m1
      | Accepted \<Rightarrow> handle_phase_success ex env now role (ca_phase ack) m1) (master_ok b)"
      by (simp add: m1 p(3) promotion_def split: control_outcome.split)
  qed
  with p w show ?thesis by (simp add: handle_ack_def)
qed

section \<open>Observations\<close>

lemma handle_status_ends:
  assumes "v_worker (view m) role = Some w"
  shows "ends_ok (handle_status role status m) (\<lambda>v. v = view m)"
proof -
  obtain u where u: "worker m role = Some u" using assms by (auto simp: v_worker_view simp del: worker_None)
  obtain history cursor where "record_events (master_generation_role role) (mw_instance_id u) (mw_generation u) (mw_last_event_cursor u)
      status (m_history m) = (history, cursor)"
    by fastforce
  with u worker_SomeD [OF u] show ?thesis by (simp add: handle_status_def Let_def)
qed

lemma handle_disconnect_ends:
  assumes os: "os_ok env" and ok: "master_ok b (view m)" and w: "v_worker (view m) role = Some w"
  shows "ends_ok (handle_disconnect ex env now role m) (master_ok b)"
  using handle_phase_failure_ends [OF os, of b "emit (WorkerDisconnected role (v_id w)) m" role 3] ok w
  by (cases "v_state w") (simp_all add: handle_disconnect_def role_id_view)

lemma handle_observation_ends:
  assumes os: "os_ok env" and ok: "master_ok b (view m)" and w: "v_worker (view m) role = Some w"
    and up: "promotion role ob \<Longrightarrow> upward b"
  shows "ends (handle_observation ex env now role ob m) (observed_ok b)"
proof (cases ob)
  case (ObsExit status)
  then show ?thesis using handle_exit_ends [OF os ok w] by (simp add: handle_observation_def)
next
  case (ObsStatus status)
  then show ?thesis using handle_status_ends [OF w] ok by (auto simp: handle_observation_def ends_def)
qed (use handle_ack_ends [OF os ok w] up handle_disconnect_ends [OF os ok w] handle_phase_failure_ends [OF os ok, of role 3] w in
  \<open>simp_all add: handle_observation_def ends_ok_observed\<close>)

lemma role_for_worker: "role_for m i = Some role \<Longrightarrow> \<exists>w. v_worker (view m) role = Some w"
  by (auto simp: role_for_view view_role_def split: if_splits)

lemma handle_observed_ends:
  assumes os: "os_ok env" and up: "upward b" and ok: "master_ok b (view m)"
  shows "ends (handle_observed ex env now items m) (observed_ok b)"
  using ok
proof (induction items arbitrary: m)
  case (Cons item items)
  show ?case
  proof (cases "role_for m (ob_instance_id item)")
    case (Some role)
    then obtain w where w: "v_worker (view m) role = Some w" using role_for_worker by blast
    show ?thesis
      using Some Cons.IH by (auto intro!: ends_seq [OF handle_observation_ends [OF os Cons.prems w up]] simp: double_crash_def)
  qed (simp add: Cons)
qed simp

lemma observe_ends:
  assumes "os_ok env"
  shows "ends_ok (observe env role m) (\<lambda>v. v = view m)"
proof (cases "worker m role")
  case (Some u)
  obtain process acts ev where p: "process_poll_event (me_exit env role) (mw_process u) = (process, acts, Ok ev)"
    using poll_event_ok [OF assms] by blast
  obtain process' acts' received where "channel_try_receive (me_fd env) (me_receive env role) process = (process', acts', received)"
    by (metis prod_cases3)
  with Some p worker_SomeD [OF Some] show ?thesis
    by (cases ev; cases "the ev") (simp_all add: observe_def Let_def)
qed (simp add: observe_def del: worker_None)

lemma observe_all_ends: "os_ok env \<Longrightarrow> ends_ok (observe_all env roles m) (\<lambda>v. v = view m)"
proof (induction roles arbitrary: m)
  case (Cons role roles)
  show ?case unfolding observe_all.simps
    by (rule ends_ok_seq [OF observe_ends [OF Cons.prems]], rule ends_ok_seq [OF Cons.IH [OF Cons.prems]]) simp
qed simp

section \<open>Deadlines\<close>

lemma closing_force_all: "closing b v \<Longrightarrow> closing b (force_all v)"
  unfolding force_all_fold [symmetric] by (simp add: closing_force)

lemma force_retired_ok:
  assumes ok: "master_ok b v" and p: "view_phase v = Some StoppingRetired"
  shows "master_ok b (force_view RetiredRole v)"
proof (cases "v_stage v")
  case Operational
  then obtain s where st: "steady b v s" using ok by (auto simp: master_ok_def)
  obtain r where r: "sup_retired s = Some r" "inst_lifecycle r = Stopping" using stopping_phase_retired [OF st p] .
  obtain w where w: "v_worker v RetiredRole = Some w" "fits RetiredRole r w" using steady_role [OF st, of RetiredRole r] r by auto
  have "fits RetiredRole r (forced w)"
    using w r killed_forced [OF steadyD(2) [OF st] w(1)] by (intro fits_forced) (auto simp: fits_def)
  then have "steady b (force_view RetiredRole v) s"
    using st w r sound_force [OF steadyD(1) [OF st], of RetiredRole] by (auto simp: steady_def)
  then show ?thesis by (rule steady_ok)
next
  case (StageFailing f)
  then show ?thesis using ok by (simp add: master_ok_def)
qed (use ok p in \<open>auto simp: master_ok_def boot_def closing_def idle_def view_phase_def\<close>)

lemma master_ok_failure [simp]: "master_ok b (v\<lparr>v_failure := f\<rparr>) = master_ok b v"
  by (auto simp: master_ok_def boot_def closing_def failing_def idle_def split: stage.split)

lemma expired_termination_ends:
  assumes os: "os_ok env" and ok: "master_ok b (view m)" and p: "view_phase (view m) = Some StoppingRetired"
    and w: "v_worker (view m) RetiredRole = Some w"
  shows "ends_ok (seq_bind (m, retired_id m) (\<lambda>m retired.
      seq_bind (update_worker RetiredRole (\<lambda>w. w\<lparr>mw_termination_deadline := None\<rparr>) (m\<lparr>m_replacement_failure := Some ShutdownFailure\<rparr>)) (\<lambda>m _.
      handle_event ex env now (TerminationTimedOut retired) m))) (master_ok b)"
proof -
  obtain s where s: "v_supervisor (view m) = Some s" "phase s = Some StoppingRetired" using p by (auto simp: view_phase_def bind_eq_Some_conv)
  have sound: "sound b (view m)" by (rule master_ok_sound [OF ok])
  obtain r where r: "sup_retired s = Some r" "inst_lifecycle r = Stopping"
    using s(2) sound_inv [OF sound s(1)] by (auto elim!: supervisor_shapes simp: phase_def split: if_splits)
  have id: "v_id w = inst_id r"
    using sound s(1) linked_same [of b s "v_worker (view m)" RetiredRole w] w r by (auto simp: sound_def same_instance_def)
  let ?m = "m\<lparr>m_replacement_failure := Some ShutdownFailure\<rparr>"
  have four: "(4 :: nat) = Suc 3" by simp
  have "ends_ok (seq_bind (update_worker RetiredRole (\<lambda>w. w\<lparr>mw_termination_deadline := None\<rparr>) ?m) (\<lambda>m _.
      handle_event ex env now (TerminationTimedOut (inst_id r)) m)) (master_ok b)"
  proof (rule ends_ok_seq [OF update_worker_ends [where w = w and g = "\<lambda>w. w"]])
    fix m1 :: "('a, 'b, 'c, 'd) master"
    assume m1: "view m1 = (view ?m)\<lparr>v_worker := (v_worker (view ?m))(RetiredRole := Some w)\<rparr>"
    then have v1: "view m1 = (view m)\<lparr>v_failure := Some ShutdownFailure\<rparr>"
      using w view_same [of "view ?m" RetiredRole w] by simp
    have "master_ok b (view m1)" "view_phase (view m1) = Some StoppingRetired" using ok p by (simp_all add: v1 view_phase_def)
    from force_retired_ok [OF this] show "ends_ok (handle_event ex env now (TerminationTimedOut (inst_id r)) m1) (master_ok b)"
      unfolding four using sound s r w
      by (intro ends_ok_mono [OF termination_timed_out_ends [OF os, where b = b and s = s and w = w]]) (auto simp: v1)
  qed (use w in simp_all)
  then show ?thesis using w by (simp add: role_id_view id)
qed

lemma expired_request_ends:
  assumes os: "os_ok env" and ok: "master_ok b (view m)" and w: "v_worker (view m) role = Some w"
  shows "ends_ok (seq_bind (update_worker role (\<lambda>w. w\<lparr>mw_pending := None\<rparr>) m) (\<lambda>m _.
      handle_phase_failure (handle_event ex env now) env role failure m)) (master_ok b)"
proof (rule ends_ok_seq)
  show "ends_ok (update_worker role (\<lambda>w. w\<lparr>mw_pending := None\<rparr>) m) (\<lambda>v. v = answered role w (view m))"
    unfolding answered_def by (rule update_worker_ends [OF w]) simp
next
  fix m1 :: "('a, 'b, 'c, 'd) master" assume m1: "view m1 = answered role w (view m)"
  have "master_ok b (view m1)" unfolding m1 by (rule master_ok_answered [OF ok w])
  from handle_phase_failure_ends [OF os this, of role 3]
  show "ends_ok (handle_phase_failure (handle_event ex env now) env role failure m1) (master_ok b)" by (simp add: m1)
qed

lemma shutdown_timeout_ends:
  assumes os: "os_ok env" and ok: "master_ok b (view m)" and st: "v_stage (view m) = StageShuttingDown d f"
    and dl: "next_deadline m = Some deadline" "\<not> now < deadline"
  shows "ends_ok (handle_timeout ex env now m) (master_ok b)"
proof -
  let ?m = "(if f then m else emit ShutdownForced m)\<lparr>m_stage := StageShuttingDown d True\<rparr>"
  have "closing b (view m)" using ok st by (simp add: master_ok_def)
  then have "closing b (view ?m)" by (auto simp: closing_def)
  from closing_force_all [OF this] have "master_ok b (force_all (view ?m))" by (simp add: master_ok_def force_all_def)
  then have "ends_ok (force_roles env all_roles ?m) (master_ok b)"
    by (intro ends_ok_mono [OF force_roles_ends [OF os]]) (simp only: all_roles_def force_all_fold)
  then show ?thesis using dl st by (simp add: handle_timeout_def Let_def)
qed

lemma handle_timeout_ends:
  assumes os: "os_ok env" and ok: "master_ok b (view m)"
  shows "ends_ok (handle_timeout ex env now m) (master_ok b)"
proof (cases "\<exists>deadline. next_deadline m = Some deadline \<and> deadline \<le> now")
  case False
  then show ?thesis using ok by (auto simp: handle_timeout_def not_le split: option.split)
next
  case True
  then obtain deadline where dl: "next_deadline m = Some deadline" "\<not> now < deadline" by auto
  show ?thesis
  proof (cases "\<exists>d f. v_stage (view m) = StageShuttingDown d f")
    case True
    then show ?thesis using shutdown_timeout_ends [OF os ok _ dl] by auto
  next
    case False
    let ?T = "master_phase m = Some StoppingRetired
      \<and> (case Option.bind (m_retired m) mw_termination_deadline of None \<Rightarrow> False | Some d \<Rightarrow> d \<le> now)"
    let ?A = "seq_bind (m, retired_id m) (\<lambda>m retired.
      seq_bind (update_worker RetiredRole (\<lambda>w. w\<lparr>mw_termination_deadline := None\<rparr>) (m\<lparr>m_replacement_failure := Some ShutdownFailure\<rparr>)) (\<lambda>m _.
      handle_event ex env now (TerminationTimedOut retired) m))"
    let ?P = "\<lambda>role. case Option.bind (worker m role) mw_pending of None \<Rightarrow> False | Some p \<Rightarrow> pd_deadline p \<le> now"
    let ?B = "\<lambda>role. let failure = (case Option.bind (worker m role) mw_pending of None \<Rightarrow> ProtocolFailure | Some p \<Rightarrow> phase_failure (pd_phase p))
      in seq_bind (update_worker role (\<lambda>w. w\<lparr>mw_pending := None\<rparr>) m) (\<lambda>m _. handle_phase_failure (handle_event ex env now) env role failure m)"
    have timeout: "handle_timeout ex env now m = (if ?T then ?A else case find ?P all_roles of None \<Rightarrow> (m, Ok ()) | Some role \<Rightarrow> ?B role)"
      using False dl by (cases "m_stage m") (simp_all only: handle_timeout_def option.case stage.case if_False to_view, auto)
    show ?thesis
    proof (cases ?T)
      case True
      then obtain u where "worker m RetiredRole = Some u" by (cases "worker m RetiredRole") auto
      then show ?thesis
        unfolding timeout if_P [OF True] using True
        by (intro expired_termination_ends [OF os ok]) (auto simp: master_phase_view dest: worker_SomeD)
    next
      case False
      show ?thesis
      proof (cases "find ?P all_roles")
        case None
        show ?thesis unfolding timeout if_not_P [OF False] None using ok by simp
      next
        case (Some role)
        then have "?P role" by (auto simp: find_Some_iff)
        then obtain u where "worker m role = Some u" by (cases "worker m role") auto
        from expired_request_ends [OF os ok worker_SomeD [OF this]] show ?thesis
          unfolding timeout if_not_P [OF False] Some option.case Let_def .
      qed
    qed
  qed
qed

section \<open>Public operations\<close>

lemma worker_count_view: "worker_count m = 0 \<longleftrightarrow> (\<forall>role. v_worker (view m) role = None)"
  by (auto simp: worker_count_def all_worker_roles)

lemma finish_terminal_ok: "master_ok b (view m) \<Longrightarrow> master_ok b (view (finish_terminal_states m))"
  by (auto simp: finish_terminal_states_def worker_count_view master_ok_def closing_def failing_def idle_def split: stage.split)

lemma poll_ends:
  assumes os: "os_ok env" and up: "upward b" and ok: "master_ok b (view m)"
  shows "ends (poll ex env now m) (observed_ok b)"
  unfolding poll_def
proof (rule ends_ok_seq [OF handle_timeout_ends [OF os ok]])
  fix m1 :: "('a, 'b, 'c, 'd) master" assume m1: "master_ok b (view m1)"
  let ?items = "\<lambda>m observed. if master_phase m = Some ActivatingCandidate
    then activation_first (map_option mw_instance_id (m_candidate m)) observed else observed"
  have "ends_ok (case m_stage m1 of StageFailing failure \<Rightarrow> fail_master env failure m1 | _ \<Rightarrow> (m1, Ok ())) (master_ok b)"
    using m1 fail_master_ok [OF os master_ok_sound [OF m1]] by (simp split: stage.split)
  then show "ends (seq_bind (case m_stage m1 of StageFailing failure \<Rightarrow> fail_master env failure m1 | _ \<Rightarrow> (m1, Ok ())) (\<lambda>m _.
      let prioritize = (master_phase m = Some ActivatingCandidate);
          candidate = map_option mw_instance_id (m_candidate m)
      in seq_bind (observe_all env all_roles m) (\<lambda>m observed.
         seq_bind (handle_observed ex env now (if prioritize then activation_first candidate observed else observed) m) (\<lambda>m _.
         let m1 = finish_terminal_states m
         in (m1\<lparr>m_events := []\<rparr>, Ok (m_events m1)))))) (observed_ok b)"
  proof (rule ends_ok_seq)
    fix m2 :: "('a, 'b, 'c, 'd) master" assume m2: "master_ok b (view m2)"
    show "ends (let prioritize = (master_phase m2 = Some ActivatingCandidate);
          candidate = map_option mw_instance_id (m_candidate m2)
      in seq_bind (observe_all env all_roles m2) (\<lambda>m observed.
         seq_bind (handle_observed ex env now (if prioritize then activation_first candidate observed else observed) m) (\<lambda>m _.
         let m1 = finish_terminal_states m
         in (m1\<lparr>m_events := []\<rparr>, Ok (m_events m1))))) (observed_ok b)"
      unfolding Let_def
      by (rule ends_ok_seq [OF observe_all_ends [OF os]], rule ends_seq [OF handle_observed_ends [OF os up]])
        (use m2 in \<open>auto simp: double_crash_def intro: finish_terminal_ok\<close>)
  qed
qed

section \<open>Replacement\<close>

lemma linked_insert:
  assumes "linked b sv ws" and "role \<noteq> ActiveRole" and "\<And>role' w'. role' \<noteq> role \<Longrightarrow> ws role' = Some w' \<Longrightarrow> v_id w' \<noteq> v_id w"
    and "v_state w = Terminating True \<Longrightarrow> v_pending w = None"
  shows "linked b None (ws(role := Some w))"
  using assms unfolding linked_def by (auto dest: sym)

lemma spawned_steady:
  assumes st: "steady b v s" and i: "apply_event s (Begin i) = (s', Ok actions)"
    and w: "v_id w = inst_id i" "v_generation w = inst_generation i" "v_pending w = None" "v_state w = WorkerRunning"
  shows "actions = [replacement_action.Spawn i]" "sup_candidate s' = Some i" "inst_lifecycle i = Spawned"
    "steady b (v\<lparr>v_supervisor := Some s', v_worker := (v_worker v)(CandidateRole := Some w)\<rparr>) s'"
proof -
  have s': "s' = s\<lparr>sup_candidate := Some i\<rparr>" "actions = [replacement_action.Spawn i]" "inst_lifecycle i = Spawned"
      "inst_id i \<noteq> inst_id (sup_active s)" "sup_candidate s = None" "sup_retired s = None"
    using i by (auto simp: apply_event.simps begin_replacement_def split: if_splits)
  then show "actions = [replacement_action.Spawn i]" "sup_candidate s' = Some i" "inst_lifecycle i = Spawned" by simp_all
  have inv': "supervisor_inv s'" using supervisor_inv_step [OF steadyD(3) [OF st], of "Begin i"] by (simp add: i)
  have l: "linked b (Some s) (v_worker v)" by (rule steadyD(2) [OF st])
  have r: "v_worker v RetiredRole = None" using linked_None [OF l, of RetiredRole] s' by simp
  have a: "v_id w' = inst_id (sup_active s)" "v_generation w' = inst_generation (sup_active s)" if "v_worker v ActiveRole = Some w'" for w'
    using linked_same [OF l that] by (simp_all add: same_instance_def)
  have "linked b None ((v_worker v)(CandidateRole := Some w))"
  proof (rule linked_insert [OF l])
    fix role' w' assume "role' \<noteq> CandidateRole" "v_worker v role' = Some w'"
    then show "v_id w' \<noteq> v_id w" using r a w s'(4) by (cases role') auto
  qed (simp_all add: w)
  then have "linked b (Some s') ((v_worker v)(CandidateRole := Some w))"
  proof (rule linked_change)
    fix t role w' assume "Some s' = Some t" "((v_worker v)(CandidateRole := Some w)) role = Some w'"
    then show "\<exists>i. sup_role t role = Some i \<and> same_instance i w'"
      using r a w s' by (cases role) (auto simp: same_instance_def)
  qed (use inv' in simp)
  moreover have "numbered b (v_next v) ((v_worker v)(CandidateRole := Some w))"
    using steadyD(1) [OF st] w by (auto simp: sound_def intro!: numbered_update)
  moreover have d: "v_deferred v = None" "phase s' = Some AdoptingCandidate" using st s' by (auto simp: steady_def phase_def split: if_splits)
  ultimately show "steady b (v\<lparr>v_supervisor := Some s', v_worker := (v_worker v)(CandidateRole := Some w)\<rparr>) s'"
    using st w s' by (auto simp: steady_def sound_def all_worker_roles fits_def same_instance_def)
qed

definition fresh_worker :: "service_instance \<Rightarrow> worker_view" where
  "fresh_worker i = \<lparr>v_id = inst_id i, v_generation = inst_generation i, v_pending = None, v_state = WorkerRunning\<rparr>"

lemma replace_accepted:
  fixes m m1 :: "('c, 'g, 'fd, 'x) master"
  assumes os: "os_ok env" and st: "steady b (view m) s" and i: "apply_event s (Begin i) = (s', Ok actions)"
    and m1: "view m1 = (view m)\<lparr>v_supervisor := Some s', v_worker := (v_worker (view m))(CandidateRole := Some (fresh_worker i))\<rparr>"
  shows "ends_ok (seq_bind (handle_event ex env now (CandidateSpawned (inst_id i)) m1) (\<lambda>m _.
      handle_event ex env now (CandidateHandshakeComplete (inst_id i)) m)) (master_ok b)"
proof -
  have c: "sup_candidate s' = Some i" "inst_lifecycle i = Spawned" and st1: "steady b (view m1) s'"
    using spawned_steady [OF st i, of "fresh_worker i"] unfolding m1 by (simp_all add: fresh_worker_def)
  let ?c = "i\<lparr>inst_lifecycle := Handshaking\<rparr>"
  have "ends_ok (handle_event ex env now (CandidateSpawned (inst_id i)) m1) (\<lambda>v. steady b v (s'\<lparr>sup_candidate := Some ?c\<rparr>))"
    using candidate_spawned_ends [OF st1 c, where k = 3] by simp
  moreover have "ends_ok (handle_event ex env now (CandidateHandshakeComplete (inst_id i)) m) (master_ok b)"
    if "steady b (view m) (s'\<lparr>sup_candidate := Some ?c\<rparr>)" for m :: "('c, 'g, 'fd, 'x) master"
    using candidate_handshake_ends [OF os that, where c = ?c and k = 2] by simp
  ultimately show ?thesis by (rule ends_ok_seq)
qed

text \<open>The errors with which a replacement is refused; the master then stays as it was.\<close>

fun refusal :: "master_error \<Rightarrow> bool" where
  "refusal (InvalidState _) = True"
| "refusal (ProtocolVersion _ _) = True"
| "refusal (MasterReplacement _) = True"
| "refusal (SpawnError _) = True"
| "refusal _ = False"

lemma validate_identity_refusal: "validate_identity i = Err e \<Longrightarrow> refusal e"
  by (auto simp: validate_identity_def split: if_splits)

lemma replace_ends:
  assumes os: "os_ok env" and ok: "master_ok b (view m)"
  shows "ends (replace ex env candidate spawned now m) (\<lambda>v r. master_ok b v \<and> (is_ok r \<or> (\<exists>e. r = Err e \<and> refusal e) \<and> v = view m))"
proof (cases "state m = Some MasterRunning \<and> validate_identity (in_identity candidate) = Ok ()")
  case False
  then show ?thesis using ok validate_identity_refusal
    by (cases "validate_identity (in_identity candidate)") (auto simp: replace_def)
next
  case True
  then have "v_stage (view m) = Operational" by (auto simp: state_def split: stage.splits option.splits)
  then obtain s where st: "steady b (view m) s" using ok by (auto simp: master_ok_def)
  define i where "i = \<lparr>inst_id = in_instance_id candidate, inst_generation = wi_generation (in_identity candidate), inst_lifecycle = Spawned\<rparr>"
  have id: "in_instance_id candidate = inst_id i" by (simp add: i_def)
  obtain s' r where e: "apply_event s (Begin i) = (s', r)" by fastforce
  show ?thesis
  proof (cases r)
    case (Inl err)
    with e True steadyD(5) [OF st] ok show ?thesis by (simp add: replace_def i_def [symmetric] Let_def)
  next
    case (Inr actions)
    have actions: "actions = [replacement_action.Spawn i]"
      using e Inr by (auto simp: apply_event.simps begin_replacement_def split: if_splits)
    show ?thesis
    proof (cases spawned)
      case (Inl err)
      with e True steadyD(5) [OF st] ok Inr actions show ?thesis
        by (simp add: replace_def i_def [symmetric] Let_def execute_spawn_def supervisor_same)
    next
      case (Inr process)
      define w where "w = managed_worker_new (inst_id i) (wi_generation (in_identity candidate)) process"
      define m1 where "m1 = emit (ReplacementStarted (inst_id i)) (m\<lparr>m_supervisor := Some s', m_candidate := Some w\<rparr>)"
      have "view m1 = (view m)\<lparr>v_supervisor := Some s', v_worker := (v_worker (view m))(CandidateRole := Some (fresh_worker i))\<rparr>"
        by (simp add: m1_def w_def worker_view_def managed_worker_new_def i_def fresh_worker_def)
      then have "ends_ok (seq_bind (handle_event ex env now (CandidateSpawned (inst_id i)) m1) (\<lambda>m _.
          handle_event ex env now (CandidateHandshakeComplete (inst_id i)) m)) (master_ok b)"
        using e \<open>r = Ok actions\<close> by (intro replace_accepted [OF os st]) simp_all
      moreover have "replace ex env candidate spawned now m = seq_bind (handle_event ex env now (CandidateSpawned (inst_id i)) m1) (\<lambda>m _.
          handle_event ex env now (CandidateHandshakeComplete (inst_id i)) m)"
        using e True steadyD(5) [OF st] \<open>r = Ok actions\<close> actions Inr id [symmetric]
        by (simp add: replace_def i_def [symmetric] Let_def execute_spawn_def m1_def w_def)
      ultimately show ?thesis by (auto elim!: ends_mono)
    qed
  qed
qed

section \<open>Shutdown\<close>

text \<open>While a shutdown is being announced, the workers of the roles in \<open>roles\<close> have been told.\<close>

definition announced :: "baseline \<Rightarrow> worker_role set \<Rightarrow> master_view \<Rightarrow> bool" where
  "announced b roles v \<longleftrightarrow> sound b v \<and> v_supervisor v = None \<and> v_deferred v = None \<and> (\<exists>d f. v_stage v = StageShuttingDown d f)
     \<and> (\<forall>role\<in>roles. \<forall>w. v_worker v role = Some w \<longrightarrow>
          v_state w \<noteq> WorkerRunning \<and> (\<forall>p. v_pending w = Some p \<longrightarrow> pd_phase p = control_phase.Shutdown))"

lemma announced_next: "announced b roles v \<Longrightarrow> v_next v \<le> n \<Longrightarrow> announced b roles (v\<lparr>v_next := n\<rparr>)"
  by (simp add: announced_def sound_next)

lemma announced_forced:
  assumes "announced b roles v"
  shows "announced b (insert role roles) (force_view role v)"
proof -
  have "killed (forced w)" if "v_worker v role = Some w" for w
    using assms that killed_forced by (auto simp: announced_def sound_def)
  with assms show ?thesis by (auto simp: announced_def killed_def intro: sound_force)
qed

lemma announced_told:
  assumes an: "announced b roles v" and w: "v_worker v role = Some w"
    and p: "pd_phase p = control_phase.Shutdown" "pd_request_id p = v_next v" "v_next v < n"
  shows "announced b (insert role roles)
    (v\<lparr>v_next := n, v_worker := (v_worker v)(role := Some (w\<lparr>v_pending := Some p, v_state := Terminating False\<rparr>))\<rparr>)"
proof -
  have "numbered b n ((v_worker v)(role := Some (w\<lparr>v_pending := Some p, v_state := Terminating False\<rparr>)))"
    using an p numbered_next [of b "v_next v" "v_worker v" n] known_new [of b "v_next v" "v_worker v" p n]
    by (auto simp: announced_def sound_def intro!: numbered_update)
  moreover have "linked b (v_supervisor v) ((v_worker v)(role := Some (w\<lparr>v_pending := Some p, v_state := Terminating False\<rparr>)))"
    using an w by (auto simp: announced_def sound_def intro!: linked_update)
  ultimately show ?thesis using an p by (auto simp: announced_def sound_def)
qed

lemma announced_stage: "announced b roles v \<Longrightarrow> announced b roles (v\<lparr>v_stage := StageShuttingDown d f\<rparr>)"
  by (simp add: announced_def)

lemma shutdown_role_ends:
  assumes os: "os_ok env" and an: "announced b roles (view m)"
  shows "ends_ok (shutdown_role ex env deadline role m) (announced b (insert role roles))"
proof (cases "v_worker (view m) role")
  case None
  then show ?thesis using an by (simp add: shutdown_role_def announced_def)
next
  case (Some w)
  obtain m1 r where i: "issue_at_deadline ex env role control_phase.Shutdown deadline m = (m1, r)" by fastforce
  have issued: "issued (view m) role control_phase.Shutdown (view m1) r"
    using issue_at_deadline_ends [of m role ex env control_phase.Shutdown deadline] Some by (simp add: i)
  show ?thesis
  proof (cases r)
    case (Inl e)
    with issued obtain n where e: "is_issue_failure e" and n: "v_next (view m) \<le> n" "view m1 = (view m)\<lparr>v_next := n\<rparr>"
      by (auto simp: issued_def)
    have an1: "announced b roles (view m1)" unfolding n by (rule announced_next [OF an n(1)])
    let ?tail = "\<lambda>m. (case m_stage m of StageShuttingDown d _ \<Rightarrow> m\<lparr>m_stage := StageShuttingDown d True\<rparr> | _ \<Rightarrow> m, Ok ())"
    have "ends_ok (seq_bind (record_issue_failure role control_phase.Shutdown e m1) (\<lambda>m _.
        seq_bind (force_role env role m) (\<lambda>m _. ?tail m))) (announced b (insert role roles))"
    proof (rule ends_ok_seq [OF record_issue_failure_ends [OF e]], rule ends_ok_seq [OF force_role_ends [OF os]])
      fix m2 :: "('a, 'b, 'c, 'd) master" assume m2: "view m2 = view m1"
      then show "v_worker (view m2) role \<noteq> None" using Some by (simp add: n)
      fix m3 :: "('a, 'b, 'c, 'd) master" assume m3: "view m3 = force_view role (view m2)"
      have "announced b (insert role roles) (view m3)" unfolding m3 m2 by (rule announced_forced [OF an1])
      then show "ends_ok (?tail m3) (announced b (insert role roles))"
        by (cases "v_stage (view m3)") (auto intro: announced_stage)
    qed
    then show ?thesis using Some e by (simp add: shutdown_role_def i Inl)
  next
    case (Inr u)
    with issued obtain n p where p: "pd_phase p = control_phase.Shutdown" "pd_request_id p = v_next (view m)" "v_next (view m) < n"
      "view m1 = sent ((view m)\<lparr>v_next := n\<rparr>) role p"
      by (auto simp: issued_def)
    have "ends_ok (mark_terminating role False m1) (announced b (insert role roles))"
      by (rule ends_ok_mono [OF mark_terminating_ends [where w = "w\<lparr>v_pending := Some p\<rparr>"]])
        (use announced_told [OF an Some p(1-3)] Some in \<open>simp_all add: p sent_def\<close>)
    then show ?thesis using Some by (simp add: shutdown_role_def i Inr)
  qed
qed

lemma shutdown_roles_ends:
  assumes "os_ok env" and "announced b told (view m)"
  shows "ends_ok (shutdown_roles ex env deadline roles m) (announced b (told \<union> set roles))"
  using assms(2)
proof (induction roles arbitrary: m told)
  case (Cons role roles)
  show ?case unfolding shutdown_roles.simps
    by (rule ends_ok_seq [OF shutdown_role_ends [OF assms(1) Cons.prems]]) (use Cons.IH in fastforce)
qed simp

lemma UNIV_worker_role: "UNIV = {ActiveRole, CandidateRole, RetiredRole}"
  using worker_role.exhaust by auto

lemma announced_all: "announced b UNIV v \<Longrightarrow> master_ok b v"
  by (auto simp: announced_def master_ok_def closing_def)

lemma begin_shutdown_ends:
  assumes os: "os_ok env" and ok: "master_ok b (view m)"
  shows "ends (begin_shutdown ex env now m) (\<lambda>v r. master_ok b v \<and> (is_ok r \<or> r = Err DeadlineOverflow \<and> v = view m))"
proof (cases "instant_add now (shutdown_timeout (m_config m))")
  case None
  then show ?thesis using ok by (simp add: begin_shutdown_def)
next
  case (Some deadline)
  define m1 where "m1 = (case m_deferred_active_exit m of None \<Rightarrow> m | Some _ \<Rightarrow> drop_worker env ActiveRole (m\<lparr>m_deferred_active_exit := None\<rparr>))"
  define m2 where "m2 = emit ShutdownStarted (m1\<lparr>m_stage := StageShuttingDown deadline False, m_supervisor := None, m_replacement_failure := None\<rparr>)"
  have "sound b (view m1)" "v_deferred (view m1) = None"
    using master_ok_sound [OF ok] sound_drop [OF master_ok_sound [OF ok], of ActiveRole]
    by (auto simp: m1_def sound_def split: option.split)
  then have "announced b {} (view m2)"
    by (auto simp: announced_def m2_def sound_def intro: linked_change)
  from shutdown_roles_ends [OF os this, of ex deadline all_roles]
  have "ends_ok (shutdown_roles ex env deadline all_roles m2) (master_ok b)"
    by (rule ends_ok_mono) (auto intro!: announced_all simp: all_roles_def UNIV_worker_role)
  moreover have "begin_shutdown ex env now m = shutdown_roles ex env deadline all_roles m2"
    by (simp add: begin_shutdown_def Some m1_def m2_def Let_def)
  ultimately show ?thesis by (auto elim!: ends_mono)
qed

lemma shutdown_ends:
  assumes os: "os_ok env" and ok: "master_ok b (view m)"
  shows "ends (shutdown ex env now m) (\<lambda>v r. master_ok b v \<and> (is_ok r \<or> r = Err DeadlineOverflow \<and> v = view m))"
  unfolding shutdown_def
proof (rule ends_seq)
  show "ends (case m_stage m of StageShuttingDown _ _ \<Rightarrow> (m, Ok ()) | StageStopped _ \<Rightarrow> (m, Ok ()) | _ \<Rightarrow> begin_shutdown ex env now m)
      (\<lambda>v r. master_ok b v \<and> (is_ok r \<or> r = Err DeadlineOverflow \<and> v = view m))"
    using ok begin_shutdown_ends [OF assms] by (simp split: stage.split)
next
  fix m1 :: "('a, 'b, 'c, 'd) master" and u
  assume "master_ok b (view m1) \<and> (is_ok (Ok u) \<or> Ok u = Err DeadlineOverflow \<and> view m1 = view m)"
  then show "ends (seq_bind (handle_timeout ex env now m1) (\<lambda>m _. (m, Ok (master_shutdown_progress m))))
      (\<lambda>v r. master_ok b v \<and> (is_ok r \<or> r = Err DeadlineOverflow \<and> v = view m))"
    by (intro ends_ok_seq [OF handle_timeout_ends [OF os]]) auto
qed auto

section \<open>Launch\<close>

definition launch_baseline :: "worker_input \<Rightarrow> baseline" where
  "launch_baseline active = \<lparr>b_next = 1, b_pending = {},
     b_serves = (\<lambda>i g. wi_generation (in_identity active) < g \<or> (i, g) = (in_instance_id active, wi_generation (in_identity active)))\<rparr>"

definition launched :: "worker_input \<Rightarrow> master_view" where
  "launched active =
     \<lparr>v_stage = BootAdopting, v_supervisor = None, v_deferred = None, v_failure = None,
      v_worker = [ActiveRole \<mapsto> \<lparr>v_id = in_instance_id active, v_generation = wi_generation (in_identity active),
        v_pending = None, v_state = WorkerRunning\<rparr>],
      v_next = 1\<rparr>"

lemma launched_boot: "boot (launch_baseline active) AdoptListeners (launched active)"
  by (auto simp: boot_def launched_def launch_baseline_def sound_def numbered_def linked_def split: if_splits)

lemma boot_next: "boot b ph v \<Longrightarrow> v_next v \<le> n \<Longrightarrow> boot b ph (v\<lparr>v_next := n\<rparr>)"
  by (simp add: boot_def sound_next)

text \<open>Adopting the listeners at launch succeeds or is compensated.\<close>

lemma launch_adoption:
  assumes os: "os_ok env" and v: "view m = launched active"
    and i: "issue_adoption ex env ActiveRole now m = (m1, r)"
  shows "is_ok r \<Longrightarrow> master_ok (launch_baseline active) (view m1)"
    and "r = Err e \<Longrightarrow> ends_ok (compensate_issue_error (handle_event ex env now) env ActiveRole AdoptListeners ListenerAdoption e m1)
      (master_ok (launch_baseline active))"
proof -
  have issued: "issued (launched active) ActiveRole AdoptListeners (view m1) r"
    using issue_adoption_ends [of m ActiveRole ex env now] by (simp add: i v launched_def)
  show "is_ok r \<Longrightarrow> master_ok (launch_baseline active) (view m1)"
    using issued boot_sent [OF launched_boot [of active], where ph = AdoptListeners]
    by (auto simp: issued_def is_ok_iff master_ok_def launched_def)
  assume "r = Err e"
  with issued obtain n where e: "is_issue_failure e" and n: "v_next (launched active) \<le> n" "view m1 = (launched active)\<lparr>v_next := n\<rparr>"
    by (auto simp: issued_def)
  have ok: "master_ok (launch_baseline active) (view m1)"
    using boot_next [OF launched_boot n(1)] by (simp add: n master_ok_def launched_def)
  show "ends_ok (compensate_issue_error (handle_event ex env now) env ActiveRole AdoptListeners ListenerAdoption e m1)
      (master_ok (launch_baseline active))"
    unfolding compensate_issue_error_def
  proof (rule ends_ok_seq [OF record_issue_failure_ends [OF e]])
    fix m2 :: "('a, 'b, 'c, 'd) master" assume m2: "view m2 = view m1"
    then show "ends_ok (handle_phase_failure (handle_event ex env now) env ActiveRole ListenerAdoption m2) (master_ok (launch_baseline active))"
      using handle_phase_failure_ends [OF os, of "launch_baseline active" m2 ActiveRole 3] ok by (simp add: n launched_def)
  qed
qed

lemma launch_ends:
  assumes os: "os_ok env" and ok: "launch_with_executor ex env config listeners executor active spawned now = Ok m"
  shows "master_ok (launch_baseline active) (view m)"
proof -
  from ok obtain process where spawned: "spawned = Ok process" and valid: "validate_identity (in_identity active) = Ok ()"
    by (cases spawned; cases "validate_identity (in_identity active)") (auto simp: launch_with_executor_def)
  define m0 where "m0 = \<lparr>m_config = config, m_listeners = listeners, m_executor = executor, m_supervisor = None,
     m_active = Some (managed_worker_new (in_instance_id active) (wi_generation (in_identity active)) process),
     m_candidate = None, m_retired = None, m_deferred_active_exit = None, m_replacement_failure = None,
     m_stage = BootAdopting, m_next_request_id = 1, m_events = [], m_history = history_new, m_trace = []\<rparr>"
  have v: "view m0 = launched active"
    by (auto simp: view_def m0_def launched_def worker.simps worker_view_def managed_worker_new_def fun_eq_iff all_worker_roles simp del: to_view)
  obtain m1 r where i: "issue_adoption ex env ActiveRole now m0 = (m1, r)" by fastforce
  show ?thesis
  proof (cases r)
    case (Inl e)
    obtain m2 r2 where c: "compensate_issue_error (handle_event ex env now) env ActiveRole AdoptListeners ListenerAdoption e m1 = (m2, r2)" by fastforce
    have "m = m2" using ok by (cases r2) (simp_all add: launch_with_executor_def spawned valid m0_def [symmetric] i Inl c Let_def)
    then show ?thesis using launch_adoption(2) [OF os v i Inl] by (simp add: c)
  next
    case (Inr u)
    then have "m = m1" using ok by (simp add: launch_with_executor_def spawned valid m0_def [symmetric] i Let_def)
    then show ?thesis using launch_adoption(1) [OF os v i] Inr by simp
  qed
qed

end
