(* ===== verification/Master_Safety.thy ===== *)
theory Master_Safety
  imports Master_Runs
begin

text \<open>
  Runs of the master: a launch followed by calls of \<open>poll\<close>, \<open>replace\<close> and \<open>shutdown\<close>, and what
  holds of every master that such a run reaches.
\<close>

section \<open>Runs\<close>

datatype ('c, 'g, 'fd) master_call =
    PollCall "('c, 'g, 'fd) master_env" instant
  | ReplaceCall "('c, 'g, 'fd) master_env" worker_input "(string, ('c, 'g, 'fd) worker_process) result" instant
  | ShutdownCall "('c, 'g, 'fd) master_env" instant

datatype master_answer = Events "master_event list" | ReplacementBegun | Progress shutdown_progress

fun call_env :: "('c, 'g, 'fd) master_call \<Rightarrow> ('c, 'g, 'fd) master_env" where
  "call_env (PollCall env _) = env"
| "call_env (ReplaceCall env _ _ _) = env"
| "call_env (ShutdownCall env _) = env"

fun master_step ::
  "('c, 'g, 'fd, 'x) executor \<Rightarrow> ('c, 'g, 'fd, 'x) master \<Rightarrow> ('c, 'g, 'fd) master_call
    \<Rightarrow> ('c, 'g, 'fd, 'x, master_answer) master_result" where
  "master_step ex m (PollCall env now) = map_prod id (map_sum id Events) (poll ex env now m)"
| "master_step ex m (ReplaceCall env candidate spawned now) =
     map_prod id (map_sum id (\<lambda>_. ReplacementBegun)) (replace ex env candidate spawned now m)"
| "master_step ex m (ShutdownCall env now) = map_prod id (map_sum id Progress) (shutdown ex env now m)"

text \<open>The answers of a call: success, the error of a double crash, or an error that changed nothing.\<close>

definition sound_answer :: "master_view \<Rightarrow> master_view \<Rightarrow> (master_error, 'a) result \<Rightarrow> bool" where
  "sound_answer v v' r \<longleftrightarrow> is_ok r \<or> double_crash v' r
     \<or> v' = v \<and> (\<exists>e. r = Err e \<and> (refusal e \<or> e = DeadlineOverflow))"

lemma is_ok_map_sum [simp]: "is_ok (map_sum id f r) = is_ok r"
  by (cases r) simp_all

lemma double_crash_map [simp]: "double_crash v (map_sum id f r) = double_crash v r"
  by (cases r) (simp_all add: double_crash_def)

lemma map_sum_Err [simp]: "map_sum id f r = Err e \<longleftrightarrow> r = Err e"
  by (cases r) simp_all

lemma master_step_ends:
  assumes "os_ok (call_env c)" and "upward b" and "master_ok b (view m)"
  shows "ends (master_step ex m c) (\<lambda>v r. master_ok b v \<and> sound_answer (view m) v r)"
proof (cases c)
  case (PollCall env now)
  then show ?thesis using poll_ends [of env b m ex now] assms by (auto simp: ends_def sound_answer_def)
next
  case (ReplaceCall env candidate spawned now)
  then show ?thesis using replace_ends [of env b m ex candidate spawned now] assms by (auto simp: ends_def sound_answer_def)
next
  case (ShutdownCall env now)
  then show ?thesis using shutdown_ends [of env b m ex now] assms by (auto simp: ends_def sound_answer_def)
qed

interpretation mst: guarded_machine "master_step ex" "\<lambda>m. upward b \<and> master_ok b (view m)" "\<lambda>c. os_ok (call_env c)" for ex b
  by unfold_locales (use master_step_ends in \<open>auto simp: ends_def\<close>)

inductive reached :: "('c, 'g, 'fd, 'x) executor \<Rightarrow> ('c, 'g, 'fd, 'x) master \<Rightarrow> bool" for ex where
  launch: "launch_with_executor ex env config listeners executor active spawned now = Ok m \<Longrightarrow> os_ok env \<Longrightarrow> reached ex m"
| call: "reached ex m \<Longrightarrow> os_ok (call_env c) \<Longrightarrow> reached ex (fst (master_step ex m c))"

lemma upward_launch: "upward (launch_baseline active)"
  by (auto simp: upward_def launch_baseline_def)

lemma reached_ok: "reached ex m \<Longrightarrow> \<exists>active. master_ok (launch_baseline active) (view m)"
proof (induction rule: reached.induct)
  case (launch env config listeners executor active spawned now m)
  from launch_ends [OF launch(2,1)] show ?case ..
next
  case (call m c)
  then obtain active where "master_ok (launch_baseline active) (view m)" by blast
  with mst.guarded_step [of "launch_baseline active" m c ex] call.hyps(2) upward_launch show ?case by blast
qed

section \<open>Comparing two moments of a run\<close>

definition pending_ids :: "master_view \<Rightarrow> u64 set" where
  "pending_ids v = {pd_request_id p | p role w. v_worker v role = Some w \<and> v_pending w = Some p}"

definition current :: "(instance_id \<Rightarrow> generation_id \<Rightarrow> bool) \<Rightarrow> master_view \<Rightarrow> baseline" where
  "current serves v = \<lparr>b_next = v_next v, b_pending = pending_ids v, b_serves = serves\<rparr>"

lemma sound_current:
  assumes "sound b v" and "\<And>w. v_worker v ActiveRole = Some w \<Longrightarrow> serves (v_id w) (v_generation w)"
  shows "sound (current serves v) v"
proof -
  have "numbered (current serves v) (v_next v) (v_worker v)"
    using assms(1) unfolding sound_def numbered_def known_def current_def pending_ids_def by fastforce
  moreover have "linked (current serves v) (v_supervisor v) (v_worker v)"
    using assms unfolding sound_def linked_def current_def by simp
  ultimately show ?thesis by (simp add: sound_def)
qed

lemma master_ok_current:
  assumes "master_ok b v" and "\<And>w. v_worker v ActiveRole = Some w \<Longrightarrow> serves (v_id w) (v_generation w)"
  shows "master_ok (current serves v) v"
  using assms(1) sound_current [where serves = serves, OF master_ok_sound [OF assms(1)] assms(2)]
  unfolding master_ok_def boot_def closing_def failing_def idle_def steady_def by (auto split: stage.splits)

section \<open>Completion of a shutdown\<close>

text \<open>The system reports the exit of every worker of the master.\<close>

definition exiting :: "('c, 'g, 'fd) master_env \<Rightarrow> ('c, 'g, 'fd, 'x) master \<Rightarrow> bool" where
  "exiting env m \<longleftrightarrow> (\<forall>role w. worker m role = Some w \<longrightarrow>
     (\<exists>status. snd (snd (process_poll_event (me_exit env role) (mw_process w))) = Ok (Some (ProcessGroupExited status))))"

definition closing_stage :: "master_view \<Rightarrow> bool" where
  "closing_stage v \<longleftrightarrow> (\<exists>d f. v_stage v = StageShuttingDown d f)"

lemma exiting_emit [simp]: "exiting env (emit e m) = exiting env m" "exiting env (m\<lparr>m_stage := st\<rparr>) = exiting env m"
  by (simp_all add: exiting_def del: worker_None)

lemma force_role_exiting:
  assumes "os_ok env" and "exiting env m"
  shows "exiting env (fst (force_role env role m))"
proof (cases "worker m role")
  case (Some w)
  obtain acts where "request_kill (me_kill env) (mw_process w) = (mw_process w, acts, Ok ())"
    using request_kill_ok [OF assms(1)] by blast
  with Some assms(2) worker_SomeD [OF Some] show ?thesis
    by (auto simp: force_role_def exiting_def Let_def simp del: worker_None split: if_splits)
qed (use assms in \<open>simp add: force_role_def del: worker_None\<close>)

lemma force_roles_exiting:
  assumes "os_ok env" and "exiting env m"
  shows "exiting env (fst (force_roles env roles m))"
  using assms(2)
proof (induction roles arbitrary: m)
  case (Cons role roles)
  define m1 where "m1 = fst (if worker m role \<noteq> None then force_role env role m else (m, Ok ()))"
  have "is_ok (snd (if worker m role \<noteq> None then force_role env role m else (m, Ok ())))"
    using force_role_ends [OF assms(1), of m role] by (auto simp: ends_def)
  then have "force_roles env (role # roles) m = force_roles env roles m1"
    by (cases "if worker m role \<noteq> None then force_role env role m else (m, Ok ())") (auto simp: m1_def is_ok_iff)
  moreover have "exiting env m1" using force_role_exiting [OF assms(1) Cons.prems] Cons.prems by (simp add: m1_def)
  ultimately show ?case using Cons.IH by simp
qed simp

definition is_exit :: "observed \<Rightarrow> bool" where
  "is_exit item \<longleftrightarrow> (\<exists>status. ob_observation item = ObsExit status)"

lemma is_exit_exit [simp]: "is_exit \<lparr>ob_instance_id = i, ob_observation = ObsExit status\<rparr>"
  by (simp add: is_exit_def)

lemma observe_exit:
  assumes ph: "master_phase m \<noteq> Some ActivatingCandidate" and w: "worker m role = Some w"
    and ev: "snd (snd (process_poll_event (me_exit env role) (mw_process w))) = Ok (Some (ProcessGroupExited status))"
  obtains m' where "observe env role m = (m', Ok (Some \<lparr>ob_instance_id = mw_instance_id w, ob_observation = ObsExit status\<rparr>))"
    "view m' = view m" "\<And>role'. role' \<noteq> role \<Longrightarrow> worker m' role' = worker m role'"
proof -
  obtain process acts where p: "process_poll_event (me_exit env role) (mw_process w) = (process, acts, Ok (Some (ProcessGroupExited status)))"
    using ev by (metis prod.collapse)
  let ?m = "(set_worker role (Some (w\<lparr>mw_process := process\<rparr>)) m)\<lparr>m_trace := m_trace m @ acts\<rparr>"
  have "observe env role m = (?m, Ok (Some \<lparr>ob_instance_id = mw_instance_id w, ob_observation = ObsExit status\<rparr>))"
    using ph w p by (simp add: observe_def Let_def)
  moreover have "view ?m = view m" using worker_SomeD [OF w] by simp
  moreover have "worker ?m role' = worker m role'" if "role' \<noteq> role" for role' using that by simp
  ultimately show ?thesis using that by blast
qed

lemma observe_all_exits:
  assumes "distinct roles" and "master_phase m \<noteq> Some ActivatingCandidate"
    and "\<And>role w. role \<in> set roles \<Longrightarrow> worker m role = Some w \<Longrightarrow>
      \<exists>status. snd (snd (process_poll_event (me_exit env role) (mw_process w))) = Ok (Some (ProcessGroupExited status))"
  shows "\<exists>m' items. observe_all env roles m = (m', Ok items) \<and> view m' = view m \<and> list_all is_exit items
    \<and> (\<forall>role\<in>set roles. \<forall>w. v_worker (view m) role = Some w \<longrightarrow> v_id w \<in> ob_instance_id ` set items)"
  using assms
proof (induction roles arbitrary: m)
  case (Cons role roles)
  show ?case
  proof (cases "worker m role")
    case None
    then have o: "observe env role m = (m, Ok None)" by (simp add: observe_def del: worker_None)
    obtain m' items where "observe_all env roles m = (m', Ok items)" "view m' = view m" "list_all is_exit items"
      "\<forall>role\<in>set roles. \<forall>w. v_worker (view m) role = Some w \<longrightarrow> v_id w \<in> ob_instance_id ` set items"
      using Cons.IH [of m] Cons.prems by auto
    with o None show ?thesis by auto
  next
    case (Some w)
    then obtain status where "snd (snd (process_poll_event (me_exit env role) (mw_process w))) = Ok (Some (ProcessGroupExited status))"
      using Cons.prems(3) by auto
    from observe_exit [OF Cons.prems(2) Some this] obtain m1 where
      o: "observe env role m = (m1, Ok (Some \<lparr>ob_instance_id = mw_instance_id w, ob_observation = ObsExit status\<rparr>))"
      and m1: "view m1 = view m" "\<And>role'. role' \<noteq> role \<Longrightarrow> worker m1 role' = worker m role'" by blast
    have "\<exists>status. snd (snd (process_poll_event (me_exit env role') (mw_process w'))) = Ok (Some (ProcessGroupExited status))"
      if "role' \<in> set roles" "worker m1 role' = Some w'" for role' w'
    proof -
      have "role' \<noteq> role" using that(1) Cons.prems(1) by auto
      with that m1(2) [of role'] have "worker m role' = Some w'" by simp
      then show ?thesis using Cons.prems(3) [of role' w'] that(1) by simp
    qed
    moreover have "master_phase m1 \<noteq> Some ActivatingCandidate" using Cons.prems(2) by (simp add: master_phase_view m1)
    ultimately obtain m' items where "observe_all env roles m1 = (m', Ok items)" "view m' = view m" "list_all is_exit items"
      "\<forall>role\<in>set roles. \<forall>w. v_worker (view m) role = Some w \<longrightarrow> v_id w \<in> ob_instance_id ` set items"
      using Cons.IH [of m1] Cons.prems(1) m1(1) by auto
    with o worker_SomeD [OF Some] show ?thesis by auto
  qed
qed simp

text \<open>The workers that are left once those with the given identities are gone.\<close>

definition survivors :: "instance_id set \<Rightarrow> master_view \<Rightarrow> master_view \<Rightarrow> bool" where
  "survivors ids v v' \<longleftrightarrow> (\<forall>role w. v_worker v' role = Some w \<longrightarrow> v_worker v role = Some w \<and> v_id w \<notin> ids)"

lemma survivors_insert:
  assumes "survivors ids v1 v'" and "\<And>role w. v_worker v1 role = Some w \<Longrightarrow> v_worker v role = Some w \<and> v_id w \<noteq> i"
  shows "survivors (insert i ids) v v'"
  using assms unfolding survivors_def by blast

lemma handle_exits_closing:
  assumes "closing b (view m)" and "closing_stage (view m)" and "list_all is_exit items"
  shows "ends_ok (handle_observed ex env now items m)
    (\<lambda>v. closing b v \<and> v_stage v = v_stage (view m) \<and> survivors (ob_instance_id ` set items) (view m) v)"
  using assms
proof (induction items arbitrary: m)
  case Nil
  then show ?case by (simp add: survivors_def)
next
  case (Cons item items)
  obtain status where ob: "ob_observation item = ObsExit status" using Cons.prems(3) by (auto simp: is_exit_def)
  have distinct: "view_role (view m) (v_id w) = Some role" if "v_worker (view m) role = Some w" for role w
    using that view_role_Some [of b "v_supervisor (view m)" "view m" role w] Cons.prems(1) by (auto simp: closing_def sound_def)
  show ?case
  proof (cases "role_for m (ob_instance_id item)")
    case None
    have "v_id w \<noteq> ob_instance_id item" if "v_worker (view m) role = Some w" for role w
      using None distinct [OF that] by (auto simp: role_for_view)
    then have "survivors (insert (ob_instance_id item) ids) (view m) v" if "survivors ids (view m) v" for ids v
      using survivors_insert [OF that] by simp
    then have "ends_ok (handle_observed ex env now items m)
      (\<lambda>v. closing b v \<and> v_stage v = v_stage (view m) \<and> survivors (ob_instance_id ` set (item # items)) (view m) v)"
      by (intro ends_ok_mono [OF Cons.IH [OF Cons.prems(1,2)]]) (use Cons.prems(3) in auto)
    then show ?thesis by (simp add: None)
  next
    case (Some role)
    then obtain w where w: "v_worker (view m) role = Some w" "v_id w = ob_instance_id item"
      by (auto simp: role_for_view view_role_def split: if_splits)
    define m1 where "m1 = drop_worker env role (emit (WorkerExited role (ob_instance_id item) status) m)"
    have v1: "view m1 = (view m)\<lparr>v_worker := (v_worker (view m))(role := None)\<rparr>" by (simp add: m1_def)
    have "handle_observation ex env now role (ob_observation item) m = (m1, Ok ())"
      using w Cons.prems(1,2)
      by (auto simp: handle_observation_def ob handle_exit_def role_id_view m1_def closing_stage_def closing_def master_phase_view view_phase_def)
    then have step: "handle_observed ex env now (item # items) m = handle_observed ex env now items m1" by (simp add: Some)
    have "closing b (view m1)" unfolding v1 by (rule closing_drop [OF Cons.prems(1)])
    have "v_worker (view m) role' = Some w' \<and> v_id w' \<noteq> ob_instance_id item" if "v_worker (view m1) role' = Some w'" for role' w'
      using that distinct [OF w(1)] distinct [of role' w'] w(2) by (auto simp: v1 split: if_splits)
    then have "survivors (insert (ob_instance_id item) ids) (view m) v" if "survivors ids (view m1) v" for ids v
      by (rule survivors_insert [OF that])
    then have "ends_ok (handle_observed ex env now items m1)
      (\<lambda>v. closing b v \<and> v_stage v = v_stage (view m) \<and> survivors (ob_instance_id ` set (item # items)) (view m) v)"
      by (intro ends_ok_mono [OF Cons.IH [OF \<open>closing b (view m1)\<close>]])
        (use Cons.prems(2,3) in \<open>auto simp: closing_stage_def v1\<close>)
    with step show ?thesis by simp
  qed
qed

lemma handle_timeout_closing:
  assumes os: "os_ok env" and cl: "closing b (view m)" and st: "closing_stage (view m)" and ex: "exiting env m"
  obtains m1 where "handle_timeout x env now m = (m1, Ok ())" "closing b (view m1)" "closing_stage (view m1)" "exiting env m1"
proof -
  obtain d f where st': "v_stage (view m) = StageShuttingDown d f" using st by (auto simp: closing_stage_def)
  then have next_d: "next_deadline m = Some d" by (simp add: next_deadline_def)
  show ?thesis
  proof (cases "now < d")
    case True
    then show ?thesis using that cl st ex by (simp add: handle_timeout_def next_d)
  next
    case False
    let ?m = "(if f then m else emit ShutdownForced m)\<lparr>m_stage := StageShuttingDown d True\<rparr>"
    have "closing b (view ?m)" using cl by (auto simp: closing_def)
    from closing_force_all [OF this] have v: "closing b (fold force_view all_roles (view ?m))" by (simp only: all_roles_def force_all_fold)
    obtain m1 r where f: "force_roles env all_roles ?m = (m1, r)" by fastforce
    have r: "r = Ok ()" "view m1 = fold force_view all_roles (view ?m)"
      using force_roles_ends [OF os, of all_roles ?m] by (auto simp: f is_ok_iff simp del: fold_simps)
    have "v_stage (fold force_view roles w) = v_stage w" for roles w by (induction roles arbitrary: w) simp_all
    then have "closing_stage (view m1)" by (auto simp: r closing_stage_def)
    moreover have "exiting env m1" using force_roles_exiting [OF os, of ?m all_roles] ex by (simp add: f)
    moreover have "handle_timeout x env now m = (m1, Ok ())" using False st' f r by (simp add: handle_timeout_def next_d Let_def)
    ultimately show ?thesis using that v r by simp
  qed
qed

lemma poll_completes_shutdown:
  assumes os: "os_ok env" and cl: "closing b (view m)" and st: "closing_stage (view m)" and exi: "exiting env m"
  shows "ends_ok (poll ex env now m) (\<lambda>v. \<exists>f. v_stage v = StageStopped f)"
proof -
  obtain m1 where t: "handle_timeout ex env now m = (m1, Ok ())" and m1: "closing b (view m1)" "closing_stage (view m1)" "exiting env m1"
    using handle_timeout_closing [OF os cl st exi] by metis
  have ph: "master_phase m1 = None" using m1(1) by (simp add: master_phase_view view_phase_def closing_def)
  obtain m2 items where o: "observe_all env all_roles m1 = (m2, Ok items)" "view m2 = view m1" "list_all is_exit items"
      and ids: "\<forall>role\<in>set all_roles. \<forall>w. v_worker (view m1) role = Some w \<longrightarrow> v_id w \<in> ob_instance_id ` set items"
    using observe_all_exits [of all_roles m1 env] m1(3) ph by (auto simp: exiting_def all_roles_def)
  have "ends_ok (handle_observed ex env now items m2)
      (\<lambda>v. closing b v \<and> v_stage v = v_stage (view m2) \<and> survivors (ob_instance_id ` set items) (view m2) v)"
    using m1 o by (intro handle_exits_closing) simp_all
  then obtain m3 where h: "handle_observed ex env now items m2 = (m3, Ok ())" "v_stage (view m3) = v_stage (view m1)"
      "survivors (ob_instance_id ` set items) (view m1) (view m3)"
    by (cases "handle_observed ex env now items m2") (auto simp: is_ok_iff o(2))
  have "v_worker (view m3) role = None" for role
    using h(3) ids by (cases "v_worker (view m3) role"; cases role) (auto simp: survivors_def all_roles_def)
  then have "worker_count m3 = 0" by (simp add: worker_count_view)
  moreover obtain d f where "v_stage (view m3) = StageShuttingDown d f" using m1(2) h(2) by (auto simp: closing_stage_def)
  moreover have "m_stage m1 \<noteq> StageFailing ph" for ph using m1(2) by (auto simp: closing_stage_def)
  ultimately show ?thesis
    using ph o h m1(2) by (auto simp: poll_def t Let_def finish_terminal_states_def closing_stage_def)
qed

section \<open>Properties\<close>



text \<open>
  C14. Between two moments of a run the active role keeps its instance or goes to one of a strictly
  newer generation; it never goes back.\<close>

definition same_or_newer :: "('c, 'g, 'fd) managed_worker \<Rightarrow> instance_id \<Rightarrow> generation_id \<Rightarrow> bool" where
  "same_or_newer w i g \<longleftrightarrow> mw_generation w < g \<or> mw_instance_id w = i \<and> mw_generation w = g"

theorem master_serving_monotone:
  assumes "reached ex m" and "list_all (\<lambda>c. os_ok (call_env c)) calls" and "m_active m = Some w"
    and "m_active (fst (run (master_step ex) m calls)) = Some w'"
  shows "same_or_newer w (mw_instance_id w') (mw_generation w')"
proof -
  let ?b = "current (same_or_newer w) (view m)"
  have w: "v_worker (view m) ActiveRole = Some (worker_view w)" using assms(3) worker_SomeD by simp
  obtain active where "master_ok (launch_baseline active) (view m)" using reached_ok [OF assms(1)] by blast
  then have "master_ok ?b (view m)"
    by (rule master_ok_current) (simp add: w same_or_newer_def)
  moreover have "upward ?b" by (auto simp: upward_def current_def same_or_newer_def)
  ultimately have "sound ?b (view (fst (run (master_step ex) m calls)))"
    using mst.guarded_run [of ?b m calls ex] assms(2) master_ok_sound by blast
  moreover have "v_worker (view (fst (run (master_step ex) m calls))) ActiveRole = Some (worker_view w')"
    using assms(4) worker_SomeD by simp
  ultimately show ?thesis by (simp add: sound_def linked_def current_def)
qed

text \<open>Only an accepted acknowledgement of \<open>Activate\<close> by the candidate promotes: any other
  observation of any worker leaves the active role with its instance or empty.\<close>

theorem master_promotes_on_ack:
  assumes "reached ex m" and "os_ok env" and "worker m role = Some w" and "\<not> promotion role ob"
    and "m_active (fst (handle_observation ex env now role ob m)) = Some w'"
  shows "map_option (\<lambda>w. (mw_instance_id w, mw_generation w)) (m_active m) = Some (mw_instance_id w', mw_generation w')"
proof -
  let ?serves = "\<lambda>i g. map_option (\<lambda>w. (mw_instance_id w, mw_generation w)) (m_active m) = Some (i, g)"
  obtain active where "master_ok (launch_baseline active) (view m)" using reached_ok [OF assms(1)] by blast
  then have "master_ok (current ?serves (view m)) (view m)"
    by (rule master_ok_current) (auto simp: v_worker_view simp del: worker_None)
  from handle_observation_ends [OF assms(2) this worker_SomeD [OF assms(3)], of ob ex now] assms(4)
  have "sound (current ?serves (view m)) (view (fst (handle_observation ex env now role ob m)))"
    using master_ok_sound by (auto simp: ends_def)
  moreover have "v_worker (view (fst (handle_observation ex env now role ob m))) ActiveRole = Some (worker_view w')"
    using assms(5) worker_SomeD by simp
  ultimately show ?thesis by (simp add: sound_def linked_def current_def)
qed


text \<open>
  C15. A shutdown completes: as soon as the system reports the exit of every worker that is left, the
  next \<open>poll\<close> stops the master.\<close>

theorem master_shutdown_completes:
  assumes "reached ex m" and "m_stage m = StageShuttingDown deadline was_forced" and "os_ok env" and "exiting env m"
  shows "is_ok (snd (poll ex env now m)) \<and> (\<exists>f. m_stage (fst (poll ex env now m)) = StageStopped f)"
proof -
  obtain active where "master_ok (launch_baseline active) (view m)" using reached_ok [OF assms(1)] by blast
  then have "closing (launch_baseline active) (view m)" using assms(2) by (simp add: master_ok_def)
  from poll_completes_shutdown [OF assms(3) this _ assms(4), of ex now] show ?thesis
    using assms(2) by (simp add: ends_def closing_stage_def)
qed


section \<open>Witnesses\<close>

definition example_executor :: "(nat, nat, nat, unit) executor" where
  "example_executor =
     \<lparr>ex_prepare = (\<lambda>x role ph step. (x, Ok ())), ex_duplicate = (\<lambda>x role listeners. (x, Ok (st_originals listeners))),
      ex_send = (\<lambda>x role process ph payload fds. (x, process, [], Ok ()))\<rparr>"

definition example_round :: "(nat, nat, nat) receive_round" where
  "example_round = \<lparr>rr_alive = example_os, rr_poll = Ok 0, rr_recvmsg = Err 11, rr_after = example_os, rr_grace = []\<rparr>"

definition example_env :: "(nat, nat, nat) master_env" where
  "example_env = \<lparr>me_alloc_limit = 4096, me_reserve = (\<lambda>_. True), me_exit = (\<lambda>_. example_os), me_fd = example_fd_env,
     me_receive = (\<lambda>_. example_round), me_kill = example_os\<rparr>"

definition example_config :: master_config where
  "example_config = \<lparr>adoption_timeout = 100, quiesce_timeout = 100, activation_timeout = 100, drain_timeout = 100, shutdown_timeout = 100\<rparr>"

definition example_listeners :: "nat stable_listeners" where
  "example_listeners = \<lparr>st_manifest = DescriptorManifest [], st_originals = []\<rparr>"

definition example_input :: worker_input where
  "example_input = \<lparr>in_instance_id = example_id 1, in_identity = example_identity\<rparr>"

lemma example_env_ok: "os_ok example_env"
  by (simp add: os_ok_def example_env_def example_os_def)

lemma example_encoding: "\<exists>payload. encode_adopt_request 4096 1 (DescriptorManifest []) = Ok payload"
  by (simp add: encode_adopt_request_Ok manifest_image_def control_limits)

definition example_pending :: pending where
  "example_pending = \<lparr>pd_request_id = 1, pd_phase = AdoptListeners, pd_deadline = 105\<rparr>"

definition example_master :: "(nat, nat, nat, unit) master" where
  "example_master =
     \<lparr>m_config = example_config, m_listeners = example_listeners, m_executor = (), m_supervisor = None,
      m_active = Some ((managed_worker_new (example_id 1) 9 example_process)\<lparr>mw_pending := Some example_pending\<rparr>),
      m_candidate = None, m_retired = None, m_deferred_active_exit = None, m_replacement_failure = None, m_stage = BootAdopting,
      m_next_request_id = 2, m_events = [], m_history = history_new, m_trace = []\<rparr>"

lemma example_launched:
  "launch_with_executor example_executor example_env example_config example_listeners () example_input (Ok example_process) 5 = Ok example_master"
proof -
  obtain payload where "encode_adopt_request 4096 1 (DescriptorManifest []) = Ok payload" using example_encoding by blast
  then show ?thesis
    by (simp add: launch_with_executor_def validate_identity_def example_input_def example_identity_def CONTROL_PROTOCOL_VERSION_def
     issue_adoption_def prepare_request_def prepare_step_def example_executor_def example_listeners_def
     prepare_request_at_deadline_def take_request_id_def instant_add_def example_config_def example_master_def example_pending_def
     u64_checked_add_def dispatch_def request_payload_def example_env_def worker.simps managed_worker_new_def del: to_view)
qed

lemma example_reached: "reached example_executor example_master"
  by (rule reached.launch [OF example_launched example_env_ok])

lemmas example_master_defs = example_master_def example_env_def example_executor_def example_config_def

text \<open>The same master once a shutdown has begun.\<close>

definition example_stopping :: "(nat, nat, nat, unit) master" where
  "example_stopping = example_master
     \<lparr>m_active := Some ((managed_worker_new (example_id 1) 9 example_process)
        \<lparr>mw_pending := Some \<lparr>pd_request_id = 2, pd_phase = control_phase.Shutdown, pd_deadline = 106\<rparr>, mw_state := Terminating False\<rparr>),
      m_stage := StageShuttingDown 106 False, m_next_request_id := 3,
      m_events := [ShutdownStarted, TerminationRequested ActiveRole False]\<rparr>"

lemma example_shutdown: "fst (master_step example_executor example_master (ShutdownCall example_env 6)) = example_stopping"
  by (simp add: shutdown_def begin_shutdown_def example_master_defs example_stopping_def all_roles_def shutdown_role_def issue_at_deadline_def
      prepare_step_def prepare_request_at_deadline_def take_request_id_def u64_checked_add_def request_payload_def dispatch_def
      mark_terminating_def update_worker_def emit_def handle_timeout_def next_deadline_def instant_add_def worker.simps managed_worker_new_def
      encode_request_def Let_def del: to_view)

lemma example_stopping_reached: "reached example_executor example_stopping"
  using reached.call [OF example_reached, of "ShutdownCall example_env 6"]
  by (simp only: example_shutdown call_env.simps example_env_ok simp_thms)



theorem master_serving_monotone_witness:
  "\<exists>w w'. m_active example_master = Some w
     \<and> m_active (fst (run (master_step example_executor) example_master [ShutdownCall example_env 6])) = Some w'
     \<and> same_or_newer w (mw_instance_id w') (mw_generation w')"
proof -
  obtain w where w: "m_active example_master = Some w" by (simp add: example_master_def del: to_view)
  have run: "fst (run (master_step example_executor) example_master [ShutdownCall example_env 6]) = example_stopping"
    unfolding fst_run_Cons example_shutdown by simp
  obtain w' where w': "m_active example_stopping = Some w'" by (simp add: example_stopping_def del: to_view)
  have "list_all (\<lambda>c. os_ok (call_env c)) [ShutdownCall example_env 6]" by (simp add: example_env_ok)
  from master_serving_monotone [OF example_reached this w, of w'] w w' show ?thesis unfolding run by blast
qed


theorem master_shutdown_completes_witness:
  "m_stage example_stopping = StageShuttingDown 106 False
   \<and> (\<exists>f. m_stage (fst (poll example_executor example_env 7 example_stopping)) = StageStopped f)"
proof -
  have st: "m_stage example_stopping = StageShuttingDown 106 False" by (simp add: example_stopping_def del: to_view)
  have "exiting example_env example_stopping"
    unfolding exiting_def
  proof (intro allI impI)
    fix role w assume "worker example_stopping role = Some w"
    then have "mw_process w = example_process"
      by (cases role) (auto simp: example_stopping_def example_master_def managed_worker_new_def worker.simps simp del: to_view)
    then show "\<exists>status. snd (snd (process_poll_event (me_exit example_env role) (mw_process w)))
        = Ok (Some (ProcessGroupExited status))"
      by (simp add: example_env_def process_defs)
  qed
  from master_shutdown_completes [OF example_stopping_reached st example_env_ok this, of 7] st show ?thesis by blast
qed






end
